theory Spec2Isabelle
  imports Complex_Main
begin

section \<open>The Davidson eigensolver of qimpy (electrons/\_davidson.py)\<close>

text \<open>
  Tensors are modelled by their indexing function together with their shape: an
  eigenvalue array \<open>E[spin, k, band]\<close> is a function of three indices, a batch of
  subspace matrices \<open>V[spin, k, row, col]\<close> a function of four, and the coefficients
  of a wavefunction block \<open>C[spin, k, band, coefficient]\<close> a function of four whose
  last index runs over the flattened (spinor, basis) axes. Floating-point numbers are
  idealised as real and complex numbers.
\<close>

type_synonym tensor3 = "nat \<Rightarrow> nat \<Rightarrow> nat \<Rightarrow> real"
type_synonym cmat = "nat \<Rightarrow> nat \<Rightarrow> complex"
type_synonym matrices = "nat \<Rightarrow> nat \<Rightarrow> cmat"

record wavefunction =
  coeff :: "nat \<Rightarrow> nat \<Rightarrow> nat \<Rightarrow> nat \<Rightarrow> complex"
  wf_n_bands :: nat

text \<open>
  \<open>ValueError\<close> and \<open>RuntimeError\<close> are raised by the code. \<open>NotANumber\<close> is not an
  exception: it marks the point where a tensor of the code comes to hold \<open>nan\<close> or
  \<open>inf\<close>, with which the code goes on computing and which the model, over the real and
  complex numbers, does not follow.
\<close>

datatype error = ValueError | RuntimeError | NotANumber

subsection \<open>Argument handling of \<open>__call__\<close> (lines 108-110)\<close>

text \<open>Python truth values of the optional overrides: \<open>None\<close>, \<open>0\<close> and \<open>0.0\<close> are false.\<close>

definition truthy_int :: "int option \<Rightarrow> bool" where
  "truthy_int a = (case a of None \<Rightarrow> False | Some n \<Rightarrow> n \<noteq> 0)"

definition truthy_float :: "real option \<Rightarrow> bool" where
  "truthy_float a = (case a of None \<Rightarrow> False | Some t \<Rightarrow> t \<noteq> 0)"

text \<open>\<open>inner_loop = (n_iterations or eig_threshold) and (not helper)\<close>, as a truth value.\<close>

definition get_inner_loop :: "int option \<Rightarrow> real option \<Rightarrow> bool \<Rightarrow> bool" where
  "get_inner_loop n_iterations_arg eig_threshold_arg helper =
     ((truthy_int n_iterations_arg \<or> truthy_float eig_threshold_arg) \<and> \<not> helper)"

text \<open>\<open>n_iterations = n_iterations if n_iterations else self.n_iterations\<close>\<close>

definition get_n_iterations :: "int \<Rightarrow> int option \<Rightarrow> int" where
  "get_n_iterations self_n_iterations n_iterations_arg =
     (if truthy_int n_iterations_arg then the n_iterations_arg else self_n_iterations)"

text \<open>\<open>eig_threshold = eig_threshold if eig_threshold else self.eig_threshold\<close>\<close>

definition get_eig_threshold :: "real \<Rightarrow> real option \<Rightarrow> real" where
  "get_eig_threshold self_eig_threshold eig_threshold_arg =
     (if truthy_float eig_threshold_arg then the eig_threshold_arg else self_eig_threshold)"

subsection \<open>The basis-size check (lines 113-116)\<close>

definition basis_check :: "nat \<Rightarrow> nat \<Rightarrow> error option" where
  "basis_check n_bands_max n_min =
     (if 2 * n_bands_max \<ge> n_min then Some ValueError else None)"

subsection \<open>\<open>_check_deigs\<close> (lines 87-98)\<close>

text \<open>
  The eigenvalue changes held by one partition of the communicator \<open>comm_kb\<close>:
  the array \<open>dE[spin, k, band]\<close> and its shape.
\<close>

record deigs =
  dE_val :: tensor3
  dE_n_spins :: nat
  dE_nk :: nat
  dE_n_bands :: nat

text \<open>The flat list of the entries of \<open>dE[..., :n_bands]\<close>.\<close>

definition dE_entries :: "nat \<Rightarrow> deigs \<Rightarrow> real list" where
  "dE_entries n_bands d =
     concat (map (\<lambda>s. concat (map (\<lambda>k. map (\<lambda>b. dE_val d s k b)
        [0..<min n_bands (dE_n_bands d)]) [0..<dE_nk d])) [0..<dE_n_spins d])"

text \<open>\<open>tensor.max()\<close>: torch raises a RuntimeError on a tensor without elements.\<close>

definition tensor_max :: "real list \<Rightarrow> error + real" where
  "tensor_max xs = (case xs of [] \<Rightarrow> Inl RuntimeError | x # ys \<Rightarrow> Inr (fold max ys x))"

text \<open>\<open>(dE[..., :n_bands] > eig_threshold).flatten(0, 1).any(dim=0)\<close> at band \<open>b\<close>.\<close>

definition band_pending :: "deigs \<Rightarrow> real \<Rightarrow> nat \<Rightarrow> bool" where
  "band_pending d eig_threshold b =
     list_ex (\<lambda>s. list_ex (\<lambda>k. dE_val d s k b > eig_threshold) [0..<dE_nk d])
       [0..<dE_n_spins d]"

text \<open>\<open>torch.where(...)[0]\<close>: the indices of the pending bands, ascending.\<close>

definition eigs_pending :: "nat \<Rightarrow> deigs \<Rightarrow> real \<Rightarrow> nat list" where
  "eigs_pending n_bands d eig_threshold =
     filter (band_pending d eig_threshold) [0..<min n_bands (dE_n_bands d)]"

text \<open>\<open>eigs_pending[0].item() if len(eigs_pending) else n_bands\<close>\<close>

definition local_n_eigs_done :: "nat \<Rightarrow> deigs \<Rightarrow> real \<Rightarrow> nat" where
  "local_n_eigs_done n_bands d eig_threshold =
     (case eigs_pending n_bands d eig_threshold of [] \<Rightarrow> n_bands | b # _ \<Rightarrow> b)"

text \<open>
  \<open>comm.allreduce(x, MPI.MAX)\<close> and \<open>comm.allreduce(x, MPI.MIN)\<close>: every partition
  contributes its local value (this one first) and receives the reduction of all.
\<close>

definition allreduce_max :: "real \<Rightarrow> real list \<Rightarrow> real" where
  "allreduce_max mine others = fold max others mine"

definition allreduce_min :: "nat \<Rightarrow> nat list \<Rightarrow> nat" where
  "allreduce_min mine others = fold min others mine"

text \<open>
  \<open>_check_deigs\<close> as run on the partition holding \<open>d\<close>, the other partitions of
  \<open>comm_kb\<close> holding \<open>others\<close>. The local maximum of each partition is computed
  before the reduction, so an empty slice raises there.
\<close>

fun local_maxima :: "nat \<Rightarrow> deigs list \<Rightarrow> error + real list" where
  "local_maxima n_bands [] = Inr []"
| "local_maxima n_bands (d # ds) =
     (case tensor_max (dE_entries n_bands d) of
        Inl e \<Rightarrow> Inl e
      | Inr m \<Rightarrow> (case local_maxima n_bands ds of
                    Inl e \<Rightarrow> Inl e
                  | Inr ms \<Rightarrow> Inr (m # ms)))"

definition check_deigs :: "nat \<Rightarrow> deigs \<Rightarrow> deigs list \<Rightarrow> real \<Rightarrow> error + real \<times> nat" where
  "check_deigs n_bands d others eig_threshold =
     (case local_maxima n_bands (d # others) of
        Inl e \<Rightarrow> Inl e
      | Inr ms \<Rightarrow>
          Inr (allreduce_max (hd ms) (tl ms),
               allreduce_min (local_n_eigs_done n_bands d eig_threshold)
                 (map (\<lambda>p. local_n_eigs_done n_bands p eig_threshold) others)))"

subsection \<open>The environment of the solver\<close>

text \<open>
  What \<open>_davidson.py\<close> reads from \<open>self.electrons\<close>, \<open>self.rc\<close> and the libraries.
  The operator application, the overlap operator, the band norms, the dense
  eigensolvers, the random number source and the values contributed by the other
  partitions to each collective are defined outside the file and are taken as
  parameters.
\<close>

record env =
  n_spins :: nat
  nk_mine :: nat
  n_bands :: nat
  n_bands_extra :: nat
  n_min :: nat
  n_tot :: nat
  n_coeff :: nat
  n_procs_b :: nat
  w_spin :: real
  wk :: "nat \<Rightarrow> real"
  get_ke :: "nat \<Rightarrow> nat \<Rightarrow> real"
  hamiltonian :: "wavefunction \<Rightarrow> wavefunction"
  overlap_op :: "wavefunction \<Rightarrow> wavefunction"
  norm_ke :: "wavefunction \<Rightarrow> tensor3"
  norm_band :: "wavefunction \<Rightarrow> tensor3"
  eigh :: "nat \<Rightarrow> cmat \<Rightarrow> (nat \<Rightarrow> real) \<times> cmat"
  eighg :: "nat \<Rightarrow> cmat \<Rightarrow> cmat \<Rightarrow> (nat \<Rightarrow> real) \<times> cmat"
  rand :: "nat \<Rightarrow> nat \<Rightarrow> nat \<Rightarrow> nat \<Rightarrow> nat \<Rightarrow> complex"
  bcast_norm :: "nat \<Rightarrow> tensor3"
  peers_Eband :: "nat \<Rightarrow> real list"
  peers_dE :: "nat \<Rightarrow> deigs list"

record davidson =
  self_n_iterations :: int
  self_eig_threshold :: real

text \<open>\<open>self._norm_cut = np.sqrt(electrons.basis.n_tot * 1E-15)\<close> (lines 28-29)\<close>

definition norm_cut :: "env \<Rightarrow> real" where
  "norm_cut el = sqrt (real (n_tot el) * (1 / 10 ^ 15))"

subsection \<open>Operations on wavefunction blocks\<close>

text \<open>
  Modelled from the spec: the class Wavefunction of qimpy is not among the source
  files. Its operations are the "overlap/inner-product operations between orbital
  blocks" of the basis metric: \<open>C ^ D\<close> is the matrix of inner products of the bands of
  \<open>C\<close> with those of \<open>D\<close>, \<open>C.dot(D, overlap=True)\<close> the same with the overlap
  operator applied to \<open>D\<close>, \<open>C @ V\<close> the linear combination of the bands of \<open>C\<close> with
  the columns of \<open>V\<close>, and \<open>C[:, :, n:]\<close> drops the first \<open>n\<close> bands.
\<close>

definition wf_dot :: "env \<Rightarrow> wavefunction \<Rightarrow> wavefunction \<Rightarrow> matrices" where
  "wf_dot el C D = (\<lambda>s k i j. \<Sum>g<n_coeff el. cnj (coeff C s k i g) * coeff D s k j g)"

definition wf_dot_O :: "env \<Rightarrow> wavefunction \<Rightarrow> wavefunction \<Rightarrow> matrices" where
  "wf_dot_O el C D = wf_dot el C (overlap_op el D)"

definition wf_matmul :: "wavefunction \<Rightarrow> matrices \<Rightarrow> nat \<Rightarrow> wavefunction" where
  "wf_matmul C V n_cols =
     \<lparr>coeff = (\<lambda>s k j g. \<Sum>i<wf_n_bands C. coeff C s k i g * V s k i j),
      wf_n_bands = n_cols\<rparr>"

definition wf_add :: "wavefunction \<Rightarrow> wavefunction \<Rightarrow> wavefunction" where
  "wf_add C D =
     \<lparr>coeff = (\<lambda>s k b g. coeff C s k b g + coeff D s k b g), wf_n_bands = wf_n_bands C\<rparr>"

definition wf_slice_from :: "wavefunction \<Rightarrow> nat \<Rightarrow> wavefunction" where
  "wf_slice_from C n =
     \<lparr>coeff = (\<lambda>s k b g. coeff C s k (n + b) g), wf_n_bands = wf_n_bands C - n\<rparr>"

text \<open>\<open>C *= f[..., None, None]\<close>: every band scaled by its own real factor.\<close>

definition wf_scale :: "wavefunction \<Rightarrow> tensor3 \<Rightarrow> wavefunction" where
  "wf_scale C f =
     \<lparr>coeff = (\<lambda>s k b g. coeff C s k b g * of_real (f s k b)), wf_n_bands = wf_n_bands C\<rparr>"

text \<open>
  Modelled from the spec: \<open>randomize_selected\<close> of the class Wavefunction is not among
  the source files; it "replaces [the selected bands] with freshly-seeded random
  vectors". The random coefficients for a seed are given by \<open>rand\<close>.
\<close>

definition randomize_selected ::
  "env \<Rightarrow> wavefunction \<Rightarrow> (nat \<Rightarrow> nat \<Rightarrow> nat \<Rightarrow> bool) \<Rightarrow> nat \<Rightarrow> wavefunction" where
  "randomize_selected el C selected seed =
     C\<lparr>coeff := (\<lambda>s k b g. if selected s k b then rand el seed s k b g
                           else coeff C s k b g)\<rparr>"

subsection \<open>\<open>_precondition\<close> (lines 52-62)\<close>

text \<open>
  \<open>x = ke / KEref; x += exp(-x)\<close>. A floating-point division by a zero reference
  energy does not raise: \<open>ke / 0\<close> is \<open>inf\<close> for a positive \<open>ke\<close>, and then
  \<open>inf + exp(-inf) = inf\<close>; it is \<open>nan\<close> for \<open>ke = 0\<close>, and for a negative \<open>ke\<close> it is
  \<open>-inf\<close>, with \<open>-inf + exp(inf) = nan\<close>.
\<close>

datatype divisor = Finite real | Infinite | NaN

definition precondition_divisor :: "real \<Rightarrow> real \<Rightarrow> divisor" where
  "precondition_divisor ke KEref =
     (if KEref \<noteq> 0 then (let x = ke / KEref in Finite (x + exp (- x)))
      else if 0 < ke then Infinite else NaN)"

text \<open>
  \<open>Cerr / x\<close> for one coefficient: a finite coefficient divided by \<open>inf\<close> is 0; the
  result is not a number where the divisor is \<open>nan\<close> or 0.
\<close>

definition divide_coeff :: "complex \<Rightarrow> divisor \<Rightarrow> complex option" where
  "divide_coeff c d =
     (case d of
        Finite x \<Rightarrow> if x = 0 then None else Some (c / of_real x)
      | Infinite \<Rightarrow> Some 0
      | NaN \<Rightarrow> None)"

definition precondition_coeff ::
  "env \<Rightarrow> wavefunction \<Rightarrow> tensor3 \<Rightarrow> nat \<Rightarrow> nat \<Rightarrow> nat \<Rightarrow> nat \<Rightarrow> complex option" where
  "precondition_coeff el Cerr KEref s k b g =
     divide_coeff (coeff Cerr s k b g) (precondition_divisor (get_ke el k g) (KEref s k b))"

text \<open>
  The block \<open>Cerr / x\<close>, when every coefficient of it is a number. (Indices outside the
  shape of the block address nothing; the function is 0 there.)
\<close>

definition precondition :: "env \<Rightarrow> wavefunction \<Rightarrow> tensor3 \<Rightarrow> wavefunction option" where
  "precondition el Cerr KEref =
     (if list_all (\<lambda>s. list_all (\<lambda>k. list_all (\<lambda>b. list_all (\<lambda>g.
            precondition_coeff el Cerr KEref s k b g \<noteq> None)
          [0..<n_coeff el]) [0..<wf_n_bands Cerr]) [0..<nk_mine el]) [0..<n_spins el]
      then Some \<lparr>coeff = (\<lambda>s k b g. case precondition_coeff el Cerr KEref s k b g of
                                       Some z \<Rightarrow> z | None \<Rightarrow> 0),
                 wf_n_bands = wf_n_bands Cerr\<rparr>
      else None)"

subsection \<open>\<open>_regularize\<close> (lines 64-78)\<close>

text \<open>
  With more than one process in \<open>comm_b\<close> the norm is overwritten by the broadcast
  of the root's norm. The function returns the block and the norm as they are after
  the call, both being modified in place by the source.
\<close>

definition low_norm :: "env \<Rightarrow> tensor3 \<Rightarrow> nat \<Rightarrow> nat \<Rightarrow> nat \<Rightarrow> bool" where
  "low_norm el nrm s k b = (nrm s k b < norm_cut el)"

definition any_low_norm :: "env \<Rightarrow> tensor3 \<Rightarrow> nat \<Rightarrow> bool" where
  "any_low_norm el nrm nb =
     list_ex (\<lambda>s. list_ex (\<lambda>k. list_ex (\<lambda>b. low_norm el nrm s k b) [0..<nb])
        [0..<nk_mine el]) [0..<n_spins el]"

definition regularize ::
  "env \<Rightarrow> wavefunction \<Rightarrow> tensor3 \<Rightarrow> nat \<Rightarrow> wavefunction \<times> tensor3" where
  "regularize el C nrm i_iter =
     (let norm1 = (if n_procs_b el > 1 then bcast_norm el i_iter else nrm)
      in if \<not> any_low_norm el norm1 (wf_n_bands C) then (C, norm1)
         else (randomize_selected el C (low_norm el norm1) i_iter,
               (\<lambda>s k b. if low_norm el norm1 s k b then 1 else norm1 s k b)))"

subsection \<open>\<open>_report\<close> (lines 35-50) and \<open>_get_Eband\<close> (lines 80-85)\<close>

text \<open>
  The lines written to the log. The progress line shows \<open>deig_max\<close> and
  \<open>n_eigs_done\<close> only when they are true in Python's sense (neither absent nor zero);
  the elapsed time is left out. The flag is \<open>inner_loop\<close>, which selects the prefix.
\<close>

datatype log_line =
    Progress bool nat real "real option" "nat option"
  | Converged bool
  | Failed_to_converge bool

definition report ::
  "nat \<Rightarrow> real \<Rightarrow> real option \<Rightarrow> nat option \<Rightarrow> bool \<Rightarrow> bool \<Rightarrow> bool \<Rightarrow> log_line list" where
  "report iteration Eband deig_max n_done inner_loop converged converge_failed =
     [Progress inner_loop iteration Eband
        (case deig_max of None \<Rightarrow> None | Some x \<Rightarrow> if x \<noteq> 0 then Some x else None)
        (case n_done of None \<Rightarrow> None | Some n \<Rightarrow> if n \<noteq> 0 then Some n else None)]
     @ (if converged then [Converged inner_loop] else [])
     @ (if converge_failed then [Failed_to_converge inner_loop] else [])"

text \<open>The flag of a line, which selects its prefix.\<close>

fun log_inner_loop :: "log_line \<Rightarrow> bool" where
  "log_inner_loop (Progress inner_loop iteration Eband deig_max n_done) = inner_loop"
| "log_inner_loop (Converged inner_loop) = inner_loop"
| "log_inner_loop (Failed_to_converge inner_loop) = inner_loop"

definition get_Eband :: "env \<Rightarrow> nat \<Rightarrow> tensor3 \<Rightarrow> nat \<Rightarrow> real" where
  "get_Eband el i_iter E nb_E =
     (\<Sum>s<n_spins el. \<Sum>k<nk_mine el. \<Sum>b<min (n_bands el) nb_E.
        w_spin el * wk el k * E s k b)
     + sum_list (peers_Eband el i_iter)"

subsection \<open>One iteration of \<open>__call__\<close> (lines 126-189)\<close>

record state =
  st_C :: wavefunction
  st_HC :: wavefunction
  st_E :: tensor3
  st_n_eigs_done :: nat
  st_applied :: "wavefunction list"
  st_log :: "log_line list"

text \<open>\<open>torch.eye(n)[None, None]\<close>, \<open>torch.diag_embed(E)\<close>, \<open>M.conj().transpose(-2, -1)\<close>\<close>

definition eye :: matrices where
  "eye = (\<lambda>s k i j. if i = j then 1 else 0)"

definition diag_embed :: "tensor3 \<Rightarrow> matrices" where
  "diag_embed E = (\<lambda>s k i j. if i = j then of_real (E s k i) else 0)"

definition dagger :: "matrices \<Rightarrow> matrices" where
  "dagger M = (\<lambda>s k i j. cnj (M s k j i))"

text \<open>
  The four slice assignments into a matrix of zeros: rows and columns below \<open>n\<close>
  belong to the current bands, the others to the expansion.
\<close>

definition assemble ::
  "nat \<Rightarrow> matrices \<Rightarrow> matrices \<Rightarrow> matrices \<Rightarrow> matrices \<Rightarrow> matrices" where
  "assemble n cur_cur cur_exp exp_cur exp_exp =
     (\<lambda>s k i j. if i < n then (if j < n then cur_cur s k i j else cur_exp s k i (j - n))
                else (if j < n then exp_cur s k (i - n) j else exp_exp s k (i - n) (j - n)))"

text \<open>Lines 130-138: the normalised, preconditioned residual of the unconverged bands.\<close>

definition residual :: "env \<Rightarrow> state \<Rightarrow> wavefunction" where
  "residual el st =
     (let nd = st_n_eigs_done st;
          C_sel = (if nd \<noteq> 0 then wf_slice_from (st_C st) nd else st_C st);
          HC_sel = (if nd \<noteq> 0 then wf_slice_from (st_HC st) nd else st_HC st);
          OC_sel = overlap_op el C_sel
      in \<lparr>coeff = (\<lambda>s k b g. coeff HC_sel s k b g
                       - coeff OC_sel s k b g * of_real (st_E st s k (nd + b))),
          wf_n_bands = wf_n_bands HC_sel\<rparr>)"

text \<open>
  Line 138, \<open>Cexp *= (1./norm_exp[..., None, None])\<close>: \<open>1./0.\<close> is \<open>inf\<close>, so a band
  with a zero norm comes to hold \<open>inf\<close> or \<open>nan\<close>.
\<close>

definition normalize_bands :: "env \<Rightarrow> wavefunction \<Rightarrow> tensor3 \<Rightarrow> wavefunction option" where
  "normalize_bands el C nrm =
     (if list_all (\<lambda>s. list_all (\<lambda>k. list_all (\<lambda>b. nrm s k b \<noteq> 0)
          [0..<wf_n_bands C]) [0..<nk_mine el]) [0..<n_spins el]
      then Some (wf_scale C (\<lambda>s k b. 1 / nrm s k b))
      else None)"

definition expansion :: "env \<Rightarrow> nat \<Rightarrow> state \<Rightarrow> wavefunction option" where
  "expansion el i_iter st =
     (let nd = st_n_eigs_done st;
          C_sel = (if nd \<noteq> 0 then wf_slice_from (st_C st) nd else st_C st);
          KEref = norm_ke el C_sel
      in case precondition el (residual el st) KEref of
           None \<Rightarrow> None
         | Some Cexp \<Rightarrow>
             (let norm_exp = norm_band el Cexp;
                  (Cexp1, norm1) = regularize el Cexp norm_exp i_iter
              in normalize_bands el Cexp1 norm1))"

text \<open>Lines 142-151.\<close>

definition C_OC_new :: "env \<Rightarrow> wavefunction \<Rightarrow> wavefunction \<Rightarrow> matrices" where
  "C_OC_new el C Cexp =
     (let n_bands_cur = wf_n_bands C;
          C_OC = eye;
          C_OCexp = wf_dot_O el C Cexp;
          Cexp_OC = dagger C_OCexp;
          Cexp_OCexp = wf_dot_O el Cexp Cexp
      in assemble n_bands_cur (\<lambda>s k i j. 0 + C_OC s k i j) C_OCexp Cexp_OC Cexp_OCexp)"

text \<open>Lines 155-163.\<close>

definition C_HC_new ::
  "env \<Rightarrow> wavefunction \<Rightarrow> tensor3 \<Rightarrow> wavefunction \<Rightarrow> wavefunction \<Rightarrow> matrices" where
  "C_HC_new el C E Cexp HCexp =
     (let n_bands_cur = wf_n_bands C;
          C_HC = diag_embed E;
          C_HCexp = wf_dot el C HCexp;
          Cexp_HC = dagger C_HCexp;
          Cexp_HCexp = wf_dot el Cexp HCexp
      in assemble n_bands_cur C_HC C_HCexp Cexp_HC Cexp_HCexp)"

text \<open>
  Line 166, for every spin and k-point: the generalised eigenproblem of the expanded
  subspace, of dimension \<open>n_bands_new\<close>.
\<close>

definition solve_subspace ::
  "env \<Rightarrow> wavefunction \<Rightarrow> tensor3 \<Rightarrow> wavefunction \<Rightarrow> wavefunction
     \<Rightarrow> nat \<Rightarrow> nat \<Rightarrow> (nat \<Rightarrow> real) \<times> cmat" where
  "solve_subspace el C E Cexp HCexp =
     (let n_bands_new = wf_n_bands C + wf_n_bands Cexp
      in (\<lambda>s k. eighg el n_bands_new (C_HC_new el C E Cexp HCexp s k) (C_OC_new el C Cexp s k)))"

text \<open>
  Lines 168-177: \<open>X = X @ Vcur; X += Xexp @ Vexp\<close> with
  \<open>Vcur = V_new[:, :, :n_bands_cur, :n_bands_next]\<close> and
  \<open>Vexp = V_new[:, :, n_bands_cur:, :n_bands_next]\<close>, used for \<open>C\<close> and for \<open>HC\<close>.
\<close>

definition rotate ::
  "nat \<Rightarrow> nat \<Rightarrow> matrices \<Rightarrow> wavefunction \<Rightarrow> wavefunction \<Rightarrow> wavefunction" where
  "rotate n_bands_cur n_bands_next V_new X Xexp =
     (let Vcur = V_new;
          Vexp = (\<lambda>s k i j. V_new s k (n_bands_cur + i) j)
      in wf_add (wf_matmul X Vcur n_bands_next) (wf_matmul Xexp Vexp n_bands_next))"

text \<open>Line 178: \<open>dE = torch.abs(E - E_new[..., :n_bands_cur])\<close> with its shape.\<close>

definition eig_change :: "env \<Rightarrow> nat \<Rightarrow> tensor3 \<Rightarrow> tensor3 \<Rightarrow> deigs" where
  "eig_change el n_bands_cur E E_new =
     \<lparr>dE_val = (\<lambda>s k b. \<bar>E s k b - E_new s k b\<bar>), dE_n_spins = n_spins el,
      dE_nk = nk_mine el, dE_n_bands = n_bands_cur\<rparr>"

text \<open>
  Lines 139-189, with the expansion block \<open>Cexp\<close> of lines 130-138. The result is the
  state at the end of the iteration and whether the iteration converged. The field
  \<open>st_applied\<close> records the blocks the operator \<open>electrons.hamiltonian\<close> has been
  applied to so far, in order; an exception carries the number of operator
  applications made before it.
\<close>

definition iteration_from ::
  "env \<Rightarrow> bool \<Rightarrow> bool \<Rightarrow> int \<Rightarrow> real \<Rightarrow> nat \<Rightarrow> state \<Rightarrow> wavefunction
     \<Rightarrow> error \<times> nat + state \<times> bool" where
  "iteration_from el inner_loop helper n_iterations eig_threshold i_iter st Cexp =
     (let C = st_C st; HC = st_HC st; E = st_E st;
          n_bands_max = n_bands el + n_bands_extra el;
          n_bands_cur = wf_n_bands C;
          n_bands_new = n_bands_cur + wf_n_bands Cexp;
          HCexp = hamiltonian el Cexp;
          applied = st_applied st @ [Cexp];
          E_new = (\<lambda>s k. fst (solve_subspace el C E Cexp HCexp s k));
          V_new = (\<lambda>s k. snd (solve_subspace el C E Cexp HCexp s k));
          n_bands_next = min n_bands_new n_bands_max;
          C1 = rotate n_bands_cur n_bands_next V_new C Cexp;
          HC1 = rotate n_bands_cur n_bands_next V_new HC HCexp;
          dE = eig_change el n_bands_cur E E_new;
          E1 = E_new;
          Eband = get_Eband el i_iter E1 n_bands_next
      in case check_deigs (n_bands el) dE (peers_dE el i_iter) eig_threshold of
           Inl e \<Rightarrow> Inl (e, length applied)
         | Inr (deig_max, n_done) \<Rightarrow>
             (let converged = (n_done = n_bands el);
                  converge_failed = (int i_iter = n_iterations
                                     \<and> \<not> (inner_loop \<or> helper \<or> converged))
              in Inr (\<lparr>st_C = C1, st_HC = HC1, st_E = E1, st_n_eigs_done = n_done,
                        st_applied = applied,
                        st_log = st_log st
                          @ report i_iter Eband (Some deig_max) (Some n_done) inner_loop
                              converged converge_failed\<rparr>,
                      converged)))"

text \<open>Lines 126-189.\<close>

definition iteration ::
  "env \<Rightarrow> bool \<Rightarrow> bool \<Rightarrow> int \<Rightarrow> real \<Rightarrow> nat \<Rightarrow> state \<Rightarrow> error \<times> nat + state \<times> bool" where
  "iteration el inner_loop helper n_iterations eig_threshold i_iter st =
     (case expansion el i_iter st of
        None \<Rightarrow> Inl (NotANumber, length (st_applied st))
      | Some Cexp \<Rightarrow>
          iteration_from el inner_loop helper n_iterations eig_threshold i_iter st Cexp)"

subsection \<open>The loop and \<open>__call__\<close> (lines 100-199)\<close>

text \<open>
  \<open>for i_iter in range(1, n_iterations + 1)\<close> with its \<open>break\<close>: \<open>remaining\<close>
  counts the iterations left, \<open>i_iter\<close> is the loop variable.
\<close>

fun davidson_loop ::
  "env \<Rightarrow> bool \<Rightarrow> bool \<Rightarrow> int \<Rightarrow> real \<Rightarrow> nat \<Rightarrow> nat \<Rightarrow> state \<Rightarrow> error \<times> nat + state" where
  "davidson_loop el inner_loop helper n_iterations eig_threshold 0 i_iter st = Inr st"
| "davidson_loop el inner_loop helper n_iterations eig_threshold (Suc remaining) i_iter st =
     (case iteration el inner_loop helper n_iterations eig_threshold i_iter st of
        Inl e \<Rightarrow> Inl e
      | Inr (st1, converged) \<Rightarrow>
          if converged then Inr st1
          else davidson_loop el inner_loop helper n_iterations eig_threshold remaining
                 (Suc i_iter) st1)"

text \<open>The states at the end of each completed iteration of the same loop, in order.\<close>

fun davidson_trace ::
  "env \<Rightarrow> bool \<Rightarrow> bool \<Rightarrow> int \<Rightarrow> real \<Rightarrow> nat \<Rightarrow> nat \<Rightarrow> state \<Rightarrow> state list" where
  "davidson_trace el inner_loop helper n_iterations eig_threshold 0 i_iter st = []"
| "davidson_trace el inner_loop helper n_iterations eig_threshold (Suc remaining) i_iter st =
     (case iteration el inner_loop helper n_iterations eig_threshold i_iter st of
        Inl e \<Rightarrow> []
      | Inr (st1, converged) \<Rightarrow>
          if converged then [st1]
          else st1 # davidson_trace el inner_loop helper n_iterations eig_threshold remaining
                 (Suc i_iter) st1)"

text \<open>Lines 117-123: the initial subspace diagonalisation.\<close>

definition initial_state :: "env \<Rightarrow> bool \<Rightarrow> wavefunction \<Rightarrow> state" where
  "initial_state el inner_loop C =
     (let HC = hamiltonian el C;
          n = wf_n_bands C;
          M = wf_dot el C HC;
          E = (\<lambda>s k. fst (eigh el n (M s k)));
          V = (\<lambda>s k. snd (eigh el n (M s k)));
          C1 = wf_matmul C V n;
          HC1 = wf_matmul HC V n;
          Eband = get_Eband el 0 E n
      in \<lparr>st_C = C1, st_HC = HC1, st_E = E, st_n_eigs_done = 0, st_applied = [C],
          st_log = report 0 Eband None None inner_loop False False\<rparr>)"

text \<open>
  \<open>__call__\<close>, applied to the block held in \<open>electrons.C\<close>. The final state holds
  what a helper returns (\<open>E, C, HC\<close>) and what is stored otherwise (\<open>C\<close> and \<open>E\<close>).
\<close>

definition davidson_call ::
  "davidson \<Rightarrow> env \<Rightarrow> int option \<Rightarrow> real option \<Rightarrow> bool \<Rightarrow> wavefunction
     \<Rightarrow> error \<times> nat + state" where
  "davidson_call self el n_iterations_arg eig_threshold_arg helper C =
     (let n_bands_max = n_bands el + n_bands_extra el;
          inner_loop = get_inner_loop n_iterations_arg eig_threshold_arg helper;
          n_iterations = get_n_iterations (self_n_iterations self) n_iterations_arg;
          eig_threshold = get_eig_threshold (self_eig_threshold self) eig_threshold_arg
      in case basis_check n_bands_max (n_min el) of
           Some e \<Rightarrow> Inl (e, 0)
         | None \<Rightarrow>
             davidson_loop el inner_loop helper n_iterations eig_threshold
               (nat n_iterations) 1 (initial_state el inner_loop C))"

text \<open>The states after the completed iterations of a call that passes the check.\<close>

definition call_trace ::
  "davidson \<Rightarrow> env \<Rightarrow> int option \<Rightarrow> real option \<Rightarrow> bool \<Rightarrow> wavefunction \<Rightarrow> state list" where
  "call_trace self el n_iterations_arg eig_threshold_arg helper C =
     (let inner_loop = get_inner_loop n_iterations_arg eig_threshold_arg helper;
          n_iterations = get_n_iterations (self_n_iterations self) n_iterations_arg;
          eig_threshold = get_eig_threshold (self_eig_threshold self) eig_threshold_arg
      in davidson_trace el inner_loop helper n_iterations eig_threshold
           (nat n_iterations) 1 (initial_state el inner_loop C))"

subsection \<open>Contracts of the external primitives and properties of the state\<close>

text \<open>
  An operator on wavefunction blocks is linear when it keeps the number of bands and
  maps a linear combination of bands (as formed by \<open>@\<close> and \<open>+=\<close>) to the same
  combination of the images.
\<close>

definition linear_operator :: "(wavefunction \<Rightarrow> wavefunction) \<Rightarrow> bool" where
  "linear_operator H \<longleftrightarrow>
     (\<forall>C. wf_n_bands (H C) = wf_n_bands C)
     \<and> (\<forall>C V n s k j g. coeff (H (wf_matmul C V n)) s k j g
            = (\<Sum>i<wf_n_bands C. coeff (H C) s k i g * V s k i j))
     \<and> (\<forall>C V D W n s k j g.
            coeff (H (wf_add (wf_matmul C V n) (wf_matmul D W n))) s k j g
            = (\<Sum>i<wf_n_bands C. coeff (H C) s k i g * V s k i j)
              + (\<Sum>i<wf_n_bands D. coeff (H D) s k i g * W s k i j))"

text \<open>The overlap operator is Hermitian with respect to the inner product of the basis.\<close>

definition hermitian_overlap :: "env \<Rightarrow> bool" where
  "hermitian_overlap el \<longleftrightarrow>
     (\<forall>C D s k i j. wf_dot_O el C D s k i j = cnj (wf_dot_O el D C s k j i))"

text \<open>The overlap matrix of a block is the identity, for every spin and k-point.\<close>

definition orthonormal :: "env \<Rightarrow> wavefunction \<Rightarrow> bool" where
  "orthonormal el C \<longleftrightarrow>
     (\<forall>s<n_spins el. \<forall>k<nk_mine el. \<forall>i<wf_n_bands C. \<forall>j<wf_n_bands C.
        wf_dot_O el C C s k i j = (if i = j then 1 else 0))"

text \<open>
  Modelled from the spec: \<open>torch.linalg.eigh\<close> and \<open>qp.utils.eighg\<close> are not among the
  source files. For a Hermitian matrix \<open>M\<close> of dimension \<open>n\<close>, \<open>eigh\<close> returns ascending
  eigenvalues and a unitary matrix of eigenvectors, so that \<open>V\<^sup>\<dagger> M V = diag(E)\<close>. The
  generalised solver "solve(Hamiltonian, Overlap) -> (eigenvalues ascending,
  eigenvectors)" returns eigenvectors orthonormal under the overlap matrix,
  \<open>V\<^sup>\<dagger> S V = 1\<close> and \<open>V\<^sup>\<dagger> H V = diag(E)\<close>.
\<close>

definition eigh_contract :: "nat \<Rightarrow> cmat \<Rightarrow> (nat \<Rightarrow> real) \<times> cmat \<Rightarrow> bool" where
  "eigh_contract n M EV \<longleftrightarrow>
     (\<forall>i<n. \<forall>j<n. (\<Sum>a<n. cnj (snd EV a i) * snd EV a j) = (if i = j then 1 else 0))
     \<and> (\<forall>i<n. \<forall>j<n. (\<Sum>a<n. \<Sum>b<n. cnj (snd EV a i) * M a b * snd EV b j)
            = (if i = j then of_real (fst EV i) else 0))
     \<and> (\<forall>i<n. \<forall>j<n. i \<le> j \<longrightarrow> fst EV i \<le> fst EV j)"

definition eighg_contract :: "nat \<Rightarrow> cmat \<Rightarrow> cmat \<Rightarrow> (nat \<Rightarrow> real) \<times> cmat \<Rightarrow> bool" where
  "eighg_contract n H S EV \<longleftrightarrow>
     (\<forall>i<n. \<forall>j<n. (\<Sum>a<n. \<Sum>b<n. cnj (snd EV a i) * S a b * snd EV b j)
            = (if i = j then 1 else 0))
     \<and> (\<forall>i<n. \<forall>j<n. (\<Sum>a<n. \<Sum>b<n. cnj (snd EV a i) * H a b * snd EV b j)
            = (if i = j then of_real (fst EV i) else 0))
     \<and> (\<forall>i<n. \<forall>j<n. i \<le> j \<longrightarrow> fst EV i \<le> fst EV j)"

text \<open>
  The dense solver meets its contract in an iteration that starts in \<open>st\<close> with the
  expansion block \<open>Cexp\<close>, and in the iteration \<open>i_iter\<close> that starts in \<open>st\<close>.
\<close>

definition solver_ok_with :: "env \<Rightarrow> state \<Rightarrow> wavefunction \<Rightarrow> bool" where
  "solver_ok_with el st Cexp \<longleftrightarrow>
     (let C = st_C st; HCexp = hamiltonian el Cexp
      in \<forall>s<n_spins el. \<forall>k<nk_mine el.
           eighg_contract (wf_n_bands C + wf_n_bands Cexp)
             (C_HC_new el C (st_E st) Cexp HCexp s k) (C_OC_new el C Cexp s k)
             (solve_subspace el C (st_E st) Cexp HCexp s k))"

definition solver_ok :: "env \<Rightarrow> nat \<Rightarrow> state \<Rightarrow> bool" where
  "solver_ok el i_iter st \<longleftrightarrow>
     (case expansion el i_iter st of
        None \<Rightarrow> True
      | Some Cexp \<Rightarrow> solver_ok_with el st Cexp)"

text \<open>The dense solver meets its contract in the initial subspace diagonalisation.\<close>

definition initial_solver_ok :: "env \<Rightarrow> wavefunction \<Rightarrow> bool" where
  "initial_solver_ok el C \<longleftrightarrow>
     (\<forall>s<n_spins el. \<forall>k<nk_mine el.
        eigh_contract (wf_n_bands C) (wf_dot el C (hamiltonian el C) s k)
          (eigh el (wf_n_bands C) (wf_dot el C (hamiltonian el C) s k)))"

text \<open>\<open>HC\<close> is the image of \<open>C\<close> under the operator.\<close>

definition consistent :: "env \<Rightarrow> state \<Rightarrow> bool" where
  "consistent el st \<longleftrightarrow>
     wf_n_bands (st_HC st) = wf_n_bands (st_C st)
     \<and> (\<forall>s k b g. b < wf_n_bands (st_C st) \<longrightarrow>
           coeff (st_HC st) s k b g = coeff (hamiltonian el (st_C st)) s k b g)"

text \<open>
  The dense solver meets its contract in each of the iterations that produce the
  states \<open>tr\<close>, the first of them being iteration \<open>i_iter\<close> starting in \<open>st\<close>.
\<close>

fun solver_ok_along :: "env \<Rightarrow> nat \<Rightarrow> state \<Rightarrow> state list \<Rightarrow> bool" where
  "solver_ok_along el i_iter st [] = True"
| "solver_ok_along el i_iter st (st1 # tr) =
     (solver_ok el i_iter st \<and> solver_ok_along el (Suc i_iter) st1 tr)"

subsection \<open>Example configurations\<close>

text \<open>Eigenvalue changes on two partitions, three bands each.\<close>

definition dE_example_a :: deigs where
  "dE_example_a = \<lparr>dE_val = (\<lambda>s k b. if b = 0 then 1 / 4 else if b = 1 then 3 else 5),
     dE_n_spins = 1, dE_nk = 1, dE_n_bands = 3\<rparr>"

definition dE_example_b :: deigs where
  "dE_example_b = \<lparr>dE_val = (\<lambda>s k b. if b = 0 then 2 else 1 / 8),
     dE_n_spins = 1, dE_nk = 2, dE_n_bands = 3\<rparr>"

text \<open>
  A run on one partition: one spin channel, one k-point, two bands without buffer
  bands, five basis coefficients. The operator is diagonal with the eigenvalues
  \<open>0, 3, 1, 5, -1\<close>, the overlap operator is the identity. The initial block holds the
  first two unit vectors. The random source yields the third and fourth unit vectors
  for seed 1 and the fifth for seed 2. The dense solvers return, for the matrices of
  this run (which are diagonal), the sorted diagonal and the permutation that sorts it.
\<close>

definition h_example :: "nat \<Rightarrow> real" where
  "h_example g = (if g = 0 then 0 else if g = 1 then 3 else if g = 2 then 1
                  else if g = 3 then 5 else - 1)"

definition eigh_example :: "nat \<Rightarrow> cmat \<Rightarrow> (nat \<Rightarrow> real) \<times> cmat" where
  "eigh_example n M = ((\<lambda>i. if i = 0 then 0 else 3), (\<lambda>i j. if i = j then 1 else 0))"

definition eighg_example :: "nat \<Rightarrow> cmat \<Rightarrow> cmat \<Rightarrow> (nat \<Rightarrow> real) \<times> cmat" where
  "eighg_example n H S =
     (if n = 2
      then ((\<lambda>i. if i = 0 then 0 else 1), (\<lambda>i j. if i = j then 1 else 0))
      else if n = 4
      then ((\<lambda>i. if i = 0 then 0 else if i = 1 then 1 else if i = 2 then 3 else 5),
            (\<lambda>i j. if (i = 0 \<and> j = 0) \<or> (i = 2 \<and> j = 1) \<or> (i = 1 \<and> j = 2)
                       \<or> (i = 3 \<and> j = 3) then 1 else 0))
      else ((\<lambda>i. if i = 0 then - 1 else if i = 1 then 0 else 1),
            (\<lambda>i j. if (i = 2 \<and> j = 0) \<or> (i = 0 \<and> j = 1) \<or> (i = 1 \<and> j = 2)
                     then 1 else 0)))"

definition el_example :: env where
  "el_example = \<lparr>n_spins = 1, nk_mine = 1, n_bands = 2, n_bands_extra = 0, n_min = 5,
     n_tot = 5, n_coeff = 5, n_procs_b = 1, w_spin = 2, wk = (\<lambda>k. 1),
     get_ke = (\<lambda>k g. real g + 1),
     hamiltonian = (\<lambda>C. C\<lparr>coeff := (\<lambda>s k b g. of_real (h_example g) * coeff C s k b g)\<rparr>),
     overlap_op = (\<lambda>C. C),
     norm_ke = (\<lambda>C s k b. \<Sum>g<5. (real g + 1) * (cmod (coeff C s k b g))\<^sup>2),
     norm_band = (\<lambda>C s k b. sqrt (\<Sum>g<5. (cmod (coeff C s k b g))\<^sup>2)),
     eigh = eigh_example, eighg = eighg_example,
     rand = (\<lambda>seed s k b g. if seed = 1 then (if g = b + 2 then 1 else 0)
                               else (if g = 4 then 1 else 0)),
     bcast_norm = (\<lambda>i s k b. 0), peers_Eband = (\<lambda>i. []), peers_dE = (\<lambda>i. [])\<rparr>"

definition C_example :: wavefunction where
  "C_example = \<lparr>coeff = (\<lambda>s k b g. if g = b then 1 else 0), wf_n_bands = 2\<rparr>"

definition davidson_example :: davidson where
  "davidson_example = \<lparr>self_n_iterations = 2, self_eig_threshold = 1 / 10 ^ 8\<rparr>"

text \<open>
  The divisor of the preconditioner in the words of the specification, for a positive
  reference energy and a local energy that is not negative: the sum of the reference
  and the local kinetic energy plus a correction term; the correction term decays (it
  tends to 0 as the local energy grows), and the divisor tends to 1 as the ratio of
  the local to the reference energy tends to 0.
\<close>

definition divisor_as_specified :: "(real \<Rightarrow> real \<Rightarrow> divisor) \<Rightarrow> bool" where
  "divisor_as_specified D \<longleftrightarrow>
     (\<exists>correction.
        (\<forall>ke KEref. 0 < KEref \<longrightarrow> 0 \<le> ke \<longrightarrow>
           D ke KEref = Finite ((KEref + ke) + correction ke KEref))
        \<and> (\<forall>KEref. 0 < KEref \<longrightarrow> ((\<lambda>ke. correction ke KEref) \<longlongrightarrow> 0) at_top)
        \<and> (\<forall>KEref. 0 < KEref \<longrightarrow>
             ((\<lambda>ke. (KEref + ke) + correction ke KEref) \<longlongrightarrow> 1) (at_right 0)))"

text \<open>The example environment with five bands against a minimum basis size of ten.\<close>

definition el_half :: env where
  "el_half = el_example\<lparr>n_bands := 3, n_bands_extra := 2, n_min := 10\<rparr>"

text \<open>The initial block of the example with its first band scaled by \<open>c\<close>.\<close>

definition C_scaled :: "complex \<Rightarrow> wavefunction" where
  "C_scaled c = \<lparr>coeff = (\<lambda>s k b g. if g = b then (if b = 0 then c else 1) else 0),
     wf_n_bands = 2\<rparr>"

section \<open>Properties\<close>

subsection \<open>The convergence check\<close>

lemma tensor_max_Inr:
  "xs \<noteq> [] \<Longrightarrow> tensor_max xs = Inr (Max (set xs))"
  using Max.set_eq_fold[of "hd xs" "tl xs"] by (cases xs) (simp_all add: tensor_max_def)

lemma tensor_max_Nil: "tensor_max [] = Inl RuntimeError"
  by (simp add: tensor_max_def)

lemma local_maxima_Inr:
  "\<forall>p\<in>set ps. dE_entries nb p \<noteq> [] \<Longrightarrow>
   local_maxima nb ps = Inr (map (\<lambda>p. Max (set (dE_entries nb p))) ps)"
  by (induction ps) (simp_all add: tensor_max_Inr)

lemma allreduce_max_eq: "allreduce_max x xs = Max (set (x # xs))"
  using Max.set_eq_fold[of x xs] by (simp add: allreduce_max_def)

lemma allreduce_min_eq: "allreduce_min x xs = Min (set (x # xs))"
  using Min.set_eq_fold[of x xs] by (simp add: allreduce_min_def)

lemma in_concat_map_upt: "i < n \<Longrightarrow> x \<in> set (f i) \<Longrightarrow> x \<in> set (concat (map f [0..<n]))"
  by auto

lemma set_dE_entries:
  "set (dE_entries nb p) =
     {dE_val p s k b | s k b. s < dE_n_spins p \<and> k < dE_nk p \<and> b < nb \<and> b < dE_n_bands p}"
  (is "?L = ?R")
proof (intro set_eqI iffI)
  fix x assume "x \<in> ?L"
  then obtain s k b where "s < dE_n_spins p" "k < dE_nk p" "b < min nb (dE_n_bands p)"
    "x = dE_val p s k b"
    unfolding dE_entries_def by auto
  then show "x \<in> ?R" by auto
next
  fix x assume "x \<in> ?R"
  then obtain s k b where *: "s < dE_n_spins p" "k < dE_nk p" "b < nb" "b < dE_n_bands p"
    "x = dE_val p s k b" by blast
  then have "b \<in> set [0..<min nb (dE_n_bands p)]" "k \<in> set [0..<dE_nk p]"
    "s \<in> set [0..<dE_n_spins p]" by simp_all
  then have "x \<in> set (map (\<lambda>b. dE_val p s k b) [0..<min nb (dE_n_bands p)])"
    using *(5) by simp
  then have "x \<in> set (concat (map (\<lambda>k. map (\<lambda>b. dE_val p s k b)
        [0..<min nb (dE_n_bands p)]) [0..<dE_nk p]))"
    using *(2) by (rule in_concat_map_upt[rotated])
  then show "x \<in> ?L" unfolding dE_entries_def
    using *(1) by (rule in_concat_map_upt[rotated])
qed

lemma Max_of_Max:
  fixes A :: "'a \<Rightarrow> real set"
  assumes "finite S" "S \<noteq> {}" "\<forall>p\<in>S. finite (A p) \<and> A p \<noteq> {}"
  shows "Max ((\<lambda>p. Max (A p)) ` S) = Max (\<Union>p\<in>S. A p)"
proof (rule antisym)
  have fin: "finite (\<Union>p\<in>S. A p)" and ne: "(\<Union>p\<in>S. A p) \<noteq> {}" using assms by auto
  show "Max ((\<lambda>p. Max (A p)) ` S) \<le> Max (\<Union>p\<in>S. A p)"
  proof (rule Max.boundedI)
    fix a assume "a \<in> (\<lambda>p. Max (A p)) ` S"
    then obtain p where p: "p \<in> S" "a = Max (A p)" by auto
    then have "a \<in> A p" using assms(3) Max_in by blast
    then show "a \<le> Max (\<Union>p\<in>S. A p)" using p fin by (intro Max_ge) auto
  qed (use assms in auto)
  show "Max (\<Union>p\<in>S. A p) \<le> Max ((\<lambda>p. Max (A p)) ` S)"
  proof (rule Max.boundedI[OF fin ne])
    fix a assume "a \<in> (\<Union>p\<in>S. A p)"
    then obtain p where p: "p \<in> S" "a \<in> A p" by auto
    then have "a \<le> Max (A p)" using assms(3) by simp
    also have "\<dots> \<le> Max ((\<lambda>p. Max (A p)) ` S)" using p assms(1) by (intro Max_ge) auto
    finally show "a \<le> Max ((\<lambda>p. Max (A p)) ` S)" .
  qed
qed

lemma band_pending_iff:
  "band_pending p thr b \<longleftrightarrow> (\<exists>s<dE_n_spins p. \<exists>k<dE_nk p. dE_val p s k b > thr)"
  by (simp add: band_pending_def list_ex_iff Bex_def)

lemma first_filter_upt:
  "(case filter P [0..<n] of [] \<Rightarrow> d | b # _ \<Rightarrow> b) =
     (if \<exists>b<n. P b then (LEAST b. b < n \<and> P b) else d)"
proof (cases "\<exists>b<n. P b")
  case True
  define l where "l = (LEAST b. b < n \<and> P b)"
  have l: "l < n" "P l" using True LeastI_ex[of "\<lambda>b. b < n \<and> P b"] unfolding l_def by blast+
  have lt: "\<not> P b" if "b < l" for b
    using that not_less_Least[of b "\<lambda>b. b < n \<and> P b"] l(1) unfolding l_def by simp
  have "[0..<n] = [0..<l] @ [l..<n]"
    using upt_add_eq_append[of 0 l "n - l"] l(1) by simp
  also have "[l..<n] = l # [Suc l..<n]" using l(1) by (rule upt_conv_Cons)
  finally have split: "[0..<n] = [0..<l] @ l # [Suc l..<n]" .
  have "filter P [0..<l] = []" using lt by (simp add: filter_empty_conv)
  then have "filter P [0..<n] = l # filter P [Suc l..<n]"
    unfolding split using l(2) by simp
  then show ?thesis using True unfolding l_def[symmetric] by simp
next
  case False
  then have "filter P [0..<n] = []" by (simp add: filter_empty_conv)
  then show ?thesis using False by (simp only: list.case if_False)
qed

lemma local_n_eigs_done_eq:
  "local_n_eigs_done nb p thr =
     (if \<exists>b<min nb (dE_n_bands p). band_pending p thr b
      then (LEAST b. b < min nb (dE_n_bands p) \<and> band_pending p thr b) else nb)"
  unfolding local_n_eigs_done_def eigs_pending_def by (rule first_filter_upt)


lemma Least_min_partitions:
  fixes Q :: "'p \<Rightarrow> nat \<Rightarrow> bool" and m :: "'p \<Rightarrow> nat"
  assumes "finite S" "S \<noteq> {}"
  shows "Min ((\<lambda>p. if \<exists>b<min nb (m p). Q p b
                     then (LEAST b. b < min nb (m p) \<and> Q p b) else nb) ` S) =
         (if \<exists>b<nb. \<exists>p\<in>S. b < m p \<and> Q p b
          then (LEAST b. b < nb \<and> (\<exists>p\<in>S. b < m p \<and> Q p b)) else nb)"
    (is "Min (?f ` S) = ?R")
proof -
  define f where "f = ?f"
  let ?G = "\<lambda>b. b < nb \<and> (\<exists>p\<in>S. b < m p \<and> Q p b)"
  have fin: "finite (f ` S)" by (rule finite_imageI[OF assms(1)])
  have ne: "f ` S \<noteq> {}" by (simp only: image_is_empty assms(2) not_False_eq_True)
  have f_le: "f p \<le> nb" for p
  proof (cases "\<exists>b<min nb (m p). Q p b")
    case True
    then have "(LEAST b. b < min nb (m p) \<and> Q p b) < min nb (m p)"
      using LeastI_ex[of "\<lambda>b. b < min nb (m p) \<and> Q p b"] by blast
    then show ?thesis using True unfolding f_def by simp
  next
    case False then show ?thesis unfolding f_def by (simp only: if_False order_refl)
  qed
  show ?thesis
  proof (cases "\<exists>b. ?G b")
    case True
    define l where "l = (LEAST b. ?G b)"
    have l: "?G l" using True LeastI_ex[of ?G] unfolding l_def by blast
    then obtain p where p: "p \<in> S" "l < m p" "Q p l" "l < nb" by blast
    have lmin: "\<not> ?G b" if "b < l" for b using that not_less_Least[of b ?G] unfolding l_def by blast
    have ex_p: "\<exists>b<min nb (m p). Q p b" using p by auto
    have "(LEAST b. b < min nb (m p) \<and> Q p b) \<le> l"
      using p by (intro Least_le) simp
    moreover have "l \<le> (LEAST b. b < min nb (m p) \<and> Q p b)"
    proof (rule ccontr)
      assume "\<not> ?thesis"
      then have lt: "(LEAST b. b < min nb (m p) \<and> Q p b) < l" by simp
      have "(LEAST b. b < min nb (m p) \<and> Q p b) < min nb (m p) \<and>
            Q p (LEAST b. b < min nb (m p) \<and> Q p b)"
        using LeastI_ex[of "\<lambda>b. b < min nb (m p) \<and> Q p b"] ex_p by blast
      then have "?G (LEAST b. b < min nb (m p) \<and> Q p b)" using p(1) by auto
      then show False using lmin[OF lt] by blast
    qed
    ultimately have fp: "f p = l" using ex_p unfolding f_def by simp
    have ge: "l \<le> f q" if "q \<in> S" for q
    proof (cases "\<exists>b<min nb (m q). Q q b")
      case T: True
      have *: "(LEAST b. b < min nb (m q) \<and> Q q b) < min nb (m q) \<and>
            Q q (LEAST b. b < min nb (m q) \<and> Q q b)"
        using LeastI_ex[of "\<lambda>b. b < min nb (m q) \<and> Q q b"] T by blast
      then have "?G (LEAST b. b < min nb (m q) \<and> Q q b)" using that by auto
      then have "l \<le> (LEAST b. b < min nb (m q) \<and> Q q b)"
        unfolding l_def by (rule Least_le)
      then show ?thesis using T unfolding f_def by simp
    next
      case F: False
      then have "f q = nb" unfolding f_def by (simp only: if_False)
      then show ?thesis using p(4) by simp
    qed
    have "Min (f ` S) = l"
    proof (rule Min_eqI[OF fin])
      show "l \<in> f ` S" using fp p(1) by blast
    next
      fix y assume "y \<in> f ` S"
      then obtain q where "q \<in> S" "y = f q" by blast
      then show "l \<le> y" using ge by simp
    qed
    moreover have "?R = l" using True by (simp only: if_True l_def)
    ultimately show ?thesis unfolding f_def by (simp only:)
  next
    case False
    have "f q = nb" if "q \<in> S" for q
    proof -
      have "\<not> (\<exists>b<min nb (m q). Q q b)" using False that by auto
      then show ?thesis unfolding f_def by (simp only: if_False)
    qed
    then have "f ` S = (\<lambda>q. nb) ` S" by (rule image_cong[OF refl])
    also have "\<dots> = {nb}" using assms(2) by (simp only: image_constant_conv if_False)
    finally have "Min (f ` S) = nb" by (simp only: Min_singleton)
    moreover have "?R = nb" using False by (simp only: if_False)
    ultimately show ?thesis unfolding f_def by (simp only:)
  qed
qed


text \<open>
  C4: on non-empty slices \<open>dE[..., :n_bands]\<close>, \<open>_check_deigs\<close> returns the maximum
  eigenvalue change over the first \<open>n_bands\<close> bands of all partitions, which is the
  maximum of the partitions' local maxima, and the smallest band index below
  \<open>n_bands\<close> at which some spin and k-point of some partition has a change strictly
  above the threshold (\<open>n_bands\<close> if there is none), which is the minimum of the
  counts computed by the partitions.
\<close>

theorem check_deigs_max_and_count:
  assumes nonempty:
    "\<forall>p\<in>set (d # others). 0 < dE_n_spins p \<and> 0 < dE_nk p \<and> 0 < nb \<and> 0 < dE_n_bands p"
  shows "\<exists>deig_max n_done.
     check_deigs nb d others thr = Inr (deig_max, n_done)
     \<and> deig_max = Max {dE_val p s k b | p s k b. p \<in> set (d # others)
                         \<and> s < dE_n_spins p \<and> k < dE_nk p \<and> b < nb \<and> b < dE_n_bands p}
     \<and> deig_max = Max ((\<lambda>p. Max (set (dE_entries nb p))) ` set (d # others))
     \<and> n_done = (if \<exists>b<nb. \<exists>p\<in>set (d # others). b < dE_n_bands p
                         \<and> (\<exists>s<dE_n_spins p. \<exists>k<dE_nk p. dE_val p s k b > thr)
                  then (LEAST b. b < nb \<and> (\<exists>p\<in>set (d # others). b < dE_n_bands p
                         \<and> (\<exists>s<dE_n_spins p. \<exists>k<dE_nk p. dE_val p s k b > thr)))
                  else nb)
     \<and> n_done = Min ((\<lambda>p. local_n_eigs_done nb p thr) ` set (d # others))"
proof -
  let ?ps = "d # others"
  have ne: "dE_entries nb p \<noteq> []" if "p \<in> set ?ps" for p
  proof -
    have "dE_val p 0 0 0 \<in> set (dE_entries nb p)"
      unfolding set_dE_entries using nonempty that by blast
    then show ?thesis by auto
  qed
  then have lm: "local_maxima nb ?ps = Inr (map (\<lambda>p. Max (set (dE_entries nb p))) ?ps)"
    by (intro local_maxima_Inr) blast
  define ms where "ms = map (\<lambda>p. Max (set (dE_entries nb p))) ?ps"
  have ms_ne: "ms \<noteq> []" unfolding ms_def by simp
  have cd: "check_deigs nb d others thr =
      Inr (allreduce_max (hd ms) (tl ms),
           allreduce_min (local_n_eigs_done nb d thr)
             (map (\<lambda>p. local_n_eigs_done nb p thr) others))"
    unfolding check_deigs_def lm ms_def[symmetric] by simp
  have "allreduce_max (hd ms) (tl ms) = Max (set ms)"
    using ms_ne by (cases ms) (simp_all add: allreduce_max_eq)
  also have "set ms = (\<lambda>p. Max (set (dE_entries nb p))) ` set ?ps"
    unfolding ms_def by (rule set_map)
  finally have m1: "allreduce_max (hd ms) (tl ms) =
      Max ((\<lambda>p. Max (set (dE_entries nb p))) ` set ?ps)" .
  have "Max ((\<lambda>p. Max (set (dE_entries nb p))) ` set ?ps)
        = Max (\<Union>p\<in>set ?ps. set (dE_entries nb p))"
    using ne by (intro Max_of_Max) auto
  also have "(\<Union>p\<in>set ?ps. set (dE_entries nb p)) =
      {dE_val p s k b | p s k b. p \<in> set ?ps
         \<and> s < dE_n_spins p \<and> k < dE_nk p \<and> b < nb \<and> b < dE_n_bands p}"
    unfolding set_dE_entries by blast
  finally have m2: "Max ((\<lambda>p. Max (set (dE_entries nb p))) ` set ?ps) =
      Max {dE_val p s k b | p s k b. p \<in> set ?ps
         \<and> s < dE_n_spins p \<and> k < dE_nk p \<and> b < nb \<and> b < dE_n_bands p}" .
  have "allreduce_min (local_n_eigs_done nb d thr)
          (map (\<lambda>p. local_n_eigs_done nb p thr) others)
        = Min (set (map (\<lambda>p. local_n_eigs_done nb p thr) ?ps))"
    by (simp add: allreduce_min_eq)
  also have "set (map (\<lambda>p. local_n_eigs_done nb p thr) ?ps) =
      (\<lambda>p. local_n_eigs_done nb p thr) ` set ?ps" by (rule set_map)
  finally have n1: "allreduce_min (local_n_eigs_done nb d thr)
          (map (\<lambda>p. local_n_eigs_done nb p thr) others)
        = Min ((\<lambda>p. local_n_eigs_done nb p thr) ` set ?ps)" .
  have eq: "(\<lambda>p. local_n_eigs_done nb p thr) =
      (\<lambda>p. if \<exists>b<min nb (dE_n_bands p). band_pending p thr b
            then (LEAST b. b < min nb (dE_n_bands p) \<and> band_pending p thr b) else nb)"
    by (rule ext) (rule local_n_eigs_done_eq)
  have "Min ((\<lambda>p. local_n_eigs_done nb p thr) ` set ?ps) =
      (if \<exists>b<nb. \<exists>p\<in>set ?ps. b < dE_n_bands p \<and> band_pending p thr b
       then (LEAST b. b < nb \<and> (\<exists>p\<in>set ?ps. b < dE_n_bands p \<and> band_pending p thr b))
       else nb)"
    unfolding eq by (rule Least_min_partitions) simp_all
  then have n2: "Min ((\<lambda>p. local_n_eigs_done nb p thr) ` set ?ps) =
      (if \<exists>b<nb. \<exists>p\<in>set ?ps. b < dE_n_bands p
              \<and> (\<exists>s<dE_n_spins p. \<exists>k<dE_nk p. dE_val p s k b > thr)
       then (LEAST b. b < nb \<and> (\<exists>p\<in>set ?ps. b < dE_n_bands p
              \<and> (\<exists>s<dE_n_spins p. \<exists>k<dE_nk p. dE_val p s k b > thr)))
       else nb)"
    unfolding band_pending_iff .
  show ?thesis
    unfolding cd using m1 m2 n1 n2 by (intro exI conjI) (rule refl, simp_all only:)
qed


lemma dE_example_nonempty: "\<forall>p\<in>set (dE_example_a # [dE_example_b]). 0 < dE_n_spins p \<and> 0 < dE_nk p \<and> 0 < (2::nat) \<and> 0 < dE_n_bands p"
  by (simp add: dE_example_a_def dE_example_b_def)

lemma check_deigs_example: "check_deigs 2 dE_example_a [dE_example_b] 1 = Inr (3, 0)"
  by (simp add: check_deigs_def tensor_max_def dE_entries_def dE_example_a_def dE_example_b_def
      allreduce_max_def allreduce_min_def local_n_eigs_done_def eigs_pending_def band_pending_def
      upt_rec[of 0] upt_rec[of 1] upt_rec[of 2] upt_rec[of "Suc 0"])

theorem check_deigs_max_and_count_witness:
  "0 < dE_n_spins dE_example_a \<and> 0 < dE_nk dE_example_a \<and> 0 < dE_n_bands dE_example_a
   \<and> 0 < dE_n_spins dE_example_b \<and> 0 < dE_nk dE_example_b \<and> 0 < dE_n_bands dE_example_b
   \<and> check_deigs 2 dE_example_a [dE_example_b] 1 = Inr (3, 0)
   \<and> Max {dE_val p s k b | p s k b. p \<in> set (dE_example_a # [dE_example_b])
             \<and> s < dE_n_spins p \<and> k < dE_nk p \<and> b < 2 \<and> b < dE_n_bands p} = 3"
  using check_deigs_max_and_count[of dE_example_a "[dE_example_b]" 2 1] check_deigs_example dE_example_nonempty
  by auto

subsection \<open>The preconditioner\<close>

lemma precondition_divisor_finite:
  "KEref \<noteq> 0 \<Longrightarrow>
     precondition_divisor ke KEref = Finite (ke / KEref + exp (- (ke / KEref)))"
  by (simp add: precondition_divisor_def Let_def)

lemma divisor_ge_1: "1 \<le> x + exp (- x)" for x :: real
  using exp_ge_add_one_self[of "- x"] by simp

lemma divisor_tendsto: "((\<lambda>x::real. x + exp (- x)) \<longlongrightarrow> 1) (at 0)"
proof -
  have "((\<lambda>x::real. x + exp (- x)) \<longlongrightarrow> 0 + exp (- 0)) (at 0)"
    by (intro tendsto_intros)
  then show ?thesis by simp
qed

lemma precondition_Some_iff:
  "(\<exists>P. precondition el Cerr KEref = Some P) \<longleftrightarrow>
     (\<forall>s<n_spins el. \<forall>k<nk_mine el. \<forall>b<wf_n_bands Cerr. \<forall>g<n_coeff el.
        precondition_coeff el Cerr KEref s k b g \<noteq> None)"
  by (simp add: precondition_def list_all_iff Ball_def)

lemma precondition_SomeD:
  assumes "precondition el Cerr KEref = Some P"
  shows "wf_n_bands P = wf_n_bands Cerr"
    and "\<And>s k b g. coeff P s k b g
           = (case precondition_coeff el Cerr KEref s k b g of Some z \<Rightarrow> z | None \<Rightarrow> 0)"
  using assms by (auto simp: precondition_def split: if_splits)

lemma precondition_coeff_finite:
  assumes "KEref s k b \<noteq> 0"
  shows "precondition_coeff el Cerr KEref s k b g =
     Some (coeff Cerr s k b g
       / of_real (get_ke el k g / KEref s k b + exp (- (get_ke el k g / KEref s k b))))"
proof -
  have "get_ke el k g / KEref s k b + exp (- (get_ke el k g / KEref s k b)) \<noteq> 0"
    using divisor_ge_1[of "get_ke el k g / KEref s k b"] by linarith
  then show ?thesis
    by (simp add: precondition_coeff_def precondition_divisor_finite[OF assms]
        divide_coeff_def)
qed

text \<open>
  C8 (amended): for reference kinetic energies that are not zero the preconditioner
  returns a block with the same number of bands, in which every coefficient is the
  coefficient of the residual divided by \<open>x + exp (- x)\<close>, where \<open>x\<close> is the ratio of the
  local kinetic energy of the coefficient to the reference kinetic energy of the band.
  This divisor is at least 1 and tends to 1 as the ratio tends to 0. At a reference
  energy of zero the divisor is infinite for a positive local energy and not a number
  otherwise.
\<close>

theorem precondition_scaling:
  "((\<forall>s<n_spins el. \<forall>k<nk_mine el. \<forall>b<wf_n_bands Cerr. KEref s k b \<noteq> 0)
      \<longrightarrow> (\<exists>P. precondition el Cerr KEref = Some P))
   \<and> (\<forall>P. precondition el Cerr KEref = Some P \<longrightarrow>
         wf_n_bands P = wf_n_bands Cerr
         \<and> (\<forall>s<n_spins el. \<forall>k<nk_mine el. \<forall>b<wf_n_bands Cerr. \<forall>g<n_coeff el.
               KEref s k b \<noteq> 0 \<longrightarrow>
               coeff P s k b g = coeff Cerr s k b g
                 / of_real (get_ke el k g / KEref s k b
                            + exp (- (get_ke el k g / KEref s k b)))))
   \<and> (ref \<noteq> 0 \<longrightarrow> precondition_divisor ke ref = Finite (ke / ref + exp (- (ke / ref))))
   \<and> precondition_divisor ke 0 = (if 0 < ke then Infinite else NaN)
   \<and> 1 \<le> ke / ref + exp (- (ke / ref))
   \<and> ((\<lambda>x::real. x + exp (- x)) \<longlongrightarrow> 1) (at 0)"
proof -
  have 1: "\<exists>P. precondition el Cerr KEref = Some P"
    if "\<forall>s<n_spins el. \<forall>k<nk_mine el. \<forall>b<wf_n_bands Cerr. KEref s k b \<noteq> 0"
    unfolding precondition_Some_iff using that by (simp add: precondition_coeff_finite)
  have 2: "wf_n_bands P = wf_n_bands Cerr
         \<and> (\<forall>s<n_spins el. \<forall>k<nk_mine el. \<forall>b<wf_n_bands Cerr. \<forall>g<n_coeff el.
               KEref s k b \<noteq> 0 \<longrightarrow>
               coeff P s k b g = coeff Cerr s k b g
                 / of_real (get_ke el k g / KEref s k b
                            + exp (- (get_ke el k g / KEref s k b))))"
    if "precondition el Cerr KEref = Some P" for P
    using precondition_SomeD[OF that] by (simp add: precondition_coeff_finite)
  have 3: "precondition_divisor ke 0 = (if 0 < ke then Infinite else NaN)"
    by (simp add: precondition_divisor_def)
  show ?thesis
    using 1 2 3 precondition_divisor_finite[of ref ke] divisor_ge_1[of "ke / ref"]
      divisor_tendsto by blast
qed

theorem precondition_scaling_witness:
  "\<exists>P. precondition el_example C_example (\<lambda>s k b. 2) = Some P
       \<and> wf_n_bands P = 2
       \<and> coeff P 0 0 1 1 = 1 / of_real (1 + exp (- 1))
       \<and> precondition_divisor 2 2 = Finite (1 + exp (- 1))"
proof -
  have nz: "\<forall>s<n_spins el_example. \<forall>k<nk_mine el_example. \<forall>b<wf_n_bands C_example.
      (\<lambda>s k b. 2::real) s k b \<noteq> 0" by simp
  note inst = precondition_scaling[of el_example C_example "\<lambda>s k b. 2" 2 2]
  from inst have A: "(\<forall>s<n_spins el_example. \<forall>k<nk_mine el_example. \<forall>b<wf_n_bands C_example.
      (\<lambda>s k b. 2::real) s k b \<noteq> 0)
      \<longrightarrow> (\<exists>P. precondition el_example C_example (\<lambda>s k b. 2) = Some P)"
    by (rule conjunct1)
  from A nz obtain P where P: "precondition el_example C_example (\<lambda>s k b. 2) = Some P"
    by (elim impE exE)
  from inst have B: "\<forall>P. precondition el_example C_example (\<lambda>s k b. 2) = Some P \<longrightarrow>
         wf_n_bands P = wf_n_bands C_example
         \<and> (\<forall>s<n_spins el_example. \<forall>k<nk_mine el_example. \<forall>b<wf_n_bands C_example.
              \<forall>g<n_coeff el_example. (\<lambda>s k b. 2::real) s k b \<noteq> 0 \<longrightarrow>
               coeff P s k b g = coeff C_example s k b g
                 / of_real (get_ke el_example k g / (\<lambda>s k b. 2) s k b
                            + exp (- (get_ke el_example k g / (\<lambda>s k b. 2) s k b))))"
    by (rule conjunct1[OF conjunct2])
  from inst have D: "(2::real) \<noteq> 0 \<longrightarrow> precondition_divisor 2 2 = Finite (2 / 2 + exp (- (2 / 2)))"
    by (rule conjunct1[OF conjunct2[OF conjunct2]])
  note BP = B[rule_format, OF P]
  have r: "(0::nat) < n_spins el_example" "(0::nat) < nk_mine el_example"
    "(1::nat) < wf_n_bands C_example" "(1::nat) < n_coeff el_example"
    by (simp_all add: el_example_def C_example_def)
  have two: "(\<lambda>s k b. 2::real) 0 0 1 \<noteq> 0" by simp
  note c = conjunct2[OF BP, rule_format, OF r(1) r(2) r(3) r(4) two]
  show ?thesis
    using P conjunct1[OF BP] c D
    by (intro exI[of _ P]) (simp add: el_example_def C_example_def)
qed

text \<open>
  The divisor in the words of the specification can be had: the sum of the two
  energies with the correction \<open>(1 - KEref) * exp (- ke / KEref)\<close> is one.
\<close>

lemma exp_neg_ratio_at_top:
  assumes "0 < (r::real)"
  shows "((\<lambda>x. exp (- (x / r))) \<longlongrightarrow> 0) at_top"
proof -
  have "filterlim (\<lambda>x. (1 / r) * x) at_top at_top"
    using assms by (intro filterlim_tendsto_pos_mult_at_top[OF tendsto_const _ filterlim_ident]) simp
  then have "filterlim (\<lambda>x. x / r) at_top at_top" by simp
  then have "filterlim (\<lambda>x. - (x / r)) at_bot at_top"
    by (simp add: filterlim_uminus_at_bot)
  then show ?thesis by (rule filterlim_compose[OF exp_at_bot])
qed

lemma divisor_as_specified_satisfiable:
  "divisor_as_specified (\<lambda>ke KEref. Finite ((KEref + ke) + (1 - KEref) * exp (- (ke / KEref))))"
  unfolding divisor_as_specified_def
proof (intro exI[of _ "\<lambda>ke KEref. (1 - KEref) * exp (- (ke / KEref))"] conjI allI impI)
  fix KEref :: real assume pos: "0 < KEref"
  show "((\<lambda>ke. (1 - KEref) * exp (- (ke / KEref))) \<longlongrightarrow> 0) at_top"
    using tendsto_mult_left[OF exp_neg_ratio_at_top[OF pos], of "1 - KEref"] by simp
  have "((\<lambda>ke. KEref + ke + (1 - KEref) * exp (- (ke / KEref)))
          \<longlongrightarrow> KEref + 0 + (1 - KEref) * exp (- (0 / KEref))) (at_right 0)"
    using pos by (intro tendsto_intros) simp_all
  then show "((\<lambda>ke. KEref + ke + (1 - KEref) * exp (- (ke / KEref))) \<longlongrightarrow> 1) (at_right 0)"
    by simp
qed simp

text \<open>
  C8 as stated fails: the divisor of the code is not the sum of the two kinetic
  energies plus a decaying correction. At the reference energy 1 it differs from the
  sum \<open>1 + ke\<close> by \<open>exp (- ke) - 1\<close>, which tends to \<open>- 1\<close> and not to 0 as \<open>ke\<close> grows.
\<close>

theorem precondition_sum_counterexample:
  "precondition_divisor 3 1 = Finite (3 + exp (- 3))
   \<and> \<not> divisor_as_specified precondition_divisor"
proof
  show "precondition_divisor 3 1 = Finite (3 + exp (- 3))"
    by (simp add: precondition_divisor_def)
  show "\<not> divisor_as_specified precondition_divisor"
  proof
    assume "divisor_as_specified precondition_divisor"
    then obtain corr where
      eq: "\<And>ke KEref. 0 < KEref \<Longrightarrow> 0 \<le> ke \<Longrightarrow>
             precondition_divisor ke KEref = Finite ((KEref + ke) + corr ke KEref)"
      and decay: "\<And>KEref. 0 < KEref \<Longrightarrow> ((\<lambda>ke. corr ke KEref) \<longlongrightarrow> 0) at_top"
      unfolding divisor_as_specified_def by blast
    have c: "corr ke 1 = exp (- ke) - 1" if "0 \<le> ke" for ke
      using eq[of 1 ke] that by (simp add: precondition_divisor_def)
    have "((\<lambda>ke::real. exp (- ke) - 1) \<longlongrightarrow> 0 - 1) at_top"
      using exp_neg_ratio_at_top[of 1] by (intro tendsto_intros) simp_all
    moreover have "eventually (\<lambda>ke. exp (- ke) - 1 = corr ke 1) at_top"
      using eventually_ge_at_top[of "0::real"] by eventually_elim (simp add: c)
    ultimately have "((\<lambda>ke. corr ke 1) \<longlongrightarrow> - 1) at_top"
      by (auto intro: Lim_transform_eventually)
    with decay[of 1] have "(0::real) = - 1"
      by (intro tendsto_unique[of at_top "\<lambda>ke. corr ke 1"]) simp_all
    then show False by simp
  qed
qed

subsection \<open>Results of one iteration\<close>

lemma tensor_max_Inr':
  "xs \<noteq> [] \<Longrightarrow> \<exists>m. tensor_max xs = Inr m"
  by (cases xs) (simp_all add: tensor_max_def)

lemma check_deigs_Inr:
  assumes "\<forall>p\<in>set (d # others). dE_entries nb p \<noteq> []"
  shows "\<exists>m. check_deigs nb d others thr =
           Inr (m, allreduce_min (local_n_eigs_done nb d thr)
                     (map (\<lambda>p. local_n_eigs_done nb p thr) others))"
  unfolding check_deigs_def local_maxima_Inr[OF assms] by simp

lemma dE_entries_nonempty:
  assumes "0 < dE_n_spins d" "0 < dE_nk d" "0 < nb" "0 < dE_n_bands d"
  shows "dE_entries nb d \<noteq> []"
proof -
  have "dE_val d 0 0 0 \<in> set (dE_entries nb d)"
    unfolding set_dE_entries using assms by blast
  then show ?thesis by auto
qed

lemma wf_n_bands_rotate [simp]: "wf_n_bands (rotate n n' V X Y) = n'"
  by (simp add: rotate_def wf_add_def wf_matmul_def)

lemma residual_n_bands:
  "wf_n_bands (residual el st) = wf_n_bands (st_HC st) - st_n_eigs_done st"
  by (simp add: residual_def Let_def wf_slice_from_def)

lemma regularize_n_bands: "wf_n_bands (fst (regularize el C nrm i)) = wf_n_bands C"
  by (simp add: regularize_def Let_def randomize_selected_def)

lemma normalize_bands_SomeD:
  "normalize_bands el C nrm = Some D \<Longrightarrow> D = wf_scale C (\<lambda>s k b. 1 / nrm s k b)"
  by (simp add: normalize_bands_def split: if_splits)

text \<open>The expansion block, when it holds numbers, has one band for each unconverged band.\<close>

lemma expansion_n_bands:
  assumes "expansion el i st = Some Cexp"
  shows "wf_n_bands Cexp = wf_n_bands (st_HC st) - st_n_eigs_done st"
proof -
  define KEref where "KEref = norm_ke el (if st_n_eigs_done st \<noteq> 0
      then wf_slice_from (st_C st) (st_n_eigs_done st) else st_C st)"
  obtain P where P: "precondition el (residual el st) KEref = Some P"
    and N: "normalize_bands el (fst (regularize el P (norm_band el P) i))
              (snd (regularize el P (norm_band el P) i)) = Some Cexp"
    using assms unfolding expansion_def Let_def KEref_def[symmetric]
    by (auto split: option.splits prod.splits)
  show ?thesis
    unfolding normalize_bands_SomeD[OF N]
    by (simp add: wf_scale_def regularize_n_bands precondition_SomeD(1)[OF P] residual_n_bands)
qed

lemma any_low_norm_iff:
  "any_low_norm el nrm nb \<longleftrightarrow>
     (\<exists>s<n_spins el. \<exists>k<nk_mine el. \<exists>b<nb. low_norm el nrm s k b)"
  by (simp add: any_low_norm_def list_ex_iff Bex_def)

lemma norm_cut_pos: "0 < n_tot el \<Longrightarrow> 0 < norm_cut el"
  by (simp add: norm_cut_def)

lemma regularize_norm_nonzero:
  assumes "0 < n_tot el" "s < n_spins el" "k < nk_mine el" "b < wf_n_bands C"
  shows "snd (regularize el C nrm i) s k b \<noteq> 0"
proof -
  define norm1 where "norm1 = (if n_procs_b el > 1 then bcast_norm el i else nrm)"
  have R: "regularize el C nrm i =
      (if \<not> any_low_norm el norm1 (wf_n_bands C) then (C, norm1)
       else (randomize_selected el C (low_norm el norm1) i,
             (\<lambda>s k b. if low_norm el norm1 s k b then 1 else norm1 s k b)))"
    by (simp only: regularize_def Let_def norm1_def)
  have pos: "\<not> low_norm el norm1 s k b \<Longrightarrow> norm1 s k b \<noteq> 0"
    using norm_cut_pos[OF assms(1)] unfolding low_norm_def by auto
  show ?thesis
  proof (cases "any_low_norm el norm1 (wf_n_bands C)")
    case False
    then have "\<not> low_norm el norm1 s k b"
      using assms(2-4) unfolding any_low_norm_iff by blast
    then show ?thesis unfolding R using False pos by simp
  next
    case True
    then show ?thesis unfolding R using pos by simp
  qed
qed

text \<open>
  With positive local kinetic energies and a basis that is not empty, the expansion
  block holds numbers.
\<close>

lemma precondition_defined:
  assumes "\<forall>k g. 0 < get_ke el k g"
  shows "\<exists>P. precondition el Cerr KEref = Some P"
  unfolding precondition_Some_iff
proof (intro allI impI)
  fix s k b g
  show "precondition_coeff el Cerr KEref s k b g \<noteq> None"
  proof (cases "KEref s k b = 0")
    case True
    then show ?thesis using assms
      by (simp add: precondition_coeff_def precondition_divisor_def divide_coeff_def)
  next
    case False
    then show ?thesis by (simp add: precondition_coeff_finite)
  qed
qed

lemma expansion_defined:
  assumes "\<forall>k g. 0 < get_ke el k g" and "0 < n_tot el"
  shows "\<exists>Cexp. expansion el i st = Some Cexp"
proof -
  define KEref where "KEref = norm_ke el (if st_n_eigs_done st \<noteq> 0
      then wf_slice_from (st_C st) (st_n_eigs_done st) else st_C st)"
  obtain P where P: "precondition el (residual el st) KEref = Some P"
    using precondition_defined[OF assms(1)] by blast
  define R where "R = regularize el P (norm_band el P) i"
  have "\<forall>s<n_spins el. \<forall>k<nk_mine el. \<forall>b<wf_n_bands (fst R). snd R s k b \<noteq> 0"
    unfolding R_def regularize_n_bands using regularize_norm_nonzero[OF assms(2)] by blast
  then have "normalize_bands el (fst R) (snd R)
      = Some (wf_scale (fst R) (\<lambda>s k b. 1 / snd R s k b))"
    by (simp add: normalize_bands_def list_all_iff)
  then show ?thesis
    unfolding expansion_def Let_def KEref_def[symmetric] P R_def
    by (simp add: case_prod_beta)
qed

text \<open>The result of an iteration whose convergence check does not raise.\<close>

lemma iteration_from_Inr:
  assumes "iteration_from el il h n thr i st Cexp = Inr (st1, c)"
  shows "st_C st1 = rotate (wf_n_bands (st_C st))
             (min (wf_n_bands (st_C st) + wf_n_bands Cexp) (n_bands el + n_bands_extra el))
             (\<lambda>s k. snd (solve_subspace el (st_C st) (st_E st) Cexp (hamiltonian el Cexp) s k))
             (st_C st) Cexp"
    and "st_HC st1 = rotate (wf_n_bands (st_C st))
             (min (wf_n_bands (st_C st) + wf_n_bands Cexp) (n_bands el + n_bands_extra el))
             (\<lambda>s k. snd (solve_subspace el (st_C st) (st_E st) Cexp (hamiltonian el Cexp) s k))
             (st_HC st) (hamiltonian el Cexp)"
    and "st_E st1 = (\<lambda>s k. fst (solve_subspace el (st_C st) (st_E st) Cexp
                                 (hamiltonian el Cexp) s k))"
    and "st_applied st1 = st_applied st @ [Cexp]"
    and "check_deigs (n_bands el)
           (eig_change el (wf_n_bands (st_C st)) (st_E st) (st_E st1))
           (peers_dE el i) thr = Inr (m, nd) \<Longrightarrow> st_n_eigs_done st1 = nd"
    and "c = (st_n_eigs_done st1 = n_bands el)"
    and "Failed_to_converge b \<in> set (st_log st1) \<longleftrightarrow>
           Failed_to_converge b \<in> set (st_log st)
           \<or> (b = il \<and> int i = n \<and> \<not> (il \<or> h \<or> c))"
    and "\<exists>m. check_deigs (n_bands el)
           (eig_change el (wf_n_bands (st_C st)) (st_E st) (st_E st1))
           (peers_dE el i) thr = Inr (m, st_n_eigs_done st1)"
  using assms
  by (auto simp: iteration_from_def Let_def report_def
      split: sum.splits prod.splits if_splits)

lemma iteration_InrE:
  assumes "iteration el il h n thr i st = Inr (st1, c)"
  obtains Cexp where "expansion el i st = Some Cexp"
    and "iteration_from el il h n thr i st Cexp = Inr (st1, c)"
  using assms unfolding iteration_def by (auto split: option.splits)

lemma iteration_Some:
  "expansion el i st = Some Cexp \<Longrightarrow>
     iteration el il h n thr i st = iteration_from el il h n thr i st Cexp"
  by (simp add: iteration_def)

lemma iteration_from_total:
  assumes "\<forall>p\<in>set (eig_change el (wf_n_bands (st_C st)) (st_E st) E1 # peers_dE el i).
             dE_entries (n_bands el) p \<noteq> []"
    and "E1 = (\<lambda>s k. fst (solve_subspace el (st_C st) (st_E st) Cexp
                                 (hamiltonian el Cexp) s k))"
  shows "\<exists>st1 c. iteration_from el il h n thr i st Cexp = Inr (st1, c)"
proof -
  from check_deigs_Inr[OF assms(1), of thr] obtain m nd where
    "check_deigs (n_bands el) (eig_change el (wf_n_bands (st_C st)) (st_E st) E1)
       (peers_dE el i) thr = Inr (m, nd)" by blast
  then show ?thesis unfolding assms(2)
    by (simp add: iteration_from_def Let_def)
qed

text \<open>
  An iteration returns when the expansion block holds numbers and no partition has
  an empty slice of eigenvalue changes.
\<close>

lemma iteration_total:
  assumes "\<forall>k g. 0 < get_ke el k g" and "0 < n_tot el"
    and "0 < n_spins el" "0 < nk_mine el" "0 < n_bands el" "0 < wf_n_bands (st_C st)"
    and "\<forall>p\<in>set (peers_dE el i). dE_entries (n_bands el) p \<noteq> []"
  shows "\<exists>st1 c. iteration el il h n thr i st = Inr (st1, c)"
proof -
  obtain Cexp where Cexp: "expansion el i st = Some Cexp"
    using expansion_defined[OF assms(1,2)] by blast
  define E1 where "E1 = (\<lambda>s k. fst (solve_subspace el (st_C st) (st_E st) Cexp
                                 (hamiltonian el Cexp) s k))"
  have "dE_entries (n_bands el) (eig_change el (wf_n_bands (st_C st)) (st_E st) E1) \<noteq> []"
    using assms(3-6) by (intro dE_entries_nonempty) (simp_all add: eig_change_def)
  then have "\<forall>p\<in>set (eig_change el (wf_n_bands (st_C st)) (st_E st) E1 # peers_dE el i).
             dE_entries (n_bands el) p \<noteq> []" using assms(7) by simp
  from iteration_from_total[OF this E1_def, of il h n thr]
  show ?thesis unfolding iteration_Some[OF Cexp] .
qed


subsection \<open>The basis-size check\<close>

lemma tensor_max_error: "tensor_max xs = Inl e \<Longrightarrow> e = RuntimeError"
  by (cases xs) (simp_all add: tensor_max_def)

lemma local_maxima_error: "local_maxima nb ps = Inl e \<Longrightarrow> e = RuntimeError"
  by (induction ps) (auto split: sum.splits dest: tensor_max_error)

lemma check_deigs_error: "check_deigs nb d others thr = Inl e \<Longrightarrow> e = RuntimeError"
  by (auto simp: check_deigs_def simp del: local_maxima.simps split: sum.splits dest: local_maxima_error)

lemma iteration_error:
  "iteration el il h n thr i st = Inl (e, c) \<Longrightarrow> e \<noteq> ValueError"
  by (auto simp: iteration_def iteration_from_def Let_def
      split: option.splits sum.splits prod.splits dest: check_deigs_error)

lemma davidson_loop_error:
  "davidson_loop el il h n thr r i st = Inl (e, c) \<Longrightarrow> e \<noteq> ValueError"
proof (induction r arbitrary: i st)
  case 0 then show ?case by simp
next
  case (Suc r)
  then show ?case
    by (auto split: sum.splits prod.splits if_splits dest: iteration_error)
qed

lemma call_ValueError_iff:
  "davidson_call self el a t h C = Inl (ValueError, c) \<longleftrightarrow>
     c = 0 \<and> 2 * (n_bands el + n_bands_extra el) \<ge> n_min el"
  by (auto simp: davidson_call_def Let_def basis_check_def dest: davidson_loop_error)


text \<open>
  C2: the check raises before any operator application, and it raises exactly when
  twice the number of bands reaches the minimum basis size. At five bands against a
  minimum basis size of ten, where the bands do not exceed half the basis size, the
  call raises.
\<close>

theorem basis_check_rejects_exact_half:
  "\<not> (n_bands el_half + n_bands_extra el_half > n_min el_half div 2)
   \<and> basis_check (n_bands el_half + n_bands_extra el_half) (n_min el_half) = Some ValueError
   \<and> davidson_call davidson_example el_half None None False C_example = Inl (ValueError, 0)"
  by (simp add: davidson_call_def basis_check_def el_half_def el_example_def Let_def)

subsection \<open>Overrides and the reporting mode\<close>

lemma initial_state_n_bands [simp]:
  "wf_n_bands (st_C (initial_state el il C)) = wf_n_bands C"
  "wf_n_bands (st_HC (initial_state el il C)) = wf_n_bands C"
  by (simp_all add: initial_state_def Let_def wf_matmul_def)

lemma initial_state_log:
  "st_log (initial_state el il C)
     = [Progress il 0 (get_Eband el 0 (st_E (initial_state el il C)) (wf_n_bands C)) None None]"
  by (simp add: initial_state_def Let_def report_def)

lemma iteration_Inr_log:
  assumes "iteration el il h n thr i st = Inr (st1, c)"
  shows "c = (st_n_eigs_done st1 = n_bands el)"
    and "Failed_to_converge b \<in> set (st_log st1) \<longleftrightarrow>
           Failed_to_converge b \<in> set (st_log st)
           \<or> (b = il \<and> int i = n \<and> \<not> (il \<or> h \<or> c))"
    and "(\<forall>l\<in>set (st_log st). log_inner_loop l = il)
           \<Longrightarrow> (\<forall>l\<in>set (st_log st1). log_inner_loop l = il)"
proof -
  from assms obtain Cexp where it: "iteration_from el il h n thr i st Cexp = Inr (st1, c)"
    by (rule iteration_InrE)
  show "c = (st_n_eigs_done st1 = n_bands el)" by (rule iteration_from_Inr(6)[OF it])
  show "Failed_to_converge b \<in> set (st_log st1) \<longleftrightarrow>
           Failed_to_converge b \<in> set (st_log st)
           \<or> (b = il \<and> int i = n \<and> \<not> (il \<or> h \<or> c))"
    by (rule iteration_from_Inr(7)[OF it])
  show "\<forall>l\<in>set (st_log st1). log_inner_loop l = il"
    if "\<forall>l\<in>set (st_log st). log_inner_loop l = il"
    using it that
    by (auto simp: iteration_from_def Let_def report_def split: sum.splits prod.splits)
qed

text \<open>
  The loop over the iterations \<open>i_iter, ..., n_iterations\<close>: the failure notice is in
  the log at the end exactly when the loop has run through all its iterations without
  converging, outside the inner-loop mode and without \<open>helper\<close>.
\<close>

lemma davidson_loop_notice:
  assumes "davidson_loop el il h n thr r i st = Inr st'"
    and "0 < r \<longrightarrow> int i + int r = n + 1"
    and "\<forall>b. Failed_to_converge b \<notin> set (st_log st)"
  shows "(\<exists>b. Failed_to_converge b \<in> set (st_log st')) \<longleftrightarrow>
           0 < r \<and> \<not> il \<and> \<not> h \<and> length (davidson_trace el il h n thr r i st) = r
           \<and> st_n_eigs_done st' \<noteq> n_bands el"
  using assms
proof (induction r arbitrary: i st)
  case 0 then show ?case by simp
next
  case (Suc r)
  from Suc.prems(1) obtain st1 c where it: "iteration el il h n thr i st = Inr (st1, c)"
    by (auto split: sum.splits)
  note c = iteration_Inr_log(1)[OF it]
  note log = iteration_Inr_log(2)[OF it]
  have idx: "int i + int r = n" using Suc.prems(2) by simp
  show ?case
  proof (cases c)
    case True
    then have "st' = st1" using Suc.prems(1) it by simp
    then show ?thesis using True c log Suc.prems(3) it by simp
  next
    case False
    show ?thesis
    proof (cases r)
      case 0
      then have "st' = st1" using Suc.prems(1) it False by simp
      moreover have "int i = n" using idx 0 by simp
      ultimately show ?thesis using False c log Suc.prems(3) it 0 by auto
    next
      case (Suc r')
      then have rpos: "0 < r" by simp
      then have "int i \<noteq> n" using idx by simp
      then have none1: "\<forall>b. Failed_to_converge b \<notin> set (st_log st1)"
        using log Suc.prems(3) by simp
      have loop1: "davidson_loop el il h n thr r (Suc i) st1 = Inr st'"
        using Suc.prems(1) it False by simp
      have idx1: "0 < r \<longrightarrow> int (Suc i) + int r = n + 1" using idx by simp
      from Suc.IH[OF loop1 idx1 none1] show ?thesis using it False rpos by simp
    qed
  qed
qed

lemma davidson_loop_log_flags:
  assumes "davidson_loop el il h n thr r i st = Inr st'"
    and "\<forall>l\<in>set (st_log st). log_inner_loop l = il"
  shows "\<forall>l\<in>set (st_log st'). log_inner_loop l = il"
  using assms
proof (induction r arbitrary: i st)
  case 0 then show ?case by simp
next
  case (Suc r)
  from Suc.prems(1) obtain st1 c where it: "iteration el il h n thr i st = Inr (st1, c)"
    by (auto split: sum.splits)
  note f1 = iteration_Inr_log(3)[OF it Suc.prems(2)]
  show ?case
  proof (cases c)
    case True then show ?thesis using Suc.prems(1) it f1 by simp
  next
    case False
    then have "davidson_loop el il h n thr r (Suc i) st1 = Inr st'"
      using Suc.prems(1) it by simp
    from Suc.IH[OF this f1] show ?thesis .
  qed
qed

text \<open>
  C10 (amended): an override \<open>n_iterations=0\<close> or \<open>eig_threshold=0.0\<close> gives the same
  call as no override, the stored default being used. The solver is in the inner-loop
  reporting mode exactly when an override is given that is not zero and \<open>helper\<close> is
  not set; every line of the log then carries the inner-loop prefix, and no line does
  otherwise. The failure-to-converge notice is in the log of a call exactly when the
  call is neither in the inner-loop mode nor a helper and has run through all of a
  positive number of iterations without converging. A number of iterations that is
  not positive (a stored default, or a negative override) gives a call without
  iterations.
\<close>

theorem call_overrides:
  "davidson_call self el (Some 0) t h C = davidson_call self el None t h C
   \<and> davidson_call self el a (Some 0) h C = davidson_call self el a None h C
   \<and> get_n_iterations (self_n_iterations self) (Some 0) = self_n_iterations self
   \<and> get_eig_threshold (self_eig_threshold self) (Some 0) = self_eig_threshold self
   \<and> (get_inner_loop a t h \<longleftrightarrow>
        ((\<exists>m. a = Some m \<and> m \<noteq> 0) \<or> (\<exists>x. t = Some x \<and> x \<noteq> 0)) \<and> \<not> h)
   \<and> (\<forall>st. davidson_call self el a t h C = Inr st \<longrightarrow>
        (\<forall>l\<in>set (st_log st). log_inner_loop l = get_inner_loop a t h)
        \<and> ((\<exists>b. Failed_to_converge b \<in> set (st_log st)) \<longleftrightarrow>
             \<not> get_inner_loop a t h \<and> \<not> h
             \<and> 0 < get_n_iterations (self_n_iterations self) a
             \<and> length (call_trace self el a t h C)
                 = nat (get_n_iterations (self_n_iterations self) a)
             \<and> st_n_eigs_done st \<noteq> n_bands el))
   \<and> (get_n_iterations (self_n_iterations self) a \<le> 0 \<longrightarrow> call_trace self el a t h C = [])"
proof -
  define N where "N = get_n_iterations (self_n_iterations self) a"
  define thr where "thr = get_eig_threshold (self_eig_threshold self) t"
  define il where "il = get_inner_loop a t h"
  define st0 where "st0 = initial_state el il C"
  have 1: "davidson_call self el (Some 0) t h C = davidson_call self el None t h C"
    by (simp add: davidson_call_def get_inner_loop_def get_n_iterations_def truthy_int_def)
  have 2: "davidson_call self el a (Some 0) h C = davidson_call self el a None h C"
    by (simp add: davidson_call_def get_inner_loop_def get_eig_threshold_def truthy_float_def)
  have 3: "get_n_iterations (self_n_iterations self) (Some 0) = self_n_iterations self"
    "get_eig_threshold (self_eig_threshold self) (Some 0) = self_eig_threshold self"
    by (simp_all add: get_n_iterations_def get_eig_threshold_def truthy_int_def
        truthy_float_def)
  have 4: "get_inner_loop a t h \<longleftrightarrow>
        ((\<exists>m. a = Some m \<and> m \<noteq> 0) \<or> (\<exists>x. t = Some x \<and> x \<noteq> 0)) \<and> \<not> h"
    by (cases a; cases t) (simp_all add: get_inner_loop_def truthy_int_def truthy_float_def)
  have 5: "(\<forall>l\<in>set (st_log st). log_inner_loop l = il)
        \<and> ((\<exists>b. Failed_to_converge b \<in> set (st_log st)) \<longleftrightarrow>
             \<not> il \<and> \<not> h \<and> 0 < N \<and> length (call_trace self el a t h C) = nat N
             \<and> st_n_eigs_done st \<noteq> n_bands el)"
    if call: "davidson_call self el a t h C = Inr st" for st
  proof -
    have loop: "davidson_loop el il h N thr (nat N) 1 st0 = Inr st"
      using call unfolding davidson_call_def Let_def N_def thr_def il_def st0_def
      by (simp split: option.splits)
    have tr: "call_trace self el a t h C = davidson_trace el il h N thr (nat N) 1 st0"
      unfolding call_trace_def Let_def N_def thr_def il_def st0_def by simp
    have none: "\<forall>b. Failed_to_converge b \<notin> set (st_log st0)"
      and flags: "\<forall>l\<in>set (st_log st0). log_inner_loop l = il"
      unfolding st0_def initial_state_log by simp_all
    have idx: "0 < nat N \<longrightarrow> int 1 + int (nat N) = N + 1" by simp
    have "(\<exists>b. Failed_to_converge b \<in> set (st_log st)) \<longleftrightarrow>
           0 < nat N \<and> \<not> il \<and> \<not> h \<and> length (davidson_trace el il h N thr (nat N) 1 st0) = nat N
           \<and> st_n_eigs_done st \<noteq> n_bands el"
      by (rule davidson_loop_notice[OF loop idx none])
    then show ?thesis
      unfolding tr using davidson_loop_log_flags[OF loop flags] by auto
  qed
  have 6: "call_trace self el a t h C = []" if "N \<le> 0"
    unfolding call_trace_def Let_def N_def[symmetric] using that by simp
  show ?thesis
    using 1 2 3 4 5 6 unfolding N_def il_def by blast
qed

text \<open>
  C10 as stated fails: a solve without iterations can be requested, by the override
  \<open>n_iterations=-1\<close> and, with a stored default of 0, by the override \<open>n_iterations=0\<close>;
  with a stored threshold of 0 the override \<open>eig_threshold=0.0\<close> gives the threshold 0.
\<close>

theorem call_overrides_counterexample:
  "call_trace davidson_example el_example (Some (- 1)) None False C_example = []
   \<and> davidson_call davidson_example el_example (Some (- 1)) None False C_example
       = Inr (initial_state el_example True C_example)
   \<and> call_trace (davidson_example\<lparr>self_n_iterations := 0\<rparr>) el_example (Some 0) None False
        C_example = []
   \<and> davidson_call (davidson_example\<lparr>self_n_iterations := 0\<rparr>) el_example (Some 0) None False
        C_example = Inr (initial_state el_example False C_example)
   \<and> get_eig_threshold 0 (Some 0) = 0"
  by (simp add: call_trace_def davidson_call_def Let_def basis_check_def el_example_def
      get_inner_loop_def get_n_iterations_def get_eig_threshold_def truthy_int_def
      truthy_float_def davidson_example_def)

lemma davidson_loop_total:
  assumes "\<forall>k g. 0 < get_ke el k g" and "0 < n_tot el"
    and "0 < n_spins el" "0 < nk_mine el" "0 < n_bands el"
    and "\<forall>i. \<forall>p\<in>set (peers_dE el i). dE_entries (n_bands el) p \<noteq> []"
    and "0 < wf_n_bands (st_C st)"
  shows "\<exists>st'. davidson_loop el il h n thr r i st = Inr st'"
  using assms(7)
proof (induction r arbitrary: i st)
  case 0 then show ?case by simp
next
  case (Suc r)
  from iteration_total[OF assms(1-5) Suc.prems, of i il h n thr] assms(6)
  obtain st1 c where it: "iteration el il h n thr i st = Inr (st1, c)" by blast
  from it obtain Cexp where "iteration_from el il h n thr i st Cexp = Inr (st1, c)"
    by (rule iteration_InrE)
  then have "0 < wf_n_bands (st_C st1)"
    using iteration_from_Inr(1) Suc.prems assms(5) by simp
  from Suc.IH[OF this, of "Suc i"] show ?case using it by auto
qed

lemma davidson_call_total:
  assumes "\<forall>k g. 0 < get_ke el k g" and "0 < n_tot el"
    and "0 < n_spins el" "0 < nk_mine el" "0 < n_bands el"
    and "\<forall>i. \<forall>p\<in>set (peers_dE el i). dE_entries (n_bands el) p \<noteq> []"
    and "0 < wf_n_bands C"
    and "2 * (n_bands el + n_bands_extra el) < n_min el"
  shows "\<exists>st. davidson_call self el a t h C = Inr st"
proof -
  have "0 < wf_n_bands (st_C (initial_state el (get_inner_loop a t h) C))"
    using assms(7) by simp
  from davidson_loop_total[OF assms(1-6) this]
  show ?thesis using assms(8) by (simp add: davidson_call_def basis_check_def Let_def)
qed

lemma example_call_returns:
  "\<exists>st. davidson_call self el_example a t h C_example = Inr st"
  by (rule davidson_call_total) (simp_all add: el_example_def C_example_def)

subsection \<open>Regularisation\<close>

text \<open>
  C7: \<open>_regularize\<close> replaces the bands whose norm (as broadcast, with more than one
  process in \<open>comm_b\<close>) is below \<open>sqrt (n_tot * 1E-15)\<close> by the random vectors of the
  seed \<open>i_iter\<close> and sets their norm to 1, leaves every other band and norm as it is,
  and leaves no zero norm behind when the basis is not empty. The function returns in
  every case.
\<close>

theorem regularize_replaces_low_norm:
  assumes reg: "regularize el C nrm i_iter = (C', nrm')"
    and norm1: "norm1 = (if n_procs_b el > 1 then bcast_norm el i_iter else nrm)"
    and range: "s < n_spins el" "k < nk_mine el" "b < wf_n_bands C"
  shows "wf_n_bands C' = wf_n_bands C
     \<and> norm_cut el = sqrt (real (n_tot el) * (1 / 10 ^ 15))
     \<and> (norm1 s k b < norm_cut el \<longrightarrow>
          (\<forall>g. coeff C' s k b g = rand el i_iter s k b g) \<and> nrm' s k b = 1)
     \<and> (\<not> norm1 s k b < norm_cut el \<longrightarrow>
          (\<forall>g. coeff C' s k b g = coeff C s k b g) \<and> nrm' s k b = norm1 s k b)
     \<and> (0 < n_tot el \<longrightarrow> nrm' s k b \<noteq> 0)"
proof -
  have R: "regularize el C nrm i_iter =
      (if \<not> any_low_norm el norm1 (wf_n_bands C) then (C, norm1)
       else (randomize_selected el C (low_norm el norm1) i_iter,
             (\<lambda>s k b. if low_norm el norm1 s k b then 1 else norm1 s k b)))"
    by (simp only: regularize_def Let_def norm1)
  show ?thesis
proof (cases "any_low_norm el norm1 (wf_n_bands C)")
  case False
  then have res: "C' = C" "nrm' = norm1"
    using reg unfolding R by simp_all
  have notlow: "\<not> norm1 s k b < norm_cut el"
    using False range unfolding any_low_norm_iff low_norm_def by blast
  then have "0 < n_tot el \<longrightarrow> norm1 s k b \<noteq> 0" using norm_cut_pos[of el] by auto
  then show ?thesis using res notlow by (simp add: norm_cut_def)
next
  case True
  then have res: "C' = randomize_selected el C (low_norm el norm1) i_iter"
    "nrm' = (\<lambda>s k b. if low_norm el norm1 s k b then 1 else norm1 s k b)"
    using reg unfolding R by auto
  have "0 < n_tot el \<longrightarrow> \<not> norm1 s k b < norm_cut el \<longrightarrow> norm1 s k b \<noteq> 0"
    using norm_cut_pos[of el] by auto
  then show ?thesis unfolding res
    by (simp add: randomize_selected_def low_norm_def norm_cut_def)
qed
qed

theorem regularize_replaces_low_norm_witness:
  "coeff (fst (regularize el_example C_example (\<lambda>s k b. if b = 0 then 0 else 1) 1)) 0 0 0 2 = 1
   \<and> snd (regularize el_example C_example (\<lambda>s k b. if b = 0 then 0 else 1) 1) 0 0 0 = 1
   \<and> coeff (fst (regularize el_example C_example (\<lambda>s k b. if b = 0 then 0 else 1) 1)) 0 0 1 1 = 1
   \<and> snd (regularize el_example C_example (\<lambda>s k b. if b = 0 then 0 else 1) 1) 0 0 1 \<noteq> 0"
proof -
  define R where "R = regularize el_example C_example (\<lambda>s k b. if b = 0 then 0 else 1) 1"
  have R: "regularize el_example C_example (\<lambda>s k b. if b = 0 then 0 else 1) 1 = (fst R, snd R)"
    unfolding R_def by simp
  have n1: "(\<lambda>s k b. if b = 0 then 0 else (1::real)) =
      (if n_procs_b el_example > 1 then bcast_norm el_example 1
       else (\<lambda>s k b. if b = 0 then 0 else 1))"
    by (simp add: el_example_def)
  have cut: "0 < norm_cut el_example" "\<not> 1 < norm_cut el_example"
    by (simp_all add: norm_cut_def el_example_def)
  have r: "(0::nat) < n_spins el_example" "(0::nat) < nk_mine el_example"
    "(0::nat) < wf_n_bands C_example" "(1::nat) < wf_n_bands C_example" "0 < n_tot el_example"
    by (simp_all add: el_example_def C_example_def)
  from regularize_replaces_low_norm[OF R n1 r(1) r(2) r(3)]
       regularize_replaces_low_norm[OF R n1 r(1) r(2) r(4)] cut r(5)
  show ?thesis unfolding R_def[symmetric]
    by (simp add: el_example_def C_example_def)
qed


subsection \<open>The subspace matrices\<close>

text \<open>
  C6: in the matrices handed to the generalised eigensolver, the block of the current
  bands is the identity (overlap) and \<open>diag(E)\<close> (Hamiltonian), the upper-right blocks
  are the computed products of the current with the expansion bands, the lower-left
  blocks are the conjugate transposes of the upper-right ones, and the lower-right
  blocks are the products of the expansion bands with themselves.
\<close>

theorem subspace_matrices_block_form:
  assumes "i < wf_n_bands C" "j < wf_n_bands C"
  shows "C_OC_new el C Cexp s k i j = (if i = j then 1 else 0)
     \<and> C_HC_new el C E Cexp HCexp s k i j = (if i = j then of_real (E s k i) else 0)
     \<and> C_OC_new el C Cexp s k i (wf_n_bands C + a) = wf_dot_O el C Cexp s k i a
     \<and> C_HC_new el C E Cexp HCexp s k i (wf_n_bands C + a) = wf_dot el C HCexp s k i a
     \<and> C_OC_new el C Cexp s k (wf_n_bands C + a) j
         = cnj (C_OC_new el C Cexp s k j (wf_n_bands C + a))
     \<and> C_HC_new el C E Cexp HCexp s k (wf_n_bands C + a) j
         = cnj (C_HC_new el C E Cexp HCexp s k j (wf_n_bands C + a))
     \<and> C_OC_new el C Cexp s k (wf_n_bands C + a) (wf_n_bands C + b)
         = wf_dot_O el Cexp Cexp s k a b
     \<and> C_HC_new el C E Cexp HCexp s k (wf_n_bands C + a) (wf_n_bands C + b)
         = wf_dot el Cexp HCexp s k a b
     \<and> solve_subspace el C E Cexp HCexp s k
         = eighg el (wf_n_bands C + wf_n_bands Cexp)
             (C_HC_new el C E Cexp HCexp s k) (C_OC_new el C Cexp s k)"
  using assms
  by (simp add: C_OC_new_def C_HC_new_def assemble_def eye_def diag_embed_def dagger_def
      solve_subspace_def Let_def)

lemma sum5: "(\<Sum>g<(5::nat). f g) = f 0 + f 1 + f 2 + f 3 + (f 4 :: 'a :: comm_monoid_add)"
  by (simp add: eval_nat_numeral lessThan_Suc ac_simps)

theorem subspace_matrices_block_form_witness:
  "C_OC_new el_example C_example C_example 0 0 0 0 = 1
   \<and> C_OC_new el_example C_example C_example 0 0 0 1 = 0
   \<and> C_HC_new el_example C_example (\<lambda>s k b. 7) C_example C_example 0 0 1 1 = 7
   \<and> C_OC_new el_example C_example C_example 0 0 (2 + 1) 1 = cnj 1
   \<and> C_OC_new el_example C_example C_example 0 0 1 (2 + 1) = 1"
proof -
  have r: "(0::nat) < wf_n_bands C_example" "(1::nat) < wf_n_bands C_example"
    by (simp_all add: C_example_def)
  have n: "wf_n_bands C_example = 2" by (simp add: C_example_def)
  have d: "wf_dot_O el_example C_example C_example 0 0 1 1 = 1"
    by (simp add: wf_dot_O_def wf_dot_def el_example_def C_example_def sum5)
  from subspace_matrices_block_form[OF r(1) r(1), of el_example C_example 0 0 "\<lambda>s k b. 7"]
    subspace_matrices_block_form[OF r(1) r(2), of el_example C_example 0 0 "\<lambda>s k b. 7"]
    subspace_matrices_block_form[OF r(2) r(2), of el_example C_example 0 0 "\<lambda>s k b. 7"
      C_example 1]
    d
  show ?thesis unfolding n by simp
qed


subsection \<open>Linear combinations of bands and their overlap\<close>

lemma sum_split_blocks:
  fixes f :: "nat \<Rightarrow> 'a::comm_monoid_add"
  shows "(\<Sum>a<n + m. f a) = (\<Sum>a<n. f a) + (\<Sum>a<m. f (n + a))"
  by (induction m) (simp_all add: add.assoc)

lemma gram_of_combination:
  fixes X OX V :: "nat \<Rightarrow> nat \<Rightarrow> complex"
  shows "(\<Sum>g<G. cnj (\<Sum>a<N. X a g * V a i) * (\<Sum>b<N. OX b g * V b j))
       = (\<Sum>a<N. \<Sum>b<N. cnj (V a i) * (\<Sum>g<G. cnj (X a g) * OX b g) * V b j)"
proof -
  have "(\<Sum>g<G. cnj (\<Sum>a<N. X a g * V a i) * (\<Sum>b<N. OX b g * V b j))
      = (\<Sum>g<G. \<Sum>a<N. \<Sum>b<N. cnj (V a i) * (cnj (X a g) * OX b g) * V b j)"
  proof (rule sum.cong[OF refl])
    fix g
    have "cnj (\<Sum>a<N. X a g * V a i) * (\<Sum>b<N. OX b g * V b j)
        = (\<Sum>a<N. \<Sum>b<N. cnj (X a g * V a i) * (OX b g * V b j))"
      by (simp only: cnj_sum sum_product)
    also have "\<dots> = (\<Sum>a<N. \<Sum>b<N. cnj (V a i) * (cnj (X a g) * OX b g) * V b j)"
      by (simp add: mult_ac)
    finally show "cnj (\<Sum>a<N. X a g * V a i) * (\<Sum>b<N. OX b g * V b j)
        = (\<Sum>a<N. \<Sum>b<N. cnj (V a i) * (cnj (X a g) * OX b g) * V b j)" .
  qed
  also have "\<dots> = (\<Sum>a<N. \<Sum>g<G. \<Sum>b<N. cnj (V a i) * (cnj (X a g) * OX b g) * V b j)"
    by (rule sum.swap)
  also have "\<dots> = (\<Sum>a<N. \<Sum>b<N. \<Sum>g<G. cnj (V a i) * (cnj (X a g) * OX b g) * V b j)"
    by (rule sum.cong[OF refl]) (rule sum.swap)
  also have "\<dots> = (\<Sum>a<N. \<Sum>b<N. cnj (V a i) * (\<Sum>g<G. cnj (X a g) * OX b g) * V b j)"
    by (simp add: sum_distrib_left sum_distrib_right)
  finally show ?thesis .
qed


lemma coeff_rotate:
  assumes "wf_n_bands X = n"
  shows "coeff (rotate n n' V X Y) s k j g =
     (\<Sum>a<n + wf_n_bands Y.
        (if a < n then coeff X s k a g else coeff Y s k (a - n) g) * V s k a j)"
  unfolding sum_split_blocks using assms
  by (simp add: rotate_def wf_add_def wf_matmul_def)

lemma linear_operator_rotate:
  assumes "linear_operator H" "wf_n_bands X = n"
  shows "coeff (H (rotate n n' V X Y)) s k j g =
     (\<Sum>a<n + wf_n_bands Y.
        (if a < n then coeff (H X) s k a g else coeff (H Y) s k (a - n) g) * V s k a j)"
proof -
  have "coeff (H (rotate n n' V X Y)) s k j g =
      (\<Sum>i<wf_n_bands X. coeff (H X) s k i g * V s k i j)
      + (\<Sum>i<wf_n_bands Y. coeff (H Y) s k i g * V s k (n + i) j)"
    using assms(1) unfolding linear_operator_def rotate_def Let_def by blast
  then show ?thesis unfolding sum_split_blocks using assms(2) by simp
qed

lemma overlap_of_rotate:
  assumes lin: "linear_operator (overlap_op el)" and n: "wf_n_bands C = n"
  shows "wf_dot_O el (rotate n n' V C Cexp) (rotate n n' V C Cexp) s k i j =
     (\<Sum>a<n + wf_n_bands Cexp. \<Sum>b<n + wf_n_bands Cexp.
        cnj (V s k a i)
        * (\<Sum>g<n_coeff el.
             cnj (if a < n then coeff C s k a g else coeff Cexp s k (a - n) g)
             * (if b < n then coeff (overlap_op el C) s k b g
                else coeff (overlap_op el Cexp) s k (b - n) g))
        * V s k b j)"
  unfolding wf_dot_O_def wf_dot_def coeff_rotate[OF n] linear_operator_rotate[OF lin n]
  by (rule gram_of_combination)

lemma gram_is_C_OC_new:
  assumes herm: "hermitian_overlap el" and orth: "orthonormal el C"
    and n: "wf_n_bands C = n"
    and range: "s < n_spins el" "k < nk_mine el"
  shows "(\<Sum>g<n_coeff el.
             cnj (if a < n then coeff C s k a g else coeff Cexp s k (a - n) g)
             * (if b < n then coeff (overlap_op el C) s k b g
                else coeff (overlap_op el Cexp) s k (b - n) g))
         = C_OC_new el C Cexp s k a b"
proof -
  have cc: "wf_dot_O el C C s k a b = (if a = b then 1 else 0)" if "a < n" "b < n"
    using orth that range n unfolding orthonormal_def by simp
  have ec: "wf_dot_O el Cexp C s k (a - n) b = cnj (wf_dot_O el C Cexp s k b (a - n))"
    using herm unfolding hermitian_overlap_def by blast
  show ?thesis
    using cc ec
    by (simp add: C_OC_new_def assemble_def eye_def dagger_def Let_def n
        wf_dot_O_def wf_dot_def)
qed

lemma iteration_from_orthonormal:
  assumes lin: "linear_operator (overlap_op el)"
    and herm: "hermitian_overlap el"
    and orth: "orthonormal el (st_C st)"
    and ok: "solver_ok_with el st Cexp"
    and it: "iteration_from el il h n thr i st Cexp = Inr (st1, c)"
  shows "orthonormal el (st_C st1)"
  unfolding orthonormal_def
proof (intro allI impI)
  fix s k a b
  assume r: "s < n_spins el" "k < nk_mine el"
    and ab: "a < wf_n_bands (st_C st1)" "b < wf_n_bands (st_C st1)"
  define C where "C = st_C st"
  define N where "N = wf_n_bands C + wf_n_bands Cexp"
  define EV where "EV = solve_subspace el C (st_E st) Cexp (hamiltonian el Cexp) s k"
  define V where "V = (\<lambda>s k. snd (solve_subspace el C (st_E st) Cexp (hamiltonian el Cexp) s k))"
  have C1: "st_C st1 = rotate (wf_n_bands C) (min N (n_bands el + n_bands_extra el)) V C Cexp"
    unfolding C_def N_def V_def by (rule iteration_from_Inr(1)[OF it])
  have abN: "a < N" "b < N" using ab unfolding C1 by simp_all
  have contract: "eighg_contract N (C_HC_new el C (st_E st) Cexp (hamiltonian el Cexp) s k)
      (C_OC_new el C Cexp s k) EV"
    using ok r unfolding solver_ok_with_def Let_def C_def N_def EV_def by blast
  have "wf_dot_O el (st_C st1) (st_C st1) s k a b =
      (\<Sum>x<N. \<Sum>y<N. cnj (V s k x a) * C_OC_new el C Cexp s k x y * V s k y b)"
    unfolding C1 overlap_of_rotate[OF lin refl] N_def
      gram_is_C_OC_new[OF herm orth[folded C_def] refl r] ..
  also have "\<dots> = (if a = b then 1 else 0)"
    using contract abN unfolding eighg_contract_def V_def EV_def by simp
  finally show "wf_dot_O el (st_C st1) (st_C st1) s k a b = (if a = b then 1 else 0)" .
qed

lemma iteration_orthonormal:
  assumes lin: "linear_operator (overlap_op el)"
    and herm: "hermitian_overlap el"
    and orth: "orthonormal el (st_C st)"
    and ok: "solver_ok el i st"
    and it: "iteration el il h n thr i st = Inr (st1, c)"
  shows "orthonormal el (st_C st1)"
proof -
  from it obtain Cexp where e: "expansion el i st = Some Cexp"
    and f: "iteration_from el il h n thr i st Cexp = Inr (st1, c)"
    by (rule iteration_InrE)
  from ok e have "solver_ok_with el st Cexp" by (simp add: solver_ok_def)
  from iteration_from_orthonormal[OF lin herm orth this f] show ?thesis .
qed

lemma initial_state_fields:
  "st_C (initial_state el il C) =
     wf_matmul C (\<lambda>s k. snd (eigh el (wf_n_bands C) (wf_dot el C (hamiltonian el C) s k)))
       (wf_n_bands C)"
  "st_HC (initial_state el il C) =
     wf_matmul (hamiltonian el C)
       (\<lambda>s k. snd (eigh el (wf_n_bands C) (wf_dot el C (hamiltonian el C) s k)))
       (wf_n_bands C)"
  "st_E (initial_state el il C) =
     (\<lambda>s k. fst (eigh el (wf_n_bands C) (wf_dot el C (hamiltonian el C) s k)))"
  "st_n_eigs_done (initial_state el il C) = 0"
  "st_applied (initial_state el il C) = [C]"
  by (simp_all add: initial_state_def Let_def)


lemma initial_state_orthonormal:
  assumes ok: "initial_solver_ok el C"
    and lin: "linear_operator (overlap_op el)"
    and orth: "orthonormal el C"
  shows "orthonormal el (st_C (initial_state el il C))"
  unfolding orthonormal_def
proof (intro allI impI)
  fix s k i j
  assume r: "s < n_spins el" "k < nk_mine el"
    and ij: "i < wf_n_bands (st_C (initial_state el il C))"
            "j < wf_n_bands (st_C (initial_state el il C))"
  define n where "n = wf_n_bands C"
  define V where "V = (\<lambda>s k. snd (eigh el n (wf_dot el C (hamiltonian el C) s k)))"
  have ijn: "i < n" "j < n" using ij unfolding n_def by simp_all
  have c: "eigh_contract n (wf_dot el C (hamiltonian el C) s k)
      (eigh el n (wf_dot el C (hamiltonian el C) s k))"
    using ok r unfolding initial_solver_ok_def n_def by blast
  have C1: "st_C (initial_state el il C) = wf_matmul C V n"
    unfolding initial_state_fields V_def n_def ..
  have OC1: "coeff (overlap_op el (wf_matmul C V n)) s k j g
      = (\<Sum>b<n. coeff (overlap_op el C) s k b g * V s k b j)" for j g
    using lin unfolding linear_operator_def n_def by blast
  have "wf_dot_O el (wf_matmul C V n) (wf_matmul C V n) s k i j
      = (\<Sum>g<n_coeff el. cnj (\<Sum>a<n. coeff C s k a g * V s k a i)
           * (\<Sum>b<n. coeff (overlap_op el C) s k b g * V s k b j))"
    unfolding wf_dot_O_def wf_dot_def OC1 by (simp add: wf_matmul_def n_def del: cnj_sum)
  also have "\<dots> = (\<Sum>a<n. \<Sum>b<n. cnj (V s k a i) * wf_dot_O el C C s k a b * V s k b j)"
    unfolding gram_of_combination wf_dot_O_def wf_dot_def ..
  also have "\<dots> = (\<Sum>a<n. \<Sum>b<n. cnj (V s k a i) * (if a = b then 1 else 0) * V s k b j)"
    using orth r unfolding orthonormal_def n_def by simp
  also have "\<dots> = (\<Sum>a<n. cnj (V s k a i) * V s k a j)"
  proof (rule sum.cong[OF refl])
    fix a assume "a \<in> {..<n}"
    then have "(\<Sum>b<n. cnj (V s k a i) * (if a = b then 1 else 0) * V s k b j)
        = (\<Sum>b<n. if b = a then cnj (V s k a i) * V s k b j else 0)"
      by (intro sum.cong) auto
    also have "\<dots> = cnj (V s k a i) * V s k a j"
      using \<open>a \<in> {..<n}\<close> by simp
    finally show "(\<Sum>b<n. cnj (V s k a i) * (if a = b then 1 else 0) * V s k b j)
        = cnj (V s k a i) * V s k a j" .
  qed
  also have "\<dots> = (if i = j then 1 else 0)"
    using c ijn unfolding eigh_contract_def V_def by simp
  finally show "wf_dot_O el (st_C (initial_state el il C)) (st_C (initial_state el il C)) s k i j
      = (if i = j then 1 else 0)" unfolding C1 .
qed


subsection \<open>The operator image and the trace of the loop\<close>

lemma initial_state_consistent:
  assumes lin: "linear_operator (hamiltonian el)"
  shows "consistent el (initial_state el il C)"
proof -
  have shape: "wf_n_bands (hamiltonian el C) = wf_n_bands C"
    using lin unfolding linear_operator_def by blast
  have "coeff (hamiltonian el (wf_matmul C V n)) s k j g
      = (\<Sum>i<wf_n_bands C. coeff (hamiltonian el C) s k i g * V s k i j)" for V n s k j g
    using lin unfolding linear_operator_def by blast
  then show ?thesis
    unfolding consistent_def initial_state_fields
    by (simp add: wf_matmul_def shape)
qed

lemma iteration_from_consistent:
  assumes lin: "linear_operator (hamiltonian el)"
    and cons: "consistent el st"
    and it: "iteration_from el il h n thr i st Cexp = Inr (st1, c)"
  shows "consistent el st1"
proof -
  define C where "C = st_C st"
  define n' where "n' = min (wf_n_bands C + wf_n_bands Cexp) (n_bands el + n_bands_extra el)"
  define V where "V = (\<lambda>s k. snd (solve_subspace el C (st_E st) Cexp (hamiltonian el Cexp) s k))"
  have C1: "st_C st1 = rotate (wf_n_bands C) n' V C Cexp"
    and HC1: "st_HC st1 = rotate (wf_n_bands C) n' V (st_HC st) (hamiltonian el Cexp)"
    unfolding C_def n'_def V_def
    by (rule iteration_from_Inr(1)[OF it], rule iteration_from_Inr(2)[OF it])
  have nHC: "wf_n_bands (st_HC st) = wf_n_bands C"
    and HC: "\<And>s k b g. b < wf_n_bands C \<Longrightarrow>
               coeff (st_HC st) s k b g = coeff (hamiltonian el C) s k b g"
    using cons unfolding consistent_def C_def by blast+
  have shape: "wf_n_bands (hamiltonian el Cexp) = wf_n_bands Cexp"
    using lin unfolding linear_operator_def by blast
  have "coeff (st_HC st1) s k j g = coeff (hamiltonian el (st_C st1)) s k j g" for s k j g
    unfolding C1 HC1 coeff_rotate[OF nHC] linear_operator_rotate[OF lin refl] shape
    by (rule sum.cong[OF refl]) (simp add: HC)
  then show ?thesis unfolding consistent_def by (simp add: C1 HC1)
qed

lemma iteration_consistent:
  assumes lin: "linear_operator (hamiltonian el)"
    and cons: "consistent el st"
    and it: "iteration el il h n thr i st = Inr (st1, c)"
  shows "consistent el st1"
proof -
  from it obtain Cexp where "iteration_from el il h n thr i st Cexp = Inr (st1, c)"
    by (rule iteration_InrE)
  from iteration_from_consistent[OF lin cons this] show ?thesis .
qed

text \<open>
  The expansion block does not depend on the operator, and the rest of the iteration
  depends on the operator through its value on the expansion block alone.
\<close>

lemma hamiltonian_update_parts:
  "residual (el\<lparr>hamiltonian := H'\<rparr>) st = residual el st"
  "precondition (el\<lparr>hamiltonian := H'\<rparr>) Cerr KEref = precondition el Cerr KEref"
  "low_norm (el\<lparr>hamiltonian := H'\<rparr>) nrm = low_norm el nrm"
  "any_low_norm (el\<lparr>hamiltonian := H'\<rparr>) nrm nb = any_low_norm el nrm nb"
  "randomize_selected (el\<lparr>hamiltonian := H'\<rparr>) C sel i = randomize_selected el C sel i"
  "normalize_bands (el\<lparr>hamiltonian := H'\<rparr>) C nrm = normalize_bands el C nrm"
  by (simp_all add: residual_def precondition_def precondition_coeff_def fun_eq_iff
      low_norm_def norm_cut_def any_low_norm_def randomize_selected_def normalize_bands_def)

lemma regularize_hamiltonian_update:
  "regularize (el\<lparr>hamiltonian := H'\<rparr>) C nrm i = regularize el C nrm i"
  unfolding regularize_def hamiltonian_update_parts by simp

lemma expansion_hamiltonian_update:
  "expansion (el\<lparr>hamiltonian := H'\<rparr>) i st = expansion el i st"
  unfolding expansion_def hamiltonian_update_parts regularize_hamiltonian_update
  by (simp cong: option.case_cong)

lemma iteration_from_hamiltonian_update:
  assumes "H' Cexp = hamiltonian el Cexp"
  shows "iteration_from (el\<lparr>hamiltonian := H'\<rparr>) il h n thr i st Cexp
           = iteration_from el il h n thr i st Cexp"
  using assms
  by (simp add: iteration_from_def solve_subspace_def C_HC_new_def C_OC_new_def wf_dot_def
      wf_dot_O_def eig_change_def get_Eband_def Let_def split: sum.splits prod.splits)

text \<open>The final state of the loop is the last state of its trace.\<close>

lemma davidson_loop_last_trace:
  assumes "davidson_loop el il h n thr r i st = Inr st'"
  shows "st' = last (st # davidson_trace el il h n thr r i st)"
  using assms
proof (induction r arbitrary: i st)
  case 0 then show ?case by simp
next
  case (Suc r)
  from Suc.prems obtain st1 c where it: "iteration el il h n thr i st = Inr (st1, c)"
    by (auto split: sum.splits)
  show ?case
  proof (cases c)
    case True then show ?thesis using Suc.prems it by simp
  next
    case False
    then have "davidson_loop el il h n thr r (Suc i) st1 = Inr st'"
      using Suc.prems it by simp
    from Suc.IH[OF this] show ?thesis using it False by simp
  qed
qed

lemma davidson_call_last_trace:
  assumes "davidson_call self el a t h C = Inr st"
  shows "st = last (initial_state el (get_inner_loop a t h) C # call_trace self el a t h C)"
  using assms unfolding davidson_call_def call_trace_def Let_def
  by (auto split: option.splits dest: davidson_loop_last_trace)

text \<open>Every state of the trace is the result of an iteration on the state before it.\<close>

lemma trace_step:
  assumes "j < length (davidson_trace el il h n thr r i st)"
  shows "\<exists>c. iteration el il h n thr (i + j) ((st # davidson_trace el il h n thr r i st) ! j)
               = Inr (davidson_trace el il h n thr r i st ! j, c)"
  using assms
proof (induction r arbitrary: i st j)
  case 0 then show ?case by simp
next
  case (Suc r)
  show ?case
  proof (cases "iteration el il h n thr i st")
    case (Inl e) then show ?thesis using Suc.prems by simp
  next
    case (Inr p)
    obtain st1 c where p: "p = (st1, c)" by (cases p)
    show ?thesis
    proof (cases c)
      case True then show ?thesis using Inr p Suc.prems by auto
    next
      case False
      define tr where "tr = davidson_trace el il h n thr r (Suc i) st1"
      have tr: "davidson_trace el il h n thr (Suc r) i st = st1 # tr"
        using Inr p False unfolding tr_def by simp
      show ?thesis
      proof (cases j)
        case 0 then show ?thesis unfolding tr using Inr p by simp
      next
        case (Suc j')
        then have "j' < length tr" using Suc.prems unfolding tr by simp
        from Suc.IH[OF this[unfolded tr_def]] show ?thesis
          unfolding tr Suc tr_def[symmetric] by simp
      qed
    qed
  qed
qed

lemma call_trace_step:
  assumes "j < length (call_trace self el a t h C)"
  shows "\<exists>c. iteration el (get_inner_loop a t h) h
                (get_n_iterations (self_n_iterations self) a)
                (get_eig_threshold (self_eig_threshold self) t) (1 + j)
                ((initial_state el (get_inner_loop a t h) C # call_trace self el a t h C) ! j)
               = Inr (call_trace self el a t h C ! j, c)"
  using assms unfolding call_trace_def Let_def by (rule trace_step)

lemma trace_consistent:
  assumes lin: "linear_operator (hamiltonian el)"
    and cons: "consistent el st"
  shows "\<forall>st'\<in>set (davidson_trace el il h n thr r i st).
           consistent el st'"
  using cons
proof (induction r arbitrary: i st)
  case 0 then show ?case by simp
next
  case (Suc r)
  show ?case
  proof (cases "iteration el il h n thr i st")
    case (Inl e) then show ?thesis by simp
  next
    case (Inr p)
    obtain st1 c where p: "p = (st1, c)" by (cases p)
    have c1: "consistent el st1"
      using iteration_consistent[OF lin Suc.prems] Inr p by blast
    show ?thesis using Inr p c1 Suc.IH[OF c1] by simp
  qed
qed

lemma iteration_applied_length:
  assumes "iteration el il h n thr i st = Inr (st1, c)"
  shows "length (st_applied st1) = Suc (length (st_applied st))"
proof -
  from assms obtain Cexp where "iteration_from el il h n thr i st Cexp = Inr (st1, c)"
    by (rule iteration_InrE)
  from iteration_from_Inr(4)[OF this] show ?thesis by simp
qed

lemma trace_applied_length:
  "\<forall>j<length (davidson_trace el il h n thr r i st).
     length (st_applied (davidson_trace el il h n thr r i st ! j))
       = length (st_applied st) + Suc j"
proof (induction r arbitrary: i st)
  case 0 then show ?case by simp
next
  case (Suc r)
  show ?case
  proof (cases "iteration el il h n thr i st")
    case (Inl e) then show ?thesis by simp
  next
    case (Inr p)
    obtain st1 c where p: "p = (st1, c)" by (cases p)
    have a1: "length (st_applied st1) = Suc (length (st_applied st))"
      using iteration_applied_length Inr p by blast
    show ?thesis
    proof (cases c)
      case True then show ?thesis using Inr p a1 by simp
    next
      case False
      define tr where "tr = davidson_trace el il h n thr r (Suc i) st1"
      have tr: "davidson_trace el il h n thr (Suc r) i st = st1 # tr"
        using Inr p False unfolding tr_def by simp
      have IH: "\<forall>j<length tr. length (st_applied (tr ! j)) = length (st_applied st1) + Suc j"
        using Suc.IH[of "Suc i" st1] unfolding tr_def .
      show ?thesis unfolding tr
      proof (intro allI impI)
        fix j assume j: "j < length (st1 # tr)"
        show "length (st_applied ((st1 # tr) ! j)) = length (st_applied st) + Suc j"
        proof (cases j)
          case 0 then show ?thesis using a1 by simp
        next
          case (Suc j')
          then have "j' < length tr" using j by simp
          with IH show ?thesis unfolding Suc a1 by simp
        qed
      qed
    qed
  qed
qed


subsection \<open>Consistency of the operator image and orthonormality\<close>

text \<open>
  C5: an iteration that returns has an expansion block \<open>Cexp\<close>, and with \<open>V\<close> the
  eigenvectors returned by the generalised solver for the expanded subspace matrices
  and \<open>n_next = min (n_cur + n_exp) n_bands_max\<close>: the new \<open>C\<close> and the new \<open>HC\<close> have
  \<open>n_next\<close> bands; band \<open>j\<close> of the new \<open>C\<close> is the combination of the current bands
  with the rows of \<open>V\<close> below \<open>n_cur\<close> (\<open>Vcur\<close>) plus the combination of the bands of
  \<open>Cexp\<close> with the rows from \<open>n_cur\<close> on (\<open>Vexp\<close>), and band \<open>j\<close> of the new \<open>HC\<close> is the
  same combination of the bands of the current \<open>HC\<close> and of the image of \<open>Cexp\<close>. The
  operator is applied once, to \<open>Cexp\<close>, and the iteration depends on the operator
  through its value on \<open>Cexp\<close> alone. For a linear operator and \<open>HC\<close> the image of \<open>C\<close>
  at the start, \<open>HC\<close> is the image of the new \<open>C\<close>. Hence, for a linear operator, \<open>HC\<close>
  is the image of \<open>C\<close> after every iteration of a call and at its end; and a call
  applies the operator once per completed iteration besides the initial application.
\<close>

theorem operator_image_rotated_not_recomputed:
  assumes it: "iteration el il h n thr i st = Inr (st1, c)"
  shows "(\<exists>Cexp. expansion el i st = Some Cexp
          \<and> (let n_cur = wf_n_bands (st_C st);
                  n_exp = wf_n_bands Cexp;
                  n_next = min (n_cur + n_exp) (n_bands el + n_bands_extra el);
                  V = (\<lambda>s k. snd (eighg el (n_cur + n_exp)
                          (C_HC_new el (st_C st) (st_E st) Cexp (hamiltonian el Cexp) s k)
                          (C_OC_new el (st_C st) Cexp s k)))
              in wf_n_bands (st_C st1) = n_next
               \<and> wf_n_bands (st_HC st1) = n_next
               \<and> (\<forall>s k j g. coeff (st_C st1) s k j g
                     = (\<Sum>b<n_cur. coeff (st_C st) s k b g * V s k b j)
                       + (\<Sum>b<n_exp. coeff Cexp s k b g * V s k (n_cur + b) j))
               \<and> (\<forall>s k j g. coeff (st_HC st1) s k j g
                     = (\<Sum>b<wf_n_bands (st_HC st). coeff (st_HC st) s k b g * V s k b j)
                       + (\<Sum>b<wf_n_bands (hamiltonian el Cexp).
                            coeff (hamiltonian el Cexp) s k b g * V s k (n_cur + b) j))
               \<and> st_applied st1 = st_applied st @ [Cexp]
               \<and> (\<forall>H'. H' Cexp = hamiltonian el Cexp \<longrightarrow>
                     iteration (el\<lparr>hamiltonian := H'\<rparr>) il h n thr i st
                       = iteration el il h n thr i st)
               \<and> (linear_operator (hamiltonian el) \<and> consistent el st \<longrightarrow>
                     wf_n_bands (st_HC st) = n_cur
                     \<and> wf_n_bands (hamiltonian el Cexp) = n_exp
                     \<and> (\<forall>s k j g. coeff (st_HC st1) s k j g
                           = coeff (hamiltonian el (st_C st1)) s k j g)
                     \<and> consistent el st1)))
       \<and> (linear_operator (hamiltonian el) \<longrightarrow>
             (\<forall>st'\<in>set (call_trace self el a t hp C). consistent el st')
             \<and> (\<forall>st'. davidson_call self el a t hp C = Inr st' \<longrightarrow> consistent el st'))
       \<and> (\<forall>st'. davidson_call self el a t hp C = Inr st' \<longrightarrow>
             length (st_applied st') = 1 + length (call_trace self el a t hp C))"
proof -
  from it obtain Cexp where e: "expansion el i st = Some Cexp"
    and f: "iteration_from el il h n thr i st Cexp = Inr (st1, c)"
    by (rule iteration_InrE)
  define n_cur where "n_cur = wf_n_bands (st_C st)"
  define n_exp where "n_exp = wf_n_bands Cexp"
  define n_next where "n_next = min (n_cur + n_exp) (n_bands el + n_bands_extra el)"
  define V where "V = (\<lambda>s k. snd (eighg el (n_cur + n_exp)
                          (C_HC_new el (st_C st) (st_E st) Cexp (hamiltonian el Cexp) s k)
                          (C_OC_new el (st_C st) Cexp s k)))"
  have V: "V = (\<lambda>s k. snd (solve_subspace el (st_C st) (st_E st) Cexp (hamiltonian el Cexp) s k))"
    unfolding V_def n_cur_def n_exp_def solve_subspace_def Let_def ..
  have C1: "st_C st1 = rotate n_cur n_next V (st_C st) Cexp"
    and HC1: "st_HC st1 = rotate n_cur n_next V (st_HC st) (hamiltonian el Cexp)"
    unfolding V n_next_def n_cur_def n_exp_def
    by (rule iteration_from_Inr(1)[OF f], rule iteration_from_Inr(2)[OF f])
  have a: "wf_n_bands (st_C st1) = n_next" "wf_n_bands (st_HC st1) = n_next"
    unfolding C1 HC1 by simp_all
  have b: "coeff (st_C st1) s k j g
             = (\<Sum>b<n_cur. coeff (st_C st) s k b g * V s k b j)
               + (\<Sum>b<n_exp. coeff Cexp s k b g * V s k (n_cur + b) j)" for s k j g
    unfolding C1 by (simp add: rotate_def wf_add_def wf_matmul_def n_cur_def n_exp_def)
  have c: "coeff (st_HC st1) s k j g
             = (\<Sum>b<wf_n_bands (st_HC st). coeff (st_HC st) s k b g * V s k b j)
               + (\<Sum>b<wf_n_bands (hamiltonian el Cexp).
                    coeff (hamiltonian el Cexp) s k b g * V s k (n_cur + b) j)"
    for s k j g
    unfolding HC1 by (simp add: rotate_def wf_add_def wf_matmul_def)
  have ap: "st_applied st1 = st_applied st @ [Cexp]" by (rule iteration_from_Inr(4)[OF f])
  have ind: "iteration (el\<lparr>hamiltonian := H'\<rparr>) il h n thr i st = iteration el il h n thr i st"
    if "H' Cexp = hamiltonian el Cexp" for H'
    unfolding iteration_def expansion_hamiltonian_update e
    using that by (simp add: iteration_from_hamiltonian_update)
  have d: "wf_n_bands (st_HC st) = n_cur
         \<and> wf_n_bands (hamiltonian el Cexp) = n_exp
         \<and> (\<forall>s k j g. coeff (st_HC st1) s k j g = coeff (hamiltonian el (st_C st1)) s k j g)
         \<and> consistent el st1"
    if lc: "linear_operator (hamiltonian el) \<and> consistent el st"
  proof -
    from lc have lin: "linear_operator (hamiltonian el)" and cons: "consistent el st"
      by simp_all
    have shape: "wf_n_bands (hamiltonian el Cexp) = n_exp"
      using lin unfolding linear_operator_def n_exp_def by blast
    have nHC: "wf_n_bands (st_HC st) = n_cur"
      using cons unfolding consistent_def n_cur_def by blast
    have HC: "\<And>s k b g. b < n_cur
        \<Longrightarrow> coeff (st_HC st) s k b g = coeff (hamiltonian el (st_C st)) s k b g"
      using cons unfolding consistent_def n_cur_def by blast
    have img: "coeff (st_HC st1) s k j g = coeff (hamiltonian el (st_C st1)) s k j g"
      for s k j g
    proof -
      have "coeff (hamiltonian el (st_C st1)) s k j g
          = (\<Sum>b<n_cur. coeff (hamiltonian el (st_C st)) s k b g * V s k b j)
            + (\<Sum>b<n_exp. coeff (hamiltonian el Cexp) s k b g * V s k (n_cur + b) j)"
        using lin unfolding C1 linear_operator_def rotate_def Let_def n_cur_def n_exp_def
        by blast
      then show ?thesis unfolding c nHC shape using HC by simp
    qed
    have "consistent el st1" by (rule iteration_consistent[OF lin cons it])
    then show ?thesis using shape nHC img by blast
  qed
  have 1: "\<exists>Cexp. expansion el i st = Some Cexp
          \<and> (let n_cur = wf_n_bands (st_C st);
                  n_exp = wf_n_bands Cexp;
                  n_next = min (n_cur + n_exp) (n_bands el + n_bands_extra el);
                  V = (\<lambda>s k. snd (eighg el (n_cur + n_exp)
                          (C_HC_new el (st_C st) (st_E st) Cexp (hamiltonian el Cexp) s k)
                          (C_OC_new el (st_C st) Cexp s k)))
              in wf_n_bands (st_C st1) = n_next
               \<and> wf_n_bands (st_HC st1) = n_next
               \<and> (\<forall>s k j g. coeff (st_C st1) s k j g
                     = (\<Sum>b<n_cur. coeff (st_C st) s k b g * V s k b j)
                       + (\<Sum>b<n_exp. coeff Cexp s k b g * V s k (n_cur + b) j))
               \<and> (\<forall>s k j g. coeff (st_HC st1) s k j g
                     = (\<Sum>b<wf_n_bands (st_HC st). coeff (st_HC st) s k b g * V s k b j)
                       + (\<Sum>b<wf_n_bands (hamiltonian el Cexp).
                            coeff (hamiltonian el Cexp) s k b g * V s k (n_cur + b) j))
               \<and> st_applied st1 = st_applied st @ [Cexp]
               \<and> (\<forall>H'. H' Cexp = hamiltonian el Cexp \<longrightarrow>
                     iteration (el\<lparr>hamiltonian := H'\<rparr>) il h n thr i st
                       = iteration el il h n thr i st)
               \<and> (linear_operator (hamiltonian el) \<and> consistent el st \<longrightarrow>
                     wf_n_bands (st_HC st) = n_cur
                     \<and> wf_n_bands (hamiltonian el Cexp) = n_exp
                     \<and> (\<forall>s k j g. coeff (st_HC st1) s k j g
                           = coeff (hamiltonian el (st_C st1)) s k j g)
                     \<and> consistent el st1))"
  proof -
    have b': "\<forall>s k j g. coeff (st_C st1) s k j g
             = (\<Sum>b<n_cur. coeff (st_C st) s k b g * V s k b j)
               + (\<Sum>b<n_exp. coeff Cexp s k b g * V s k (n_cur + b) j)"
      using b by blast
    have c': "\<forall>s k j g. coeff (st_HC st1) s k j g
             = (\<Sum>b<wf_n_bands (st_HC st). coeff (st_HC st) s k b g * V s k b j)
               + (\<Sum>b<wf_n_bands (hamiltonian el Cexp).
                    coeff (hamiltonian el Cexp) s k b g * V s k (n_cur + b) j)"
      using c by blast
    have ind': "\<forall>H'. H' Cexp = hamiltonian el Cexp \<longrightarrow>
                     iteration (el\<lparr>hamiltonian := H'\<rparr>) il h n thr i st
                       = iteration el il h n thr i st"
      using ind by blast
    have d': "linear_operator (hamiltonian el) \<and> consistent el st \<longrightarrow>
         wf_n_bands (st_HC st) = n_cur
         \<and> wf_n_bands (hamiltonian el Cexp) = n_exp
         \<and> (\<forall>s k j g. coeff (st_HC st1) s k j g = coeff (hamiltonian el (st_C st1)) s k j g)
         \<and> consistent el st1"
      using d by blast
    show ?thesis
      unfolding Let_def
      using e a b' c' ap ind' d'
      unfolding n_next_def V_def n_cur_def n_exp_def
      by (intro exI[of _ Cexp] conjI) assumption+
  qed
  define st0 where "st0 = initial_state el (get_inner_loop a t hp) C"
  define tr where "tr = call_trace self el a t hp C"
  have last: "st' = last (st0 # tr)" if "davidson_call self el a t hp C = Inr st'" for st'
    using davidson_call_last_trace[OF that] unfolding st0_def tr_def .
  have 4: "(\<forall>st'\<in>set tr. consistent el st')
         \<and> (\<forall>st'. davidson_call self el a t hp C = Inr st' \<longrightarrow> consistent el st')"
    if lin: "linear_operator (hamiltonian el)"
  proof -
    have c0: "consistent el st0"
      unfolding st0_def by (rule initial_state_consistent[OF lin])
    have tc: "\<forall>st'\<in>set tr. consistent el st'"
      unfolding tr_def call_trace_def Let_def
      using trace_consistent[OF lin c0] unfolding st0_def by blast
    have "consistent el st'" if "davidson_call self el a t hp C = Inr st'" for st'
    proof -
      have "st' = st0 \<or> st' \<in> set tr"
        using last[OF that] by (cases tr rule: rev_cases) simp_all
      then show ?thesis using c0 tc by blast
    qed
    then show ?thesis using tc by blast
  qed
  have 5: "length (st_applied st') = 1 + length tr"
    if call: "davidson_call self el a t hp C = Inr st'" for st'
  proof (cases tr rule: rev_cases)
    case Nil
    then show ?thesis using last[OF call] by (simp add: st0_def initial_state_fields)
  next
    case (snoc tr' x)
    then have x: "st' = x" "tr ! (length tr - 1) = x" "length tr - 1 < length tr"
      using last[OF call] by simp_all
    have "length (st_applied (tr ! (length tr - 1)))
            = length (st_applied st0) + Suc (length tr - 1)"
      using trace_applied_length[of el "get_inner_loop a t hp" hp _ _ _ 1 st0] x(3)
      unfolding tr_def call_trace_def Let_def st0_def by blast
    then show ?thesis
      unfolding x(1) x(2)[symmetric] using x(3) by (simp add: st0_def initial_state_fields)
  qed
  show ?thesis using 1 4 5 unfolding tr_def by blast
qed

lemma trace_orthonormal:
  assumes lin: "linear_operator (overlap_op el)"
    and herm: "hermitian_overlap el"
    and orth: "orthonormal el (st_C st)"
    and ok: "solver_ok_along el i st (davidson_trace el il h n thr r i st)"
  shows "\<forall>st'\<in>set (davidson_trace el il h n thr r i st). orthonormal el (st_C st')"
  using orth ok
proof (induction r arbitrary: i st)
  case 0 then show ?case by simp
next
  case (Suc r)
  show ?case
  proof (cases "iteration el il h n thr i st")
    case (Inl e) then show ?thesis by simp
  next
    case (Inr p)
    obtain st1 c where p: "p = (st1, c)" by (cases p)
    have it: "iteration el il h n thr i st = Inr (st1, c)" using Inr p by simp
    have ok1: "solver_ok el i st"
      and okr: "\<not> c \<Longrightarrow> solver_ok_along el (Suc i) st1 (davidson_trace el il h n thr r (Suc i) st1)"
      using Suc.prems(2) it by (auto split: if_splits)
    have o1: "orthonormal el (st_C st1)"
      by (rule iteration_orthonormal[OF lin herm Suc.prems(1) ok1 it])
    show ?thesis
    proof (cases c)
      case True then show ?thesis using it o1 by simp
    next
      case False
      from Suc.IH[OF o1 okr[OF False]] show ?thesis using it o1 False by simp
    qed
  qed
qed

text \<open>
  C1 (amended): when the block supplied by the caller is orthonormal, the overlap
  operator is linear and Hermitian and the dense solvers meet their contracts in the
  calls of the run, the block is orthonormal after every completed iteration and at
  the end of the call.
\<close>

theorem orthonormality_invariant:
  assumes lin: "linear_operator (overlap_op el)"
    and herm: "hermitian_overlap el"
    and orth: "orthonormal el C"
    and ok0: "initial_solver_ok el C"
    and ok: "solver_ok_along el 1 (initial_state el (get_inner_loop a t h) C)
               (call_trace self el a t h C)"
  shows "(\<forall>st\<in>set (call_trace self el a t h C). orthonormal el (st_C st))
       \<and> (\<forall>st. davidson_call self el a t h C = Inr st \<longrightarrow> orthonormal el (st_C st))"
proof -
  define st0 where "st0 = initial_state el (get_inner_loop a t h) C"
  define tr where "tr = call_trace self el a t h C"
  have o0: "orthonormal el (st_C st0)"
    unfolding st0_def by (rule initial_state_orthonormal[OF ok0 lin orth])
  have 1: "\<forall>st\<in>set tr. orthonormal el (st_C st)"
    unfolding tr_def call_trace_def Let_def
    by (rule trace_orthonormal[OF lin herm o0[unfolded st0_def]
          ok[unfolded call_trace_def Let_def]])
  have 2: "orthonormal el (st_C st)" if call: "davidson_call self el a t h C = Inr st" for st
  proof -
    have "st = last (st0 # tr)"
      using davidson_call_last_trace[OF call] unfolding st0_def tr_def .
    then have "st = st0 \<or> st \<in> set tr" by (cases tr rule: rev_cases) simp_all
    then show ?thesis using o0 1 by blast
  qed
  show ?thesis using 1 2 unfolding tr_def by blast
qed


subsection \<open>The initial subspace diagonalisation\<close>


subsection \<open>The converged count\<close>

lemma check_deigs_count:
  assumes "check_deigs nb d others thr = Inr (m, nd)"
  shows "nd = Min ((\<lambda>p. local_n_eigs_done nb p thr) ` set (d # others))"
proof -
  have "nd = allreduce_min (local_n_eigs_done nb d thr)
               (map (\<lambda>p. local_n_eigs_done nb p thr) others)"
    using assms unfolding check_deigs_def by (auto split: sum.splits)
  then show ?thesis by (simp add: allreduce_min_eq)
qed

lemma local_n_eigs_done_le: "local_n_eigs_done nb p thr \<le> nb"
proof (cases "\<exists>b<min nb (dE_n_bands p). band_pending p thr b")
  case True
  then have "(LEAST b. b < min nb (dE_n_bands p) \<and> band_pending p thr b) < min nb (dE_n_bands p)"
    using LeastI_ex[of "\<lambda>b. b < min nb (dE_n_bands p) \<and> band_pending p thr b"] by blast
  then show ?thesis unfolding local_n_eigs_done_eq using True by simp
next
  case False
  then show ?thesis unfolding local_n_eigs_done_eq by (simp only: if_False order_refl)
qed

lemma local_n_eigs_done_ge:
  assumes "m \<le> nb" and "\<forall>b<m. \<not> band_pending p thr b"
  shows "m \<le> local_n_eigs_done nb p thr"
proof (cases "\<exists>b<min nb (dE_n_bands p). band_pending p thr b")
  case True
  define l where "l = (LEAST b. b < min nb (dE_n_bands p) \<and> band_pending p thr b)"
  have "band_pending p thr l"
    using LeastI_ex[of "\<lambda>b. b < min nb (dE_n_bands p) \<and> band_pending p thr b"] True
    unfolding l_def by blast
  then have "m \<le> l" using assms(2) by (meson not_le)
  then show ?thesis unfolding local_n_eigs_done_eq l_def using True by simp
next
  case False
  then show ?thesis unfolding local_n_eigs_done_eq using assms(1) by (simp only: if_False)
qed

lemma local_n_eigs_done_below:
  assumes "b < local_n_eigs_done nb p thr"
  shows "\<not> (b < dE_n_bands p \<and> band_pending p thr b)"
proof
  assume pb: "b < dE_n_bands p \<and> band_pending p thr b"
  have "b < nb" using assms local_n_eigs_done_le[of nb p thr] by simp
  then have b: "b < min nb (dE_n_bands p) \<and> band_pending p thr b" using pb by simp
  then have ex: "\<exists>b<min nb (dE_n_bands p). band_pending p thr b" by blast
  have "(LEAST b. b < min nb (dE_n_bands p) \<and> band_pending p thr b) \<le> b"
    using b by (rule Least_le)
  then have "local_n_eigs_done nb p thr \<le> b"
    unfolding local_n_eigs_done_eq using ex by simp
  then show False using assms by simp
qed

lemma local_n_eigs_done_at:
  assumes "local_n_eigs_done nb p thr < nb"
  shows "local_n_eigs_done nb p thr < dE_n_bands p
         \<and> band_pending p thr (local_n_eigs_done nb p thr)"
proof -
  define l where "l = (LEAST b. b < min nb (dE_n_bands p) \<and> band_pending p thr b)"
  have ex: "\<exists>b<min nb (dE_n_bands p). band_pending p thr b"
  proof (rule ccontr)
    assume "\<not> ?thesis"
    then have "local_n_eigs_done nb p thr = nb"
      unfolding local_n_eigs_done_eq by (simp only: if_False)
    then show False using assms by simp
  qed
  then have eq: "local_n_eigs_done nb p thr = l"
    unfolding local_n_eigs_done_eq l_def by simp
  have "l < min nb (dE_n_bands p) \<and> band_pending p thr l"
    using LeastI_ex[of "\<lambda>b. b < min nb (dE_n_bands p) \<and> band_pending p thr b"] ex
    unfolding l_def by blast
  then show ?thesis unfolding eq by simp
qed

text \<open>
  The count returned by \<open>_check_deigs\<close> is at most \<open>n_bands\<close>; it is the least band
  that is pending on some partition, and \<open>n_bands\<close> when there is none.
\<close>

lemma check_deigs_least_pending:
  assumes cd: "check_deigs nb d others thr = Inr (m, nd)"
  shows "nd \<le> nb"
    and "\<And>b p. b < nd \<Longrightarrow> p \<in> set (d # others)
           \<Longrightarrow> \<not> (b < dE_n_bands p \<and> band_pending p thr b)"
    and "nd < nb \<Longrightarrow> \<exists>p\<in>set (d # others). nd < dE_n_bands p \<and> band_pending p thr nd"
proof -
  define f where "f = (\<lambda>p. local_n_eigs_done nb p thr)"
  have Min: "nd = Min (f ` set (d # others))"
    unfolding f_def by (rule check_deigs_count[OF cd])
  have fin: "finite (f ` set (d # others))" and ne: "f ` set (d # others) \<noteq> {}"
    by simp_all
  from Min_in[OF fin ne] obtain q where q: "q \<in> set (d # others)" "f q = nd"
    unfolding Min[symmetric] by auto
  show le: "nd \<le> nb" using local_n_eigs_done_le[of nb q thr] q(2) unfolding f_def by simp
  show "\<not> (b < dE_n_bands p \<and> band_pending p thr b)"
    if "b < nd" "p \<in> set (d # others)" for b p
  proof -
    have "f p \<in> f ` set (d # others)" using that(2) by (rule imageI)
    then have "nd \<le> f p" unfolding Min using fin by (intro Min_le)
    then have "b < local_n_eigs_done nb p thr" using that(1) unfolding f_def by simp
    then show ?thesis by (rule local_n_eigs_done_below)
  qed
  show "\<exists>p\<in>set (d # others). nd < dE_n_bands p \<and> band_pending p thr nd" if "nd < nb"
  proof -
    have "local_n_eigs_done nb q thr < nb" using that q(2) unfolding f_def by simp
    from local_n_eigs_done_at[OF this] show ?thesis using q unfolding f_def by blast
  qed
qed

lemma iteration_count:
  assumes it: "iteration el il h n thr i st = Inr (st1, c)"
  shows "\<exists>m. check_deigs (n_bands el)
           (eig_change el (wf_n_bands (st_C st)) (st_E st) (st_E st1))
           (peers_dE el i) thr = Inr (m, st_n_eigs_done st1)"
proof -
  from it obtain Cexp where "iteration_from el il h n thr i st Cexp = Inr (st1, c)"
    by (rule iteration_InrE)
  then show ?thesis by (rule iteration_from_Inr(8))
qed

lemma band_pending_eig_change:
  "band_pending (eig_change el nb E E1) thr b
     \<longleftrightarrow> (\<exists>s<n_spins el. \<exists>k<nk_mine el. thr < \<bar>E s k b - E1 s k b\<bar>)"
  by (simp add: band_pending_iff eig_change_def)

text \<open>
  C3 (amended): in every call, the converged count at the end of each iteration (and
  at the end of the call) is at most \<open>n_bands\<close>. It is computed from the eigenvalue
  changes of that iteration alone: it is the least band whose eigenvalue has changed
  by more than the threshold for some spin and k-point of some partition, and
  \<open>n_bands\<close> when there is no such band below \<open>n_bands\<close>. So the count is not below the
  count of the iteration before exactly when no band below that count has changed by
  more than the threshold, on any partition, in this iteration.
\<close>

theorem converged_count_least_pending:
  "(\<forall>j<length (call_trace self el a t h C).
      (let tr = call_trace self el a t h C;
           prev = (initial_state el (get_inner_loop a t h) C # tr) ! j;
           cur = tr ! j;
           thr = get_eig_threshold (self_eig_threshold self) t;
           own = eig_change el (wf_n_bands (st_C prev)) (st_E prev) (st_E cur);
           pending = (\<lambda>b. \<exists>p\<in>set (own # peers_dE el (1 + j)).
                              b < dE_n_bands p \<and> band_pending p thr b)
       in st_n_eigs_done prev \<le> n_bands el
        \<and> st_n_eigs_done cur \<le> n_bands el
        \<and> (\<forall>b<st_n_eigs_done cur. \<not> pending b)
        \<and> (st_n_eigs_done cur < n_bands el \<longrightarrow> pending (st_n_eigs_done cur))
        \<and> (st_n_eigs_done prev \<le> st_n_eigs_done cur
             \<longleftrightarrow> (\<forall>b<st_n_eigs_done prev. \<not> pending b))
        \<and> dE_n_bands own = wf_n_bands (st_C prev)
        \<and> (\<forall>b. band_pending own thr b
             \<longleftrightarrow> (\<exists>s<n_spins el. \<exists>k<nk_mine el.
                    thr < \<bar>st_E prev s k b - st_E cur s k b\<bar>))))
   \<and> (\<forall>st. davidson_call self el a t h C = Inr st \<longrightarrow> st_n_eigs_done st \<le> n_bands el)"
proof -
  define tr where "tr = call_trace self el a t h C"
  define st0 where "st0 = initial_state el (get_inner_loop a t h) C"
  define thr where "thr = get_eig_threshold (self_eig_threshold self) t"
  define own where "own = (\<lambda>j. eig_change el (wf_n_bands (st_C ((st0 # tr) ! j)))
                                 (st_E ((st0 # tr) ! j)) (st_E (tr ! j)))"
  define pending where "pending = (\<lambda>j b. \<exists>p\<in>set (own j # peers_dE el (1 + j)).
                              b < dE_n_bands p \<and> band_pending p thr b)"
  have step: "st_n_eigs_done (tr ! j) \<le> n_bands el
      \<and> (\<forall>b<st_n_eigs_done (tr ! j). \<not> pending j b)
      \<and> (st_n_eigs_done (tr ! j) < n_bands el \<longrightarrow> pending j (st_n_eigs_done (tr ! j)))"
    if j: "j < length tr" for j
  proof -
    from call_trace_step[OF j[unfolded tr_def]] obtain c where
      it: "iteration el (get_inner_loop a t h) h
             (get_n_iterations (self_n_iterations self) a) thr (1 + j) ((st0 # tr) ! j)
           = Inr (tr ! j, c)"
      unfolding tr_def st0_def thr_def by blast
    from iteration_count[OF it] obtain m where
      cd: "check_deigs (n_bands el) (own j) (peers_dE el (1 + j)) thr
             = Inr (m, st_n_eigs_done (tr ! j))"
      unfolding own_def by blast
    show ?thesis
      using check_deigs_least_pending[OF cd] unfolding pending_def by blast
  qed
  have bound0: "st_n_eigs_done ((st0 # tr) ! j) \<le> n_bands el" if j: "j < length tr" for j
  proof (cases j)
    case 0 then show ?thesis by (simp add: st0_def initial_state_def Let_def)
  next
    case (Suc j')
    then have "j' < length tr" using j by simp
    from step[OF this] show ?thesis unfolding Suc by simp
  qed
  have mono: "st_n_eigs_done ((st0 # tr) ! j) \<le> st_n_eigs_done (tr ! j)
      \<longleftrightarrow> (\<forall>b<st_n_eigs_done ((st0 # tr) ! j). \<not> pending j b)"
    if j: "j < length tr" for j
  proof
    assume "st_n_eigs_done ((st0 # tr) ! j) \<le> st_n_eigs_done (tr ! j)"
    then show "\<forall>b<st_n_eigs_done ((st0 # tr) ! j). \<not> pending j b"
      using step[OF j] by auto
  next
    assume np: "\<forall>b<st_n_eigs_done ((st0 # tr) ! j). \<not> pending j b"
    show "st_n_eigs_done ((st0 # tr) ! j) \<le> st_n_eigs_done (tr ! j)"
    proof (rule ccontr)
      assume "\<not> ?thesis"
      then have lt: "st_n_eigs_done (tr ! j) < st_n_eigs_done ((st0 # tr) ! j)" by simp
      then have "st_n_eigs_done (tr ! j) < n_bands el" using bound0[OF j] by simp
      then have "pending j (st_n_eigs_done (tr ! j))" using step[OF j] by blast
      then show False using np lt by blast
    qed
  qed
  have raw: "dE_n_bands (own j) = wf_n_bands (st_C ((st0 # tr) ! j))"
    "band_pending (own j) thr b
       \<longleftrightarrow> (\<exists>s<n_spins el. \<exists>k<nk_mine el.
              thr < \<bar>st_E ((st0 # tr) ! j) s k b - st_E (tr ! j) s k b\<bar>)" for j b
    unfolding own_def by (simp add: eig_change_def, rule band_pending_eig_change)
  have 1: "\<forall>j<length tr.
       st_n_eigs_done ((st0 # tr) ! j) \<le> n_bands el
        \<and> st_n_eigs_done (tr ! j) \<le> n_bands el
        \<and> (\<forall>b<st_n_eigs_done (tr ! j). \<not> pending j b)
        \<and> (st_n_eigs_done (tr ! j) < n_bands el \<longrightarrow> pending j (st_n_eigs_done (tr ! j)))
        \<and> (st_n_eigs_done ((st0 # tr) ! j) \<le> st_n_eigs_done (tr ! j)
             \<longleftrightarrow> (\<forall>b<st_n_eigs_done ((st0 # tr) ! j). \<not> pending j b))
        \<and> dE_n_bands (own j) = wf_n_bands (st_C ((st0 # tr) ! j))
        \<and> (\<forall>b. band_pending (own j) thr b
             \<longleftrightarrow> (\<exists>s<n_spins el. \<exists>k<nk_mine el.
                    thr < \<bar>st_E ((st0 # tr) ! j) s k b - st_E (tr ! j) s k b\<bar>))"
  proof (intro allI impI)
    fix j assume j: "j < length tr"
    show "st_n_eigs_done ((st0 # tr) ! j) \<le> n_bands el
        \<and> st_n_eigs_done (tr ! j) \<le> n_bands el
        \<and> (\<forall>b<st_n_eigs_done (tr ! j). \<not> pending j b)
        \<and> (st_n_eigs_done (tr ! j) < n_bands el \<longrightarrow> pending j (st_n_eigs_done (tr ! j)))
        \<and> (st_n_eigs_done ((st0 # tr) ! j) \<le> st_n_eigs_done (tr ! j)
             \<longleftrightarrow> (\<forall>b<st_n_eigs_done ((st0 # tr) ! j). \<not> pending j b))
        \<and> dE_n_bands (own j) = wf_n_bands (st_C ((st0 # tr) ! j))
        \<and> (\<forall>b. band_pending (own j) thr b
             \<longleftrightarrow> (\<exists>s<n_spins el. \<exists>k<nk_mine el.
                    thr < \<bar>st_E ((st0 # tr) ! j) s k b - st_E (tr ! j) s k b\<bar>))"
      using bound0[OF j] step[OF j] mono[OF j] raw(1)[of j] raw(2)[of j]
      by (intro conjI allI) blast+
  qed
  have 2: "st_n_eigs_done st \<le> n_bands el" if call: "davidson_call self el a t h C = Inr st"
    for st
  proof -
    have last: "st = last (st0 # tr)"
      using davidson_call_last_trace[OF call] unfolding st0_def tr_def .
    show ?thesis
    proof (cases tr rule: rev_cases)
      case Nil
      then show ?thesis using last by (simp add: st0_def initial_state_def Let_def)
    next
      case (snoc tr' x)
      then have "st = tr ! (length tr - 1)" "length tr - 1 < length tr"
        using last by simp_all
      then show ?thesis using step[of "length tr - 1"] by simp
    qed
  qed
  show ?thesis
    unfolding Let_def
    using 1 2 unfolding tr_def st0_def thr_def own_def pending_def by blast
qed

section \<open>The example run\<close>

lemma el_example_simps:
  "n_spins el_example = 1" "nk_mine el_example = 1" "n_bands el_example = 2"
  "n_bands_extra el_example = 0" "n_min el_example = 5" "n_tot el_example = 5"
  "n_coeff el_example = 5" "n_procs_b el_example = 1"
  "overlap_op el_example C = C"
  "norm_band el_example C s k b = sqrt (\<Sum>g<5. (cmod (coeff C s k b g))\<^sup>2)"
  "eigh el_example = eigh_example" "eighg el_example = eighg_example"
  "rand el_example seed s k b g = (if seed = 1 then (if g = b + 2 then 1 else 0)
                               else (if g = 4 then 1 else 0))"
  "peers_dE el_example i = []" "peers_Eband el_example i = []"
  by (simp_all add: el_example_def)

lemma example_hamiltonian:
  "hamiltonian el_example C = C\<lparr>coeff := (\<lambda>s k b g. of_real (h_example g) * coeff C s k b g)\<rparr>"
  by (simp add: el_example_def)

lemma all_less_numeral:
  "(\<forall>i<(1::nat). P i) \<longleftrightarrow> P 0"
  "(\<forall>i<(2::nat). P i) \<longleftrightarrow> P 0 \<and> P 1"
  "(\<forall>i<(3::nat). P i) \<longleftrightarrow> P 0 \<and> P 1 \<and> P 2"
  "(\<forall>i<(4::nat). P i) \<longleftrightarrow> P 0 \<and> P 1 \<and> P 2 \<and> P 3"
  by (auto simp: less_Suc_eq eval_nat_numeral)

lemma sum_less_numeral:
  fixes f :: "nat \<Rightarrow> 'a::comm_monoid_add"
  shows "(\<Sum>g<(1::nat). f g) = f 0"
    "(\<Sum>g<(2::nat). f g) = f 0 + f 1"
    "(\<Sum>g<(3::nat). f g) = f 0 + f 1 + f 2"
    "(\<Sum>g<(4::nat). f g) = f 0 + f 1 + f 2 + f 3"
  by (simp_all add: eval_nat_numeral lessThan_Suc ac_simps)

lemma less_2_cases: "j < (2::nat) \<Longrightarrow> j = 0 \<or> j = 1" by auto

lemma h_example_simps:
  "h_example 0 = 0" "h_example 1 = 3" "h_example 2 = 1" "h_example 3 = 5" "h_example 4 = - 1"
  "h_example (Suc 0) = 3"
  by (simp_all add: h_example_def)

lemma example_linear_hamiltonian: "linear_operator (hamiltonian el_example)"
  unfolding linear_operator_def
  by (simp add: example_hamiltonian wf_matmul_def wf_add_def sum_distrib_left distrib_left mult.assoc)

lemma example_linear_overlap: "linear_operator (overlap_op el_example)"
  unfolding linear_operator_def
  by (simp add: el_example_simps wf_matmul_def wf_add_def)

lemma example_hermitian_overlap: "hermitian_overlap el_example"
  unfolding hermitian_overlap_def
  by (simp add: el_example_simps wf_dot_O_def wf_dot_def mult.commute)

text \<open>The initial state of the example run.\<close>

lemma example_initial_E:
  "st_E (initial_state el_example il (C_scaled c)) = (\<lambda>s k i. if i = 0 then 0 else 3)"
  by (simp add: initial_state_fields el_example_simps eigh_example_def)

lemma example_initial_C:
  assumes "j < 2"
  shows "coeff (st_C (initial_state el_example il (C_scaled c))) s k j g
       = (if g = j then (if j = 0 then c else 1) else 0)"
  using less_2_cases[OF assms]
  by (auto simp: initial_state_fields el_example_simps eigh_example_def wf_matmul_def
      C_scaled_def sum_less_numeral)

lemma example_initial_HC:
  assumes "j < 2"
  shows "coeff (st_HC (initial_state el_example il (C_scaled c))) s k j g
       = (if g = j then (if j = 0 then 0 else 3) else 0)"
  using less_2_cases[OF assms]
  by (auto simp: initial_state_fields el_example_simps eigh_example_def wf_matmul_def
      C_scaled_def sum_less_numeral h_example_simps example_hamiltonian)

lemma C_scaled_n_bands: "wf_n_bands (C_scaled c) = 2"
  by (simp add: C_scaled_def)

lemma example_initial_n_bands:
  "wf_n_bands (st_C (initial_state el_example il (C_scaled c))) = 2"
  "wf_n_bands (st_HC (initial_state el_example il (C_scaled c))) = 2"
  by (simp_all add: C_scaled_def)

lemma example_initial_solver_ok: "initial_solver_ok el_example (C_scaled c)"
  unfolding initial_solver_ok_def eigh_contract_def
  by (simp add: el_example_simps eigh_example_def all_less_numeral sum_less_numeral sum5
      wf_dot_def C_scaled_def h_example_simps example_hamiltonian)

lemma example_orthonormal: "orthonormal el_example (C_scaled 1)"
  unfolding orthonormal_def
  by (simp add: el_example_simps all_less_numeral sum5 wf_dot_O_def wf_dot_def C_scaled_def)

lemma C_example_scaled: "C_example = C_scaled 1"
  by (simp add: C_example_def C_scaled_def fun_eq_iff)


text \<open>The expansion block when the residual vanishes: every band is randomised.\<close>

lemma example_norm_cut: "0 < norm_cut el_example"
  by (simp add: norm_cut_def el_example_simps)

lemma example_expansion_Some:
  "expansion el_example i st = Some (the (expansion el_example i st))"
proof -
  have "\<exists>Cexp. expansion el_example i st = Some Cexp"
    by (rule expansion_defined) (simp_all add: el_example_def)
  then show ?thesis by auto
qed

lemma example_iteration_from:
  assumes "iteration el_example il h n thr i st = Inr (st1, c)"
  shows "iteration_from el_example il h n thr i st (the (expansion el_example i st))
           = Inr (st1, c)"
  using assms unfolding iteration_def by (auto split: option.splits)

lemmas example_iteration_Inr = iteration_from_Inr[OF example_iteration_from]

lemma example_expansion_of_zero_residual:
  assumes zero: "\<And>s k b g. b < wf_n_bands (residual el_example st)
                   \<Longrightarrow> coeff (residual el_example st) s k b g = 0"
    and pos: "0 < wf_n_bands (residual el_example st)"
    and b: "b < wf_n_bands (residual el_example st)"
  shows "coeff (the (expansion el_example i st)) s k b g = rand el_example i s k b g"
proof -
  define KEref where "KEref = norm_ke el_example (if st_n_eigs_done st \<noteq> 0
      then wf_slice_from (st_C st) (st_n_eigs_done st) else st_C st)"
  have ke: "\<forall>k g. 0 < get_ke el_example k g" by (simp add: el_example_def)
  obtain P where P: "precondition el_example (residual el_example st) KEref = Some P"
    using precondition_defined[OF ke] by blast
  define nrm where "nrm = norm_band el_example P"
  have nb: "wf_n_bands P = wf_n_bands (residual el_example st)"
    by (rule precondition_SomeD(1)[OF P])
  have z: "coeff P s k b g = 0" if "b < wf_n_bands (residual el_example st)" for s k b g
    unfolding precondition_SomeD(2)[OF P] precondition_coeff_def zero[OF that]
    by (simp add: divide_coeff_def split: divisor.splits option.splits)
  have low: "low_norm el_example nrm s k b" if "b < wf_n_bands (residual el_example st)" for s k b
    unfolding low_norm_def nrm_def using z[OF that] example_norm_cut
    by (simp add: el_example_simps)
  have any: "any_low_norm el_example nrm (wf_n_bands P)"
    unfolding any_low_norm_iff nb using low pos by (auto simp: el_example_simps)
  have reg: "regularize el_example P nrm i =
      (randomize_selected el_example P (low_norm el_example nrm) i,
       (\<lambda>s k b. if low_norm el_example nrm s k b then 1 else nrm s k b))"
    unfolding regularize_def using any by (simp add: el_example_simps)
  have nz: "normalize_bands el_example (randomize_selected el_example P (low_norm el_example nrm) i)
        (\<lambda>s k b. if low_norm el_example nrm s k b then 1 else nrm s k b)
      = Some (wf_scale (randomize_selected el_example P (low_norm el_example nrm) i)
          (\<lambda>s k b. 1 / (if low_norm el_example nrm s k b then 1 else nrm s k b)))"
    using low by (simp add: normalize_bands_def list_all_iff randomize_selected_def nb)
  have "expansion el_example i st =
      Some (wf_scale (randomize_selected el_example P (low_norm el_example nrm) i)
        (\<lambda>s k b. 1 / (if low_norm el_example nrm s k b then 1 else nrm s k b)))"
    unfolding expansion_def Let_def KEref_def[symmetric] P option.case nrm_def[symmetric] reg
    using nz by simp
  then show ?thesis using low[OF b]
    by (simp add: wf_scale_def randomize_selected_def)
qed

lemma example_residual_1:
  assumes "b < 2"
  shows "coeff (residual el_example (initial_state el_example il (C_scaled c))) s k b g = 0"
  using less_2_cases[OF assms]
  by (auto simp: residual_def Let_def initial_state_fields(4) example_initial_E
      example_initial_C example_initial_HC el_example_simps)

lemma example_residual_n_bands:
  "wf_n_bands (residual el st) = wf_n_bands (st_HC st) - st_n_eigs_done st"
  by (simp add: residual_def Let_def wf_slice_from_def)

lemma example_expansion_1:
  assumes "b < 2"
  shows "coeff (the (expansion el_example 1 (initial_state el_example il (C_scaled c)))) s k b g
       = (if g = b + 2 then 1 else 0)"
proof -
  have n: "wf_n_bands (residual el_example (initial_state el_example il (C_scaled c))) = 2"
    by (simp add: example_residual_n_bands C_scaled_n_bands initial_state_fields(4))
  have "coeff (the (expansion el_example 1 (initial_state el_example il (C_scaled c)))) s k b g
      = rand el_example 1 s k b g"
    by (rule example_expansion_of_zero_residual)
       (simp_all add: n example_residual_1 assms)
  then show ?thesis by (simp add: el_example_simps)
qed


lemmas example_expansion_1_Suc = example_expansion_1[unfolded One_nat_def]

lemma example_expansion_1_n_bands:
  "wf_n_bands (the (expansion el_example 1 (initial_state el_example il (C_scaled c)))) = 2"
  by (simp add: expansion_n_bands[OF example_expansion_Some] C_scaled_n_bands
      initial_state_fields(4))

lemma example_OC_1:
  "\<forall>a<4. \<forall>b<4. C_OC_new el_example (st_C (initial_state el_example il (C_scaled c)))
       (the (expansion el_example 1 (initial_state el_example il (C_scaled c)))) s k a b
     = (if a = b then 1 else 0)"
  by (simp add: all_less_numeral C_OC_new_def assemble_def eye_def dagger_def Let_def
      C_scaled_n_bands wf_dot_O_def wf_dot_def el_example_simps sum5
      example_initial_C example_expansion_1 example_expansion_1_Suc)

lemma example_HC_1:
  "\<forall>a<4. \<forall>b<4. C_HC_new el_example (st_C (initial_state el_example il (C_scaled c)))
       (st_E (initial_state el_example il (C_scaled c)))
       (the (expansion el_example 1 (initial_state el_example il (C_scaled c))))
       (hamiltonian el_example
          (the (expansion el_example 1 (initial_state el_example il (C_scaled c))))) s k a b
     = (if a = b then (if a = 0 then 0 else if a = 1 then 3 else if a = 2 then 1 else 5) else 0)"
  by (simp add: all_less_numeral C_HC_new_def assemble_def diag_embed_def dagger_def Let_def
      C_scaled_n_bands wf_dot_def el_example_simps sum5 example_initial_E
      example_initial_C example_expansion_1 example_expansion_1_Suc h_example_simps
      example_hamiltonian)


lemmas example_expansion_1_n_bands_Suc = example_expansion_1_n_bands[unfolded One_nat_def]
lemmas example_OC_1_Suc = example_OC_1[unfolded One_nat_def]
lemmas example_HC_1_Suc = example_HC_1[unfolded One_nat_def]

lemma example_solver_ok_1:
  "solver_ok el_example 1 (initial_state el_example il (C_scaled c))"
proof -
  have "solver_ok_with el_example (initial_state el_example il (C_scaled c))
          (the (expansion el_example 1 (initial_state el_example il (C_scaled c))))"
    unfolding solver_ok_with_def Let_def eighg_contract_def
    by (simp add: el_example_simps all_less_numeral solve_subspace_def eighg_example_def
        C_scaled_n_bands example_expansion_1_n_bands_Suc sum_less_numeral
        example_OC_1_Suc[rule_format] example_HC_1_Suc[rule_format])
  then show ?thesis unfolding solver_ok_def by (subst example_expansion_Some) simp
qed


lemma upt_numeral: "[0..<(1::nat)] = [0]" "[0..<(2::nat)] = [0, 1]" "[0..<Suc 0] = [0]"
  by (simp_all add: upt_rec)

lemma iteration_count_single:
  assumes it: "iteration el il h n thr i st = Inr (st1, c)"
    and peers: "peers_dE el i = []"
  shows "st_n_eigs_done st1 = local_n_eigs_done (n_bands el)
           (eig_change el (wf_n_bands (st_C st)) (st_E st) (st_E st1)) thr"
proof -
  obtain m where cd: "check_deigs (n_bands el)
      (eig_change el (wf_n_bands (st_C st)) (st_E st) (st_E st1)) (peers_dE el i) thr
        = Inr (m, st_n_eigs_done st1)"
    using iteration_count[OF it] by blast
  show ?thesis using check_deigs_count[OF cd] by (simp add: peers)
qed

text \<open>The state after the first iteration of the example run.\<close>

lemma example_state_1:
  assumes it: "iteration el_example il h n thr 1 (initial_state el_example il' (C_scaled c))
                 = Inr (st1, cv)"
  shows "st_E st1 = (\<lambda>s k i. if i = 0 then 0 else if i = 1 then 1 else if i = 2 then 3 else 5)"
    and "wf_n_bands (st_C st1) = 2" and "wf_n_bands (st_HC st1) = 2"
    and "j < 2 \<Longrightarrow> coeff (st_C st1) s k j g
           = (if j = 0 then (if g = 0 then c else 0) else (if g = 2 then 1 else 0))"
    and "j < 2 \<Longrightarrow> coeff (st_HC st1) s k j g
           = (if j = 0 then 0 else (if g = 2 then 1 else 0))"
    and "0 \<le> thr \<Longrightarrow> thr < 2 \<Longrightarrow> st_n_eigs_done st1 = 1"
    and "0 \<le> thr \<Longrightarrow> thr < 2 \<Longrightarrow> \<not> cv"
proof -
  show E: "st_E st1 = (\<lambda>s k i. if i = 0 then 0 else if i = 1 then 1 else if i = 2 then 3 else 5)"
    unfolding example_iteration_Inr(3)[OF it]
    by (simp add: solve_subspace_def el_example_simps eighg_example_def C_scaled_n_bands
        example_expansion_1_n_bands_Suc)
  show "wf_n_bands (st_C st1) = 2" "wf_n_bands (st_HC st1) = 2"
    unfolding example_iteration_Inr(1,2)[OF it]
    by (simp_all add: el_example_simps C_scaled_n_bands example_expansion_1_n_bands_Suc)
  show "coeff (st_C st1) s k j g
           = (if j = 0 then (if g = 0 then c else 0) else (if g = 2 then 1 else 0))" if "j < 2"
    unfolding example_iteration_Inr(1)[OF it]
    using less_2_cases[OF that]
    by (auto simp: coeff_rotate solve_subspace_def el_example_simps eighg_example_def C_scaled_n_bands
        example_expansion_1_n_bands_Suc sum_less_numeral example_initial_C
        example_expansion_1_Suc)
  show "coeff (st_HC st1) s k j g
           = (if j = 0 then 0 else (if g = 2 then 1 else 0))" if "j < 2"
    unfolding example_iteration_Inr(2)[OF it]
    using less_2_cases[OF that]
    by (auto simp: coeff_rotate example_initial_n_bands
        solve_subspace_def el_example_simps eighg_example_def C_scaled_n_bands
        example_expansion_1_n_bands_Suc sum_less_numeral example_initial_HC
        example_expansion_1_Suc example_hamiltonian h_example_simps)
  have nd: "st_n_eigs_done st1 = 1" if "0 \<le> thr" "thr < 2"
    unfolding iteration_count_single[OF it el_example_simps(14)] E
    using that
    by (simp add: local_n_eigs_done_def eigs_pending_def band_pending_def eig_change_def
        el_example_simps C_scaled_n_bands example_initial_E upt_numeral)
  then show "0 \<le> thr \<Longrightarrow> thr < 2 \<Longrightarrow> st_n_eigs_done st1 = 1" .
  show "\<not> cv" if "0 \<le> thr" "thr < 2"
    using example_iteration_Inr(6)[OF it] nd[OF that] by (simp add: el_example_simps)
qed


lemma example_iteration_1_exists:
  "\<exists>st1 cv. iteration el_example il h n thr 1 (initial_state el_example il' (C_scaled c))
      = Inr (st1, cv)"
  by (rule iteration_total) (simp_all add: el_example_def C_scaled_n_bands)

lemma example_trace_one_iteration:
  assumes "0 \<le> t" "t < 2"
  shows "\<exists>st1. iteration el_example il h 1 t 1 (initial_state el_example il (C_scaled c))
              = Inr (st1, False)
     \<and> davidson_trace el_example il h 1 t (nat 1) 1 (initial_state el_example il (C_scaled c))
         = [st1]
     \<and> davidson_loop el_example il h 1 t (nat 1) 1 (initial_state el_example il (C_scaled c))
         = Inr st1"
proof -
  obtain st1 cv where it:
    "iteration el_example il h 1 t 1 (initial_state el_example il (C_scaled c)) = Inr (st1, cv)"
    using example_iteration_1_exists by blast
  have "\<not> cv" using example_state_1(7)[OF it assms] .
  then show ?thesis using it by simp
qed




lemma example_call_one_iteration:
  "\<exists>st1. iteration el_example True False 1 (1 / 10 ^ 8) 1
             (initial_state el_example True (C_scaled c)) = Inr (st1, False)
     \<and> call_trace davidson_example el_example (Some 1) None False (C_scaled c) = [st1]
     \<and> davidson_call davidson_example el_example (Some 1) None False (C_scaled c) = Inr st1"
proof -
  have thr: "(0::real) \<le> 1 / 10 ^ 8" "(1::real) / 10 ^ 8 < 2" by simp_all
  from example_trace_one_iteration[OF thr, of True False c]
  show ?thesis
    by (simp add: call_trace_def davidson_call_def Let_def basis_check_def el_example_simps
        get_inner_loop_def get_n_iterations_def get_eig_threshold_def truthy_int_def
        truthy_float_def davidson_example_def)
qed

theorem orthonormality_invariant_witness:
  "\<exists>st. davidson_call davidson_example el_example (Some 1) None False (C_scaled 1) = Inr st
      \<and> call_trace davidson_example el_example (Some 1) None False (C_scaled 1) = [st]
      \<and> orthonormal el_example (st_C st)"
proof -
  obtain st1 where st1:
    "call_trace davidson_example el_example (Some 1) None False (C_scaled 1) = [st1]"
    "davidson_call davidson_example el_example (Some 1) None False (C_scaled 1) = Inr st1"
    using example_call_one_iteration by blast
  have il: "get_inner_loop (Some 1) None False = True"
    by (simp add: get_inner_loop_def truthy_int_def)
  have ok: "solver_ok_along el_example 1
      (initial_state el_example (get_inner_loop (Some 1) None False) (C_scaled 1))
      (call_trace davidson_example el_example (Some 1) None False (C_scaled 1))"
    unfolding st1(1) il using example_solver_ok_1 by simp
  from orthonormality_invariant[OF example_linear_overlap example_hermitian_overlap
      example_orthonormal example_initial_solver_ok ok] st1
  show ?thesis by simp
qed

text \<open>
  C1 as stated fails: started from the block whose first band is twice the first unit
  vector, the call completes one iteration, the dense solvers meeting their contracts,
  and ends with a block whose first band has the overlap 4 with itself.
\<close>

theorem orthonormality_counterexample:
  "initial_solver_ok el_example (C_scaled 2)
   \<and> solver_ok_along el_example 1 (initial_state el_example True (C_scaled 2))
        (call_trace davidson_example el_example (Some 1) None False (C_scaled 2))
   \<and> length (call_trace davidson_example el_example (Some 1) None False (C_scaled 2)) = 1
   \<and> davidson_call davidson_example el_example (Some 1) None False (C_scaled 2)
       = Inr (last (call_trace davidson_example el_example (Some 1) None False (C_scaled 2)))
   \<and> wf_dot_O el_example
        (st_C (last (call_trace davidson_example el_example (Some 1) None False (C_scaled 2))))
        (st_C (last (call_trace davidson_example el_example (Some 1) None False (C_scaled 2))))
        0 0 0 0 = 4
   \<and> \<not> orthonormal el_example
        (st_C (last (call_trace davidson_example el_example (Some 1) None False (C_scaled 2))))"
proof -
  obtain st1 where it: "iteration el_example True False 1 (1 / 10 ^ 8) 1
             (initial_state el_example True (C_scaled 2)) = Inr (st1, False)"
    and st1:
    "call_trace davidson_example el_example (Some 1) None False (C_scaled 2) = [st1]"
    "davidson_call davidson_example el_example (Some 1) None False (C_scaled 2) = Inr st1"
    using example_call_one_iteration by blast
  have 4: "wf_dot_O el_example (st_C st1) (st_C st1) 0 0 0 0 = 4"
    by (simp add: wf_dot_O_def wf_dot_def el_example_simps sum5 example_state_1(4)[OF it])
  then have "\<not> orthonormal el_example (st_C st1)"
    unfolding orthonormal_def
    by (auto simp: el_example_simps example_state_1(2)[OF it] all_less_numeral)
  then show ?thesis
    unfolding st1 using 4 example_initial_solver_ok[of 2] example_solver_ok_1[of True 2]
    by simp
qed

theorem operator_image_rotated_not_recomputed_witness:
  "\<exists>st1 Cexp. iteration el_example True False 1 (1 / 10 ^ 8) 1
             (initial_state el_example True (C_scaled 1)) = Inr (st1, False)
      \<and> expansion el_example 1 (initial_state el_example True (C_scaled 1)) = Some Cexp
      \<and> wf_n_bands (st_C st1) = 2
      \<and> wf_n_bands (st_HC st1) = 2
      \<and> consistent el_example st1
      \<and> st_applied st1 = [C_scaled 1, Cexp]
      \<and> coeff (st_HC st1) 0 0 1 2 = coeff (hamiltonian el_example (st_C st1)) 0 0 1 2"
proof -
  define st0 where "st0 = initial_state el_example True (C_scaled 1)"
  obtain st1 where it: "iteration el_example True False 1 (1 / 10 ^ 8) 1 st0 = Inr (st1, False)"
    using example_call_one_iteration unfolding st0_def by blast
  have cons0: "linear_operator (hamiltonian el_example) \<and> consistent el_example st0"
    unfolding st0_def
    using example_linear_hamiltonian initial_state_consistent[OF example_linear_hamiltonian]
    by blast
  note inst = operator_image_rotated_not_recomputed[OF it]
  from inst[THEN conjunct1, unfolded Let_def] obtain Cexp where
    e: "expansion el_example 1 st0 = Some Cexp"
    and nC: "wf_n_bands (st_C st1) = min (wf_n_bands (st_C st0) + wf_n_bands Cexp)
                (n_bands el_example + n_bands_extra el_example)"
    and nHC: "wf_n_bands (st_HC st1) = min (wf_n_bands (st_C st0) + wf_n_bands Cexp)
                (n_bands el_example + n_bands_extra el_example)"
    and ap: "st_applied st1 = st_applied st0 @ [Cexp]"
    and img: "linear_operator (hamiltonian el_example) \<and> consistent el_example st0 \<longrightarrow>
                wf_n_bands (st_HC st0) = wf_n_bands (st_C st0)
                \<and> wf_n_bands (hamiltonian el_example Cexp) = wf_n_bands Cexp
                \<and> (\<forall>s k j g. coeff (st_HC st1) s k j g
                      = coeff (hamiltonian el_example (st_C st1)) s k j g)
                \<and> consistent el_example st1"
    by blast
  from img cons0 have c1: "consistent el_example st1"
    and im: "\<forall>s k j g. coeff (st_HC st1) s k j g
                      = coeff (hamiltonian el_example (st_C st1)) s k j g"
    by blast+
  have n0: "wf_n_bands (st_C st0) = 2" unfolding st0_def by (simp add: C_scaled_n_bands)
  have a0: "st_applied st0 = [C_scaled 1]" unfolding st0_def by (simp add: initial_state_fields)
  have "iteration el_example True False 1 (1 / 10 ^ 8) 1 st0 = Inr (st1, False)
      \<and> expansion el_example 1 st0 = Some Cexp
      \<and> wf_n_bands (st_C st1) = 2
      \<and> wf_n_bands (st_HC st1) = 2
      \<and> consistent el_example st1
      \<and> st_applied st1 = [C_scaled 1, Cexp]
      \<and> coeff (st_HC st1) 0 0 1 2 = coeff (hamiltonian el_example (st_C st1)) 0 0 1 2"
    using it e nC nHC c1 ap im by (simp add: n0 a0 el_example_simps)
  then show ?thesis unfolding st0_def by blast
qed


text \<open>The second iteration of the example run.\<close>

lemma example_residual_2:
  assumes it: "iteration el_example il h n thr 1 (initial_state el_example il' (C_scaled c))
                 = Inr (st1, cv)"
    and thr: "0 \<le> thr" "thr < 2"
  shows "wf_n_bands (residual el_example st1) = 1"
    and "b < 1 \<Longrightarrow> coeff (residual el_example st1) s k b g = 0"
proof -
  note st1 = example_state_1[OF it]
  show "wf_n_bands (residual el_example st1) = 1"
    by (simp add: example_residual_n_bands st1(3) st1(6)[OF thr])
  show "coeff (residual el_example st1) s k b g = 0" if "b < 1"
    using that
    by (simp add: residual_def Let_def st1(6)[OF thr] wf_slice_from_def el_example_simps
        st1(1) st1(4) st1(5))
qed

lemma example_expansion_2:
  assumes it: "iteration el_example il h n thr 1 (initial_state el_example il' (C_scaled c))
                 = Inr (st1, cv)"
    and thr: "0 \<le> thr" "thr < 2"
  shows "wf_n_bands (the (expansion el_example 2 st1)) = 1"
    and "coeff (the (expansion el_example 2 st1)) s k 0 g = (if g = 4 then 1 else 0)"
proof -
  note st1 = example_state_1[OF it]
  note res = example_residual_2[OF it thr]
  show "wf_n_bands (the (expansion el_example 2 st1)) = 1"
    by (simp add: expansion_n_bands[OF example_expansion_Some] st1(3) st1(6)[OF thr])
  have "coeff (the (expansion el_example 2 st1)) s k 0 g = rand el_example 2 s k 0 g"
    by (rule example_expansion_of_zero_residual) (simp_all add: res)
  then show "coeff (the (expansion el_example 2 st1)) s k 0 g = (if g = 4 then 1 else 0)"
    by (simp add: el_example_simps)
qed

lemma example_OC_2:
  assumes it: "iteration el_example il h n thr 1 (initial_state el_example il' (C_scaled 1))
                 = Inr (st1, cv)"
    and thr: "0 \<le> thr" "thr < 2"
  shows "\<forall>a<3. \<forall>b<3. C_OC_new el_example (st_C st1) (the (expansion el_example 2 st1)) s k a b
     = (if a = b then 1 else 0)"
  by (simp add: all_less_numeral C_OC_new_def assemble_def eye_def dagger_def Let_def
      wf_dot_O_def wf_dot_def el_example_simps sum5
      example_state_1(2)[OF it] example_state_1(4)[OF it] example_expansion_2(2)[OF it thr])

lemma example_HC_2:
  assumes it: "iteration el_example il h n thr 1 (initial_state el_example il' (C_scaled 1))
                 = Inr (st1, cv)"
    and thr: "0 \<le> thr" "thr < 2"
  shows "\<forall>a<3. \<forall>b<3. C_HC_new el_example (st_C st1) (st_E st1) (the (expansion el_example 2 st1))
       (hamiltonian el_example (the (expansion el_example 2 st1))) s k a b
     = (if a = b then (if a = 0 then 0 else if a = 1 then 1 else - 1) else 0)"
  by (simp add: all_less_numeral C_HC_new_def assemble_def diag_embed_def dagger_def Let_def
      wf_dot_def el_example_simps sum5 example_hamiltonian h_example_simps
      example_state_1(1)[OF it]
      example_state_1(2)[OF it] example_state_1(4)[OF it] example_expansion_2(2)[OF it thr])

lemma example_solver_ok_2:
  assumes it: "iteration el_example il h n thr 1 (initial_state el_example il' (C_scaled 1))
                 = Inr (st1, cv)"
    and thr: "0 \<le> thr" "thr < 2"
  shows "solver_ok el_example 2 st1"
proof -
  have "solver_ok_with el_example st1 (the (expansion el_example 2 st1))"
    unfolding solver_ok_with_def Let_def eighg_contract_def
    by (simp add: el_example_simps all_less_numeral solve_subspace_def eighg_example_def
        example_state_1(2)[OF it] example_expansion_2(1)[OF it thr] sum_less_numeral
        example_OC_2[OF it thr, rule_format] example_HC_2[OF it thr, rule_format])
  then show ?thesis unfolding solver_ok_def by (subst example_expansion_Some) simp
qed

lemma example_iteration_2_exists:
  assumes it: "iteration el_example il h n thr 1 (initial_state el_example il' (C_scaled c))
                 = Inr (st1, cv)"
  shows "\<exists>st2 cv2. iteration el_example il2 h2 n2 thr2 2 st1 = Inr (st2, cv2)"
  by (rule iteration_total) (simp_all add: el_example_def example_state_1(2)[OF it])

lemma example_state_2:
  assumes it: "iteration el_example il h n thr 1 (initial_state el_example il' (C_scaled c))
                 = Inr (st1, cv)"
    and thr: "0 \<le> thr" "thr < 2"
    and it2: "iteration el_example il2 h2 n2 thr2 2 st1 = Inr (st2, cv2)"
  shows "st_E st2 = (\<lambda>s k i. if i = 0 then - 1 else if i = 1 then 0 else 1)"
    and "0 \<le> thr2 \<Longrightarrow> thr2 < 1 \<Longrightarrow> st_n_eigs_done st2 = 0"
    and "1 \<le> thr2 \<Longrightarrow> st_n_eigs_done st2 = 2"
    and "0 \<le> thr2 \<Longrightarrow> thr2 < 1 \<Longrightarrow> \<not> cv2"
    and "1 \<le> thr2 \<Longrightarrow> cv2"
proof -
  note st1 = example_state_1[OF it]
  show E: "st_E st2 = (\<lambda>s k i. if i = 0 then - 1 else if i = 1 then 0 else 1)"
    unfolding example_iteration_Inr(3)[OF it2]
    by (simp add: solve_subspace_def el_example_simps eighg_example_def st1(2)
        example_expansion_2(1)[OF it thr])
  have nd: "st_n_eigs_done st2 = local_n_eigs_done 2 (eig_change el_example 2 (st_E st1) (st_E st2)) thr2"
    using iteration_count_single[OF it2 el_example_simps(14)]
    by (simp add: el_example_simps st1(2))
  show 0: "st_n_eigs_done st2 = 0" if "0 \<le> thr2" "thr2 < 1"
    unfolding nd E st1(1) using that
    by (simp add: local_n_eigs_done_def eigs_pending_def band_pending_def eig_change_def
        el_example_simps upt_numeral)
  show 2: "st_n_eigs_done st2 = 2" if "1 \<le> thr2"
    unfolding nd E st1(1) using that
    by (simp add: local_n_eigs_done_def eigs_pending_def band_pending_def eig_change_def
        el_example_simps upt_numeral)
  show "cv2" if "1 \<le> thr2"
    using example_iteration_Inr(6)[OF it2] 2[OF that] by (simp add: el_example_simps)
  show "\<not> cv2" if "0 \<le> thr2" "thr2 < 1"
    using example_iteration_Inr(6)[OF it2] 0[OF that] by (simp add: el_example_simps)
qed


lemma example_call_two_iterations:
  "\<exists>st1 st2.
       iteration el_example False False 2 (1 / 10 ^ 8) 1
         (initial_state el_example False (C_scaled 1)) = Inr (st1, False)
     \<and> iteration el_example False False 2 (1 / 10 ^ 8) 2 st1 = Inr (st2, False)
     \<and> call_trace davidson_example el_example None None False C_example = [st1, st2]"
proof -
  have thr: "(0::real) \<le> 1 / 10 ^ 8" "(1::real) / 10 ^ 8 < 2" "(1::real) / 10 ^ 8 < 1"
    by simp_all
  obtain st1 cv where it1: "iteration el_example False False 2 (1 / 10 ^ 8) 1
         (initial_state el_example False (C_scaled 1)) = Inr (st1, cv)"
    using example_iteration_1_exists by blast
  have cv: "\<not> cv" by (rule example_state_1(7)[OF it1 thr(1,2)])
  obtain st2 cv2 where it2: "iteration el_example False False 2 (1 / 10 ^ 8) 2 st1 = Inr (st2, cv2)"
    using example_iteration_2_exists[OF it1] by blast
  have cv2: "\<not> cv2" by (rule example_state_2(4)[OF it1 thr(1,2) it2 thr(1,3)])
  have it2': "iteration el_example False False 2 (1 / 10 ^ 8) (Suc (Suc 0)) st1 = Inr (st2, cv2)"
    using it2 by (simp add: numeral_2_eq_2)
  have "davidson_trace el_example False False 2 (1 / 10 ^ 8) (Suc (Suc 0)) 1
          (initial_state el_example False (C_scaled 1)) = [st1, st2]"
    using it1 it2' cv cv2 by simp
  then have "call_trace davidson_example el_example None None False C_example = [st1, st2]"
    by (simp add: call_trace_def Let_def get_inner_loop_def get_n_iterations_def
        get_eig_threshold_def truthy_int_def truthy_float_def davidson_example_def
        C_example_scaled numeral_2_eq_2)
  then show ?thesis using it1 it2 cv cv2
    by (intro exI[of _ st1] exI[of _ st2]) simp
qed

text \<open>
  C3 as stated fails: in the example run, started from an orthonormal block with the
  dense solvers meeting their contracts, the converged count is 1 after the first
  iteration and 0 after the second.
\<close>

theorem converged_count_decreases_counterexample:
  "initial_solver_ok el_example C_example
   \<and> orthonormal el_example C_example
   \<and> solver_ok_along el_example 1 (initial_state el_example False C_example)
        (call_trace davidson_example el_example None None False C_example)
   \<and> map st_n_eigs_done (call_trace davidson_example el_example None None False C_example)
       = [1, 0]"
proof -
  have thr: "(0::real) \<le> 1 / 10 ^ 8" "(1::real) / 10 ^ 8 < 2" "(1::real) / 10 ^ 8 < 1"
    by simp_all
  obtain st1 st2 where it1: "iteration el_example False False 2 (1 / 10 ^ 8) 1
         (initial_state el_example False (C_scaled 1)) = Inr (st1, False)"
    and it2: "iteration el_example False False 2 (1 / 10 ^ 8) 2 st1 = Inr (st2, False)"
    and tr: "call_trace davidson_example el_example None None False C_example = [st1, st2]"
    using example_call_two_iterations by blast
  have n1: "st_n_eigs_done st1 = 1" by (rule example_state_1(6)[OF it1 thr(1,2)])
  have n2: "st_n_eigs_done st2 = 0" by (rule example_state_2(2)[OF it1 thr(1,2) it2 thr(1,3)])
  have ok: "solver_ok_along el_example 1 (initial_state el_example False C_example) [st1, st2]"
    using example_solver_ok_1[of False 1] example_solver_ok_2[OF it1 thr(1,2)]
    by (simp add: C_example_scaled numeral_2_eq_2)
  show ?thesis
    unfolding tr using ok n1 n2 example_initial_solver_ok[of 1] example_orthonormal
    by (simp add: C_example_scaled)
qed

lemma example_call_converging:
  "\<exists>st1 st2.
       call_trace davidson_example el_example None (Some (3 / 2)) False C_example = [st1, st2]
     \<and> st_n_eigs_done st1 = 1 \<and> st_n_eigs_done st2 = 2 \<and> wf_n_bands (st_C st1) = 2"
proof -
  have thr: "(0::real) \<le> 3 / 2" "(3::real) / 2 < 2" "(1::real) \<le> 3 / 2" by simp_all
  obtain st1 cv1 where it1: "iteration el_example True False 2 (3 / 2) 1
         (initial_state el_example True (C_scaled 1)) = Inr (st1, cv1)"
    using example_iteration_1_exists by blast
  have cv1: "\<not> cv1" by (rule example_state_1(7)[OF it1 thr(1,2)])
  obtain st2 cv2 where it2: "iteration el_example True False 2 (3 / 2) 2 st1 = Inr (st2, cv2)"
    using example_iteration_2_exists[OF it1] by blast
  have cv2: "cv2" by (rule example_state_2(5)[OF it1 thr(1,2) it2 thr(3)])
  have n1: "st_n_eigs_done st1 = 1" by (rule example_state_1(6)[OF it1 thr(1,2)])
  have n2: "st_n_eigs_done st2 = 2" by (rule example_state_2(3)[OF it1 thr(1,2) it2 thr(3)])
  have it2': "iteration el_example True False 2 (3 / 2) (Suc (Suc 0)) st1 = Inr (st2, cv2)"
    using it2 by (simp add: numeral_2_eq_2)
  have "davidson_trace el_example True False 2 (3 / 2) (Suc (Suc 0)) 1
          (initial_state el_example True (C_scaled 1)) = [st1, st2]"
    using it1 it2' cv1 cv2 by simp
  then have "call_trace davidson_example el_example None (Some (3 / 2)) False C_example
               = [st1, st2]"
    by (simp add: call_trace_def Let_def get_inner_loop_def get_n_iterations_def
        get_eig_threshold_def truthy_int_def truthy_float_def davidson_example_def
        C_example_scaled numeral_2_eq_2)
  then show ?thesis using n1 n2 example_state_1(2)[OF it1] by blast
qed

theorem converged_count_least_pending_witness:
  "\<exists>st1 st2.
       call_trace davidson_example el_example None (Some (3 / 2)) False C_example = [st1, st2]
     \<and> st_n_eigs_done st1 = 1 \<and> st_n_eigs_done st2 = 2
     \<and> \<not> band_pending (eig_change el_example (wf_n_bands (st_C st1)) (st_E st1) (st_E st2))
           (3 / 2) 0
     \<and> \<not> (\<exists>s<n_spins el_example. \<exists>k<nk_mine el_example.
             3 / 2 < \<bar>st_E st1 s k 0 - st_E st2 s k 0\<bar>)"
proof -
  obtain st1 st2 where
    tr: "call_trace davidson_example el_example None (Some (3 / 2)) False C_example = [st1, st2]"
    and n1: "st_n_eigs_done st1 = 1" and n2: "st_n_eigs_done st2 = 2"
    and nb: "wf_n_bands (st_C st1) = 2"
    using example_call_converging by blast
  define own where "own = eig_change el_example (wf_n_bands (st_C st1)) (st_E st1) (st_E st2)"
  have j: "1 < length (call_trace davidson_example el_example None (Some (3 / 2)) False
                        C_example)"
    unfolding tr by simp
  have thr: "get_eig_threshold (self_eig_threshold davidson_example) (Some (3 / 2)) = 3 / 2"
    by (simp add: get_eig_threshold_def truthy_float_def)
  note inst = converged_count_least_pending[where self = davidson_example
      and el = el_example and a = None and t = "Some (3 / 2)" and h = False
      and C = C_example, THEN conjunct1, rule_format, OF j]
  have nths: "(x # [st1, st2]) ! 1 = st1" "[st1, st2] ! 1 = st2" for x
    by simp_all
  note inst2 = inst[unfolded Let_def tr thr nths, folded own_def]
  have mono: "st_n_eigs_done st1 \<le> st_n_eigs_done st2
      \<longleftrightarrow> (\<forall>b<st_n_eigs_done st1. \<not> (\<exists>p\<in>set (own # peers_dE el_example (1 + 1)).
               b < dE_n_bands p \<and> band_pending p (3 / 2) b))"
    and sz: "dE_n_bands own = wf_n_bands (st_C st1)"
    and raw: "\<forall>b. band_pending own (3 / 2) b
        \<longleftrightarrow> (\<exists>s<n_spins el_example. \<exists>k<nk_mine el_example.
               3 / 2 < \<bar>st_E st1 s k b - st_E st2 s k b\<bar>)"
    by (rule inst2[THEN conjunct2, THEN conjunct2, THEN conjunct2, THEN conjunct2,
          THEN conjunct1],
        rule inst2[THEN conjunct2, THEN conjunct2, THEN conjunct2, THEN conjunct2,
          THEN conjunct2, THEN conjunct1],
        rule inst2[THEN conjunct2, THEN conjunct2, THEN conjunct2, THEN conjunct2,
          THEN conjunct2, THEN conjunct2])
  have "\<not> band_pending own (3 / 2) 0"
    using mono sz unfolding n1 n2 nb by (simp add: el_example_simps)
  then show ?thesis using tr n1 n2 raw unfolding own_def by blast
qed


theorem call_overrides_witness:
  "(\<exists>st. davidson_call davidson_example el_example None None False C_example = Inr st
        \<and> Failed_to_converge False \<in> set (st_log st))
   \<and> (\<exists>st. davidson_call davidson_example el_example (Some 1) None False C_example = Inr st
        \<and> \<not> (\<exists>b. Failed_to_converge b \<in> set (st_log st)))"
proof -
  have thr: "(0::real) \<le> 1 / 10 ^ 8" "(1::real) / 10 ^ 8 < 2" "(1::real) / 10 ^ 8 < 1"
    by simp_all
  obtain st1 st2 where it1: "iteration el_example False False 2 (1 / 10 ^ 8) 1
         (initial_state el_example False (C_scaled 1)) = Inr (st1, False)"
    and it2: "iteration el_example False False 2 (1 / 10 ^ 8) 2 st1 = Inr (st2, False)"
    and tr: "call_trace davidson_example el_example None None False C_example = [st1, st2]"
    using example_call_two_iterations by blast
  obtain st where call:
    "davidson_call davidson_example el_example None None False C_example = Inr st"
    using example_call_returns by blast
  have st: "st = st2" using davidson_call_last_trace[OF call] tr by simp
  have n2: "st_n_eigs_done st = 0"
    unfolding st by (rule example_state_2(2)[OF it1 thr(1,2) it2 thr(1,3)])
  note inst = call_overrides[where self = davidson_example and el = el_example
      and a = None and t = None and h = False and C = C_example,
      THEN conjunct2, THEN conjunct2, THEN conjunct2, THEN conjunct2, THEN conjunct2,
      THEN conjunct1, rule_format, OF call]
  have flags: "\<forall>l\<in>set (st_log st). log_inner_loop l = False"
    using inst[THEN conjunct1] by (simp add: get_inner_loop_def truthy_int_def truthy_float_def)
  have "\<exists>b. Failed_to_converge b \<in> set (st_log st)"
    unfolding inst[THEN conjunct2] tr n2
    by (simp add: get_inner_loop_def get_n_iterations_def truthy_int_def truthy_float_def
        davidson_example_def el_example_simps)
  then obtain b where b: "Failed_to_converge b \<in> set (st_log st)" by blast
  then have "log_inner_loop (Failed_to_converge b) = False" using flags by blast
  then have 1: "Failed_to_converge False \<in> set (st_log st)" using b by simp
  obtain st' where call':
    "davidson_call davidson_example el_example (Some 1) None False C_example = Inr st'"
    using example_call_returns by blast
  note inst' = call_overrides[where self = davidson_example and el = el_example
      and a = "Some 1" and t = None and h = False and C = C_example,
      THEN conjunct2, THEN conjunct2, THEN conjunct2, THEN conjunct2, THEN conjunct2,
      THEN conjunct1, rule_format, OF call']
  have 2: "\<not> (\<exists>b. Failed_to_converge b \<in> set (st_log st'))"
    unfolding inst'[THEN conjunct2]
    by (simp add: get_inner_loop_def truthy_int_def)
  show ?thesis using call 1 call' 2 by blast
qed

end
